(* ===== verification/Prelude.thy ===== *)
theory Prelude
  imports Main "HOL-Library.Word" "HOL-Library.Char_ord" "HOL-Library.List_Lexorder"
    "HOL-Library.Product_Lexorder"
begin

text \<open>
  What every component shares: the collections of facts the proofs use, Go's 64-bit signed
  integers and the lexicographic order of byte strings, which is the order SQLite's BINARY
  collation gives TEXT columns (both come from the library's order on lists of characters).
  Go's \<open>int\<close> and \<open>int64\<close> are 64 bits wide; they are modelled as \<open>int\<close>, with \<open>wrap64\<close> written
  at each operation of the source whose result can leave the range.
\<close>

named_theorems io_simps \<open>unfolding rules of the store monad\<close>
named_theorems db_frame \<open>what an operation leaves alone\<close>
named_theorems wf_intros \<open>preservation of the store's well-formedness\<close>

section \<open>Signed 64-bit integers\<close>

definition wrap64 :: "int \<Rightarrow> int" where
  "wrap64 x = sint (word_of_int x :: 64 word)"

definition in_int64 :: "int \<Rightarrow> bool" where
  "in_int64 x \<longleftrightarrow> - 9223372036854775808 \<le> x \<and> x \<le> 9223372036854775807"

lemma wrap64_mod: "wrap64 x = (x + 2 ^ 63) mod 2 ^ 64 - 2 ^ 63"
  by (simp add: wrap64_def sint_sbintrunc' signed_take_bit_eq_take_bit_shift take_bit_eq_mod)

lemma wrap64_id [simp]: "in_int64 x \<Longrightarrow> wrap64 x = x"
  by (simp add: wrap64_mod in_int64_def)

lemma wrap64_in_int64 [simp]: "in_int64 (wrap64 x)"
proof -
  have "0 \<le> (x + 2 ^ 63) mod 2 ^ 64" "(x + 2 ^ 63) mod 2 ^ 64 < 2 ^ 64"
    by simp_all
  then show ?thesis by (simp add: wrap64_mod in_int64_def)
qed

section \<open>The order of byte strings\<close>

lemma lex_append_less:
  fixes xs ys :: "'a::linorder list"
  assumes "length xs = length ys" and "xs < ys"
  shows "xs @ us < ys @ vs"
  using assms by (induction xs ys rule: list_induct2) auto

lemma lex_append_same [simp]:
  fixes xs us vs :: "'a::linorder list"
  shows "xs @ us < xs @ vs \<longleftrightarrow> us < vs" and "xs @ us \<le> xs @ vs \<longleftrightarrow> us \<le> vs"
  by (induction xs) auto

lemma char_of_less:
  assumes "m < n" and "n < 256"
  shows "(char_of m :: char) < char_of (n :: nat)"
  using assms by (simp add: less_char_def)

section \<open>Sums as results\<close>

fun map_ok :: "('a \<Rightarrow> 'b) \<Rightarrow> 'e + 'a \<Rightarrow> 'e + 'b" where
  "map_ok f (Inl e) = Inl e"
| "map_ok f (Inr x) = Inr (f x)"

fun bind_ok :: "'e + 'a \<Rightarrow> ('a \<Rightarrow> 'e + 'b) \<Rightarrow> 'e + 'b" where
  "bind_ok (Inl e) f = Inl e"
| "bind_ok (Inr x) f = f x"

lemma bind_ok_Inr: "bind_ok r f = Inr y \<longleftrightarrow> (\<exists>x. r = Inr x \<and> f x = Inr y)"
  by (cases r) auto

text \<open>A sequence of early returns: the error of the first guard that fires.\<close>

fun firstErr :: "(bool \<times> 'e) list \<Rightarrow> 'e + unit" where
  "firstErr [] = Inr ()"
| "firstErr ((b, e) # gs) = (if b then Inl e else firstErr gs)"

lemma firstErr_Inr: "firstErr gs = Inr u \<longleftrightarrow> (\<forall>(b, e)\<in>set gs. \<not> b)"
  by (induction gs rule: firstErr.induct) auto

lemma firstErr_Inl_in: "firstErr gs = Inl e \<Longrightarrow> (True, e) \<in> set gs"
  by (induction gs rule: firstErr.induct) (auto split: if_splits)

text \<open>Decoding a result set row by row, as the loops over \<open>rows.Next\<close> do: the first row that
  cannot be decoded ends the loop with its error.\<close>

fun map_res :: "('a \<Rightarrow> 'e + 'b) \<Rightarrow> 'a list \<Rightarrow> 'e + 'b list" where
  "map_res f [] = Inr []"
| "map_res f (x # xs) = bind_ok (f x) (\<lambda>y. map_ok ((#) y) (map_res f xs))"

lemma map_res_map: "(\<And>x. x \<in> set xs \<Longrightarrow> f (g x) = Inr x) \<Longrightarrow> map_res f (map g xs) = Inr xs"
  by (induction xs) auto

lemma map_ok_Inr [simp]: "map_ok f r = Inr y \<longleftrightarrow> (\<exists>x. r = Inr x \<and> y = f x)"
  by (cases r) auto

lemma map_res_Inr_list_all2:
  "map_res f xs = Inr ys \<Longrightarrow> list_all2 (\<lambda>x y. f x = Inr y) xs ys"
  by (induction xs arbitrary: ys) (auto simp: bind_ok_Inr)

lemma map_res_Inr_set:
  "map_res f xs = Inr ys \<Longrightarrow> y \<in> set ys \<Longrightarrow> \<exists>x\<in>set xs. f x = Inr y"
  by (induction xs arbitrary: ys) (auto simp: bind_ok_Inr)

lemma map_res_Inr_length: "map_res f xs = Inr ys \<Longrightarrow> length ys = length xs"
  by (drule map_res_Inr_list_all2) (simp add: list_all2_lengthD)

end
