(* ===== verification/Go_Strings.thy ===== *)
theory Go_Strings
  imports Prelude
begin

text \<open>
  The parts of Go's packages \<open>strings\<close> and \<open>strconv\<close> the program uses. A Go string is a sequence
  of bytes, here a list of characters. White space and letter case are those of ASCII: the
  Unicode cases of \<open>TrimSpace\<close>, \<open>ToLower\<close> and \<open>EqualFold\<close> are left out.
\<close>

section \<open>Package strings\<close>

definition hasPrefix :: "string \<Rightarrow> string \<Rightarrow> bool" where
  "hasPrefix s p \<longleftrightarrow> take (length p) s = p"

definition hasSuffix :: "string \<Rightarrow> string \<Rightarrow> bool" where
  "hasSuffix s p \<longleftrightarrow> hasPrefix (rev s) (rev p)"

definition trimPrefix :: "string \<Rightarrow> string \<Rightarrow> string" where
  "trimPrefix s p = (if hasPrefix s p then drop (length p) s else s)"

definition trimSuffix :: "string \<Rightarrow> string \<Rightarrow> string" where
  "trimSuffix s p = (if hasSuffix s p then take (length s - length p) s else s)"

definition isSpace :: "char \<Rightarrow> bool" where
  "isSpace c \<longleftrightarrow> of_char c = (32::nat) \<or> (9 \<le> (of_char c :: nat) \<and> (of_char c :: nat) \<le> 13)"

definition trimSpace :: "string \<Rightarrow> string" where
  "trimSpace s = rev (dropWhile isSpace (rev (dropWhile isSpace s)))"

definition trimRight :: "string \<Rightarrow> char \<Rightarrow> string" where
  "trimRight s c = rev (dropWhile (\<lambda>x. x = c) (rev s))"

definition lowerChar :: "char \<Rightarrow> char" where
  "lowerChar c = (let n = (of_char c :: nat) in if 65 \<le> n \<and> n \<le> 90 then char_of (n + 32) else c)"

definition toLower :: "string \<Rightarrow> string" where
  "toLower s = map lowerChar s"

definition equalFold :: "string \<Rightarrow> string \<Rightarrow> bool" where
  "equalFold a b \<longleftrightarrow> toLower a = toLower b"

fun containsStr :: "string \<Rightarrow> string \<Rightarrow> bool" where
  "containsStr [] sub = (sub = [])"
| "containsStr (c # s) sub = (hasPrefix (c # s) sub \<or> containsStr s sub)"

fun indexChar :: "char \<Rightarrow> string \<Rightarrow> nat option" where
  "indexChar c [] = None"
| "indexChar c (x # xs) = (if x = c then Some 0 else map_option Suc (indexChar c xs))"

fun lastIndexChar :: "char \<Rightarrow> string \<Rightarrow> nat option" where
  "lastIndexChar c [] = None"
| "lastIndexChar c (x # xs) =
     (case lastIndexChar c xs of Some i \<Rightarrow> Some (Suc i) | None \<Rightarrow> if x = c then Some 0 else None)"

fun splitChar :: "char \<Rightarrow> string \<Rightarrow> string list" where
  "splitChar c [] = [[]]"
| "splitChar c (x # xs) =
     (if x = c then [] # splitChar c xs
      else case splitChar c xs of [] \<Rightarrow> [[x]] | w # ws \<Rightarrow> (x # w) # ws)"

lemma hasPrefix_append [simp]: "hasPrefix (p @ s) p"
  by (simp add: hasPrefix_def)

lemma hasPrefix_iff: "hasPrefix s p \<longleftrightarrow> (\<exists>t. s = p @ t)"
  by (auto simp: hasPrefix_def) (metis append_take_drop_id)

lemma hasPrefix_trans: "hasPrefix s p \<Longrightarrow> hasPrefix p q \<Longrightarrow> hasPrefix s q"
  by (auto simp: hasPrefix_iff)

lemma containsStr_iff: "containsStr s sub \<longleftrightarrow> (\<exists>u v. s = u @ sub @ v)"
proof (induction s)
  case Nil
  then show ?case by simp
next
  case (Cons c s)
  show ?case
  proof
    assume "containsStr (c # s) sub"
    then consider t where "c # s = sub @ t" | u v where "s = u @ sub @ v"
      using Cons.IH by (auto simp: hasPrefix_iff)
    then show "\<exists>u v. c # s = u @ sub @ v"
    proof cases
      case 1
      then show ?thesis by (metis append_Nil)
    next
      case 2
      then have "c # s = (c # u) @ sub @ v" by simp
      then show ?thesis by blast
    qed
  next
    assume "\<exists>u v. c # s = u @ sub @ v"
    then obtain u v where uv: "c # s = u @ sub @ v" by blast
    show "containsStr (c # s) sub"
    proof (cases u)
      case Nil
      with uv have "hasPrefix (c # s) sub" by (simp add: hasPrefix_iff)
      then show ?thesis by simp
    next
      case (Cons _ u')
      with uv have "s = u' @ sub @ v" by simp
      with Cons.IH show ?thesis by auto
    qed
  qed
qed

lemma splitChar_ne [simp]: "splitChar c s \<noteq> []"
  by (induction s) (auto split: list.split)

lemma trimSpace_Nil [simp]: "trimSpace [] = []"
  by (simp add: trimSpace_def)

lemma lastIndexChar_Some:
  "lastIndexChar c s = Some i \<Longrightarrow> i < length s \<and> s ! i = c \<and> c \<notin> set (drop (Suc i) s)"
proof (induction s arbitrary: i)
  case (Cons x xs)
  have none: "lastIndexChar c ys = None \<longleftrightarrow> c \<notin> set ys" for ys
    by (induction ys) (auto split: option.splits)
  from Cons show ?case
    by (auto simp: none split: option.splits if_splits)
qed simp

lemma lastIndexChar_None: "lastIndexChar c s = None \<longleftrightarrow> c \<notin> set s"
  by (induction s) (auto split: option.splits)

section \<open>Package strconv: decimal integers\<close>

definition digitChar :: "nat \<Rightarrow> char" where
  "digitChar d = char_of (48 + d)"

definition isDigit :: "char \<Rightarrow> bool" where
  "isDigit c \<longleftrightarrow> 48 \<le> (of_char c :: nat) \<and> (of_char c :: nat) \<le> 57"

definition digitVal :: "char \<Rightarrow> nat" where
  "digitVal c = of_char c - 48"

fun natDigits :: "nat \<Rightarrow> string" where
  "natDigits n = (if n < 10 then [digitChar n] else natDigits (n div 10) @ [digitChar (n mod 10)])"

declare natDigits.simps [simp del]

definition itoa :: "int \<Rightarrow> string" where
  "itoa n = (if n < 0 then CHR ''-'' # natDigits (nat (- n)) else natDigits (nat n))"

definition digitsVal :: "string \<Rightarrow> nat" where
  "digitsVal s = foldl (\<lambda>a c. 10 * a + digitVal c) 0 s"

definition parseUint :: "string \<Rightarrow> nat option" where
  "parseUint s = (if s \<noteq> [] \<and> list_all isDigit s then Some (digitsVal s) else None)"

text \<open>\<open>strconv.ParseInt(s, 10, 64)\<close> and \<open>strconv.Atoi\<close> (an int is 64 bits wide): one optional
  sign, at least one digit, nothing else, and a value in range; both errors are \<open>None\<close>.\<close>

definition parseInt64 :: "string \<Rightarrow> int option" where
  "parseInt64 s =
     (let (neg, ds) = (case s of [] \<Rightarrow> (False, [])
                       | c # r \<Rightarrow> if c = CHR ''-'' then (True, r)
                                else if c = CHR ''+'' then (False, r) else (False, s))
      in case parseUint ds of None \<Rightarrow> None
         | Some n \<Rightarrow> (let v = (if neg then - int n else int n) in if in_int64 v then Some v else None))"

lemma of_char_digitChar [simp]: "d < 10 \<Longrightarrow> (of_char (digitChar d) :: nat) = 48 + d"
  by (simp add: digitChar_def)

lemma isDigit_digitChar [simp]: "d < 10 \<Longrightarrow> isDigit (digitChar d)"
  by (simp add: isDigit_def)

lemma digitVal_digitChar [simp]: "d < 10 \<Longrightarrow> digitVal (digitChar d) = d"
  by (simp add: digitVal_def)

lemma digitChar_neq [simp]:
  "d < 10 \<Longrightarrow> digitChar d \<noteq> CHR ''-''" "d < 10 \<Longrightarrow> digitChar d \<noteq> CHR ''+''"
  "d < 10 \<Longrightarrow> digitChar d \<noteq> CHR ''.''" "d < 10 \<Longrightarrow> digitChar d \<noteq> CHR ''Z''"
  by (auto dest!: arg_cong [where f = "of_char :: char \<Rightarrow> nat"])

lemma digitChar_less: "d < e \<Longrightarrow> e < 10 \<Longrightarrow> digitChar d < digitChar e"
  by (simp add: digitChar_def char_of_less)

lemma digitChar_inj: "d < 10 \<Longrightarrow> e < 10 \<Longrightarrow> digitChar d = digitChar e \<longleftrightarrow> d = e"
  by (metis digitVal_digitChar)

lemma natDigits_ne [simp]: "natDigits n \<noteq> []"
  by (subst natDigits.simps) simp

lemma natDigits_isDigit [simp]: "list_all isDigit (natDigits n)"
proof (induction n rule: natDigits.induct)
  case (1 n)
  then show ?case by (subst natDigits.simps) simp
qed

lemma digitsVal_snoc [simp]: "digitsVal (s @ [c]) = 10 * digitsVal s + digitVal c"
  by (simp add: digitsVal_def)

lemma digitsVal_single [simp]: "digitsVal [c] = digitVal c"
  by (simp add: digitsVal_def)

lemma digitsVal_natDigits [simp]: "digitsVal (natDigits n) = n"
proof (induction n rule: natDigits.induct)
  case (1 n)
  then show ?case by (subst natDigits.simps) simp
qed

lemma natDigits_hd: "\<exists>d<10. \<exists>r. natDigits n = digitChar d # r"
proof (induction n rule: natDigits.induct)
  case (1 n)
  then show ?case
    by (cases "n < 10") (subst natDigits.simps, fastforce)+
qed

lemma parseInt64_itoa: "in_int64 n \<Longrightarrow> parseInt64 (itoa n) = Some n"
proof -
  assume r: "in_int64 n"
  obtain d r' where d: "d < 10" "natDigits (nat n) = digitChar d # r'"
    using natDigits_hd by blast
  show ?thesis
  proof (cases "n < 0")
    case True
    with r show ?thesis by (simp add: itoa_def parseInt64_def parseUint_def)
  next
    case False
    have "parseUint (digitChar d # r') = Some (nat n)"
      by (simp add: parseUint_def flip: d(2))
    with False r d show ?thesis
      by (simp add: itoa_def parseInt64_def)
  qed
qed

section \<open>Quoting\<close>

definition hexDigit :: "nat \<Rightarrow> char" where
  "hexDigit d = (if d < 10 then char_of (48 + d) else char_of (87 + d))"

definition quoteChar :: "char \<Rightarrow> string" where
  "quoteChar c =
     (let n = (of_char c :: nat); bs = char_of (92::nat)
      in if n = 34 \<or> n = 92 then [bs, c]
         else if n = 7 then [bs, CHR ''a''] else if n = 8 then [bs, CHR ''b'']
         else if n = 9 then [bs, CHR ''t''] else if n = 10 then [bs, CHR ''n'']
         else if n = 11 then [bs, CHR ''v''] else if n = 12 then [bs, CHR ''f'']
         else if n = 13 then [bs, CHR ''r'']
         else if n < 32 \<or> n = 127 then [bs, CHR ''x'', hexDigit (n div 16), hexDigit (n mod 16)]
         else [c])"

text \<open>The verb \<open>%q\<close>; bytes from 128 on are kept, as Go keeps printable UTF-8.\<close>

definition quoteStr :: "string \<Rightarrow> string" where
  "quoteStr s = (let q = char_of (34::nat) in q # concat (map quoteChar s) @ [q])"

end
