(* ===== verification/Go_Time.thy ===== *)
theory Go_Time
  imports Go_Strings
begin

text \<open>
  Go's \<open>time.Time\<close> as the program uses it: an instant, the number of nanoseconds since the zero
  time 0001-01-01T00:00:00Z, so that \<open>IsZero\<close> is equality with 0. Every time the program stores
  or compares is in UTC. \<open>time.Duration\<close> is a signed 64-bit number of nanoseconds.
  The text form is that of \<open>time.RFC3339Nano\<close>, the one \<open>encodeTime\<close> of \<open>internal/store/db.go\<close>
  writes, with its trailing zeros dropped: it keeps the instant (\<open>decodeTime_encodeTime\<close>), and
  the order of the text is the order of the instants only up to the second.
\<close>

type_synonym time = int
type_synonym duration = int

definition second :: int where "second = 1000000000"
definition dayNanos :: int where "dayNanos = 86400000000000"

text \<open>\<open>time.Duration(n) * time.Second\<close>: a 64-bit product.\<close>

definition secDuration :: "int \<Rightarrow> duration" where
  "secDuration n = wrap64 (n * second)"

text \<open>\<open>t.Add(d)\<close>, \<open>t.AddDate(0, 0, -n)\<close> and \<open>t.Sub(u)\<close>, which saturates.\<close>

definition timeAdd :: "time \<Rightarrow> duration \<Rightarrow> time" where
  "timeAdd t d = t + d"

definition minusDays :: "time \<Rightarrow> int \<Rightarrow> time" where
  "minusDays t n = t - n * dayNanos"

definition timeSub :: "time \<Rightarrow> time \<Rightarrow> duration" where
  "timeSub t u = max (- 9223372036854775808) (min 9223372036854775807 (t - u))"

lemma secDuration_small: "0 \<le> n \<Longrightarrow> n \<le> 9223372036 \<Longrightarrow> secDuration n = n * 1000000000"
  by (simp add: secDuration_def second_def in_int64_def)

section \<open>The civil calendar\<close>

definition isLeap :: "int \<Rightarrow> bool" where
  "isLeap y \<longleftrightarrow> y mod 4 = 0 \<and> (y mod 100 \<noteq> 0 \<or> y mod 400 = 0)"

text \<open>The day of the year a month starts on, in a common year and in a leap year.\<close>

definition monthStart :: "bool \<Rightarrow> int \<Rightarrow> int" where
  "monthStart leap m =
     (if m \<le> 1 then 0 else if m = 2 then 31
      else (if m = 3 then 59 else if m = 4 then 90 else if m = 5 then 120 else if m = 6 then 151
            else if m = 7 then 181 else if m = 8 then 212 else if m = 9 then 243
            else if m = 10 then 273 else if m = 11 then 304 else if m = 12 then 334 else 365)
           + (if leap then 1 else 0))"

definition daysIn :: "bool \<Rightarrow> int \<Rightarrow> int" where
  "daysIn leap m = monthStart leap (m + 1) - monthStart leap m"

text \<open>Days since 0001-01-01, and the civil date of such a day.\<close>

definition yearStart :: "int \<Rightarrow> int" where
  "yearStart y = 365 * (y - 1) + (y - 1) div 4 - (y - 1) div 100 + (y - 1) div 400"

definition daysOfCivil :: "int \<Rightarrow> int \<Rightarrow> int \<Rightarrow> int" where
  "daysOfCivil y m d = yearStart y + monthStart (isLeap y) m + d - 1"

definition yearOfDays :: "int \<Rightarrow> int \<times> int" where
  "yearOfDays n =
     (let a = n div 146097; r = n mod 146097;
          b = min 3 (r div 36524); r = r - 36524 * b;
          c = r div 1461; r = r mod 1461;
          e = min 3 (r div 365)
      in (400 * a + 100 * b + 4 * c + e + 1, r - 365 * e))"

definition monthOfYday :: "bool \<Rightarrow> int \<Rightarrow> int" where
  "monthOfYday leap yd =
     (if yd < monthStart leap 2 then 1 else if yd < monthStart leap 3 then 2
      else if yd < monthStart leap 4 then 3 else if yd < monthStart leap 5 then 4
      else if yd < monthStart leap 6 then 5 else if yd < monthStart leap 7 then 6
      else if yd < monthStart leap 8 then 7 else if yd < monthStart leap 9 then 8
      else if yd < monthStart leap 10 then 9 else if yd < monthStart leap 11 then 10
      else if yd < monthStart leap 12 then 11 else 12)"

definition civilOfDays :: "int \<Rightarrow> int \<times> int \<times> int" where
  "civilOfDays n =
     (let (y, yd) = yearOfDays n; m = monthOfYday (isLeap y) yd
      in (y, m, yd - monthStart (isLeap y) m + 1))"

lemma yearOfDays_props:
  assumes "yearOfDays n = (y, yd)"
  shows "n = yearStart y + yd" and "0 \<le> yd" and "yd < (if isLeap y then 366 else 365)"
proof -
  define a where "a = n div 146097"
  define r1 where "r1 = n mod 146097"
  define b where "b = min 3 (r1 div 36524)"
  define r2 where "r2 = r1 - 36524 * b"
  define c where "c = r2 div 1461"
  define r3 where "r3 = r2 mod 1461"
  define e where "e = min 3 (r3 div 365)"
  have y: "y = 400 * a + 100 * b + 4 * c + e + 1" and yd: "yd = r3 - 365 * e"
    using assms unfolding yearOfDays_def Let_def a_def r1_def b_def r2_def c_def r3_def e_def
    by auto
  have n: "n = 146097 * a + r1" and r1: "0 \<le> r1" "r1 < 146097"
    unfolding a_def r1_def by simp_all
  have b: "0 \<le> b" "b \<le> 3" "0 \<le> r2" "r2 < 36524 \<or> b = 3 \<and> r2 < 36525"
    using r1 unfolding b_def r2_def by linarith+
  have c: "0 \<le> c" "c \<le> 24" "r2 = 1461 * c + r3" "0 \<le> r3" "r3 < 1461"
    using b unfolding c_def r3_def by (linarith, linarith, simp_all)
  have e: "0 \<le> e" "e \<le> 3" "0 \<le> yd" "yd < 365 \<or> e = 3 \<and> yd < 366"
    using c unfolding e_def yd by linarith+
  have d4: "(y - 1) div 4 = 100 * a + 25 * b + c" and d100: "(y - 1) div 100 = 4 * a + b"
    and d400: "(y - 1) div 400 = a"
    using b c e unfolding y by linarith+
  show "n = yearStart y + yd"
    unfolding yearStart_def d4 d100 d400 using n c(3) yd by (simp add: r2_def y algebra_simps)
  show "0 \<le> yd" by (rule e)
  have "isLeap y" if "yd = 365"
  proof -
    have e3: "e = 3" and r3: "r3 = 1460" using that e yd c(5) by linarith+
    have "c \<noteq> 24 \<or> b = 3" using b(4) c(3) r3 by linarith
    have m4: "y mod 4 = 0" unfolding y e3 by presburger
    have "y mod 100 \<noteq> 0 \<or> y mod 400 = 0"
    proof (cases "c = 24")
      case True
      with \<open>c \<noteq> 24 \<or> b = 3\<close> have "y = 400 * (a + 1)" unfolding y e3 by simp
      then show ?thesis by simp
    next
      case False
      with c have "c \<le> 23" by linarith
      have "y mod 100 = 4 * c + 4"
        by (rule int_mod_pos_eq [where q = "4 * a + b"]) (use \<open>c \<le> 23\<close> c(1) in \<open>simp_all add: y e3\<close>)
      with c(1) show ?thesis by linarith
    qed
    with m4 show ?thesis by (simp add: isLeap_def)
  qed
  with e show "yd < (if isLeap y then 366 else 365)" by fastforce
qed

lemma monthOfYday_props:
  assumes "0 \<le> yd" and "yd < (if leap then 366 else 365)"
  defines "m \<equiv> monthOfYday leap yd"
  shows "1 \<le> m" and "m \<le> 12" and "monthStart leap m \<le> yd" and "yd < monthStart leap (m + 1)"
proof -
  have "1 \<le> m \<and> m \<le> 12 \<and> monthStart leap m \<le> yd \<and> yd < monthStart leap (m + 1)"
    using assms by (cases leap) (simp_all add: m_def monthOfYday_def monthStart_def)
  then show "1 \<le> m" "m \<le> 12" "monthStart leap m \<le> yd" "yd < monthStart leap (m + 1)"
    by blast+
qed

lemma civilOfDays_props:
  assumes "civilOfDays n = (y, m, d)"
  shows "daysOfCivil y m d = n" and "1 \<le> m" and "m \<le> 12" and "1 \<le> d"
    and "d \<le> daysIn (isLeap y) m"
proof -
  obtain y' yd where yy: "yearOfDays n = (y', yd)" by force
  note yp = yearOfDays_props [OF yy]
  note mp = monthOfYday_props [OF yp(2,3)]
  have [simp]: "y' = y" and md: "m = monthOfYday (isLeap y) yd"
    and d: "d = yd - monthStart (isLeap y) m + 1"
    using assms by (auto simp: civilOfDays_def yy Let_def)
  show "daysOfCivil y m d = n" "1 \<le> m" "m \<le> 12" "1 \<le> d" "d \<le> daysIn (isLeap y) m"
    using yp(1) mp by (simp_all add: daysOfCivil_def daysIn_def md d)
qed

section \<open>Order of civil dates\<close>

lemma yearStart_Suc: "yearStart (y + 1) = yearStart y + (if isLeap y then 366 else 365)"
proof -
  have div_pred: "y div k = (y - 1) div k + (if y mod k = 0 then 1 else 0)" if "1 < k" for k :: int
  proof -
    define q r where "q = y div k" and "r = y mod k"
    have y: "y = k * q + r" and r: "0 \<le> r" "r < k"
      using that by (simp_all add: q_def r_def)
    have "(y - 1) div k = (if r = 0 then q - 1 else q)"
    proof (cases "r = 0")
      case True
      then have "(y - 1) div k = q - 1"
        by (intro int_div_pos_eq [where r = "k - 1"]) (use that in \<open>simp_all add: y algebra_simps\<close>)
      with True show ?thesis by simp
    next
      case False
      then have "(y - 1) div k = q"
        by (intro int_div_pos_eq [where r = "r - 1"]) (use r in \<open>simp_all add: y\<close>)
      with False show ?thesis by simp
    qed
    then show ?thesis by (simp flip: q_def r_def)
  qed
  have "y mod 100 = 0" if "y mod 400 = 0"
    using dvd_trans [of 100 400 y] that by (simp add: dvd_eq_mod_eq_0)
  moreover have "y mod 4 = 0" if "y mod 100 = 0"
    using dvd_trans [of 4 100 y] that by (simp add: dvd_eq_mod_eq_0)
  ultimately have "(y mod 400 = 0 \<longrightarrow> y mod 100 = 0) \<and> (y mod 100 = 0 \<longrightarrow> y mod 4 = 0)" by blast
  then have leap: "(if isLeap y then 366 else 365 :: int) =
      365 + (if y mod 4 = 0 then 1 else 0) - (if y mod 100 = 0 then 1 else 0)
          + (if y mod 400 = 0 then 1 else 0)"
    unfolding isLeap_def by (cases "y mod 4 = 0"; cases "y mod 100 = 0"; cases "y mod 400 = 0") simp_all
  have assoc: "365 * y + (a + p) - (b + q) + (c + r) = 365 * (y - 1) + a - b + c + (365 + p - q + r)"
    for a b c p q r :: int by simp
  have "yearStart (y + 1) = 365 * y + y div 4 - y div 100 + y div 400"
    by (simp add: yearStart_def)
  also have "\<dots> = yearStart y + (365 + (if y mod 4 = 0 then 1 else 0)
      - (if y mod 100 = 0 then 1 else 0) + (if y mod 400 = 0 then 1 else 0))"
    unfolding yearStart_def div_pred [of 4, simplified] div_pred [of 100, simplified]
      div_pred [of 400, simplified] by (rule assoc)
  finally show ?thesis unfolding leap .
qed

lemma yearStart_mono: "y \<le> z \<Longrightarrow> yearStart y \<le> yearStart z"
proof (induction z rule: int_ge_induct)
  case (step z)
  then show ?case by (simp add: yearStart_Suc split: if_splits)
qed simp

lemma monthStart_mono: "j \<le> k \<Longrightarrow> monthStart l j \<le> monthStart l k"
proof (induction k rule: int_ge_induct)
  case (step k)
  have "monthStart l k \<le> monthStart l (k + 1)" by (simp add: monthStart_def)
  with step show ?case by simp
qed simp

lemma monthStart_bound: "1 \<le> m \<Longrightarrow> m \<le> 12 \<Longrightarrow> monthStart l (m + 1) \<le> (if l then 366 else 365)"
  unfolding monthStart_def by auto

lemma monthStart_nonneg: "0 \<le> monthStart l m"
  unfolding monthStart_def by auto

text \<open>A civil date that comes first is an earlier day.\<close>

lemma daysOfCivil_less:
  assumes "1 \<le> m" "m \<le> 12" "d \<le> daysIn (isLeap y) m" "1 \<le> m'" "m' \<le> 12" "1 \<le> d'"
    and "(y, m, d) < (y', m', d')"
  shows "daysOfCivil y m d < daysOfCivil y' m' d'"
proof -
  have top: "monthStart (isLeap y) m + d \<le> monthStart (isLeap y) (m + 1)"
    using assms(3) by (simp add: daysIn_def)
  from assms(7) consider "y < y'" | "y = y'" "m < m'" | "y = y'" "m = m'" "d < d'"
    by (auto simp: less_prod_def')
  then show ?thesis
  proof cases
    case 1
    then have "yearStart (y + 1) \<le> yearStart y'" by (intro yearStart_mono) simp
    with top monthStart_bound [OF assms(1,2), of "isLeap y"]
      monthStart_nonneg [of "isLeap y'" m'] assms(6)
    show ?thesis by (simp add: daysOfCivil_def yearStart_Suc split: if_splits)
  next
    case 2
    with top monthStart_mono [of "m + 1" m' "isLeap y"] assms show ?thesis
      by (simp add: daysOfCivil_def)
  next
    case 3
    then show ?thesis by (simp add: daysOfCivil_def)
  qed
qed

lemma civilOfDays_mono:
  assumes "n < k" shows "civilOfDays n < civilOfDays k"
proof (rule ccontr)
  obtain y m d y' m' d' where c: "civilOfDays n = (y, m, d)" "civilOfDays k = (y', m', d')"
    by (metis prod_cases3)
  note p = civilOfDays_props [OF c(1)] and q = civilOfDays_props [OF c(2)]
  assume "\<not> civilOfDays n < civilOfDays k"
  then consider "(y', m', d') < (y, m, d)" | "(y', m', d') = (y, m, d)"
    unfolding c by fastforce
  then show False
  proof cases
    case 1
    from daysOfCivil_less [OF q(2,3,5) p(2,3,4) 1] p(1) q(1) assms show False by simp
  next
    case 2
    with p(1) q(1) assms show False by simp
  qed
qed

end
