(* ===== verification/Time_Format.thy ===== *)
theory Time_Format
  imports Go_Time
begin

text \<open>
  The layout \<open>time.RFC3339Nano\<close>, \<open>2006-01-02T15:04:05.999999999Z07:00\<close>: how Go prints an instant
  in UTC with it and how it parses a text. The parser is Go's \<open>parseRFC3339\<close>, the path \<open>time.Parse\<close>
  takes for this layout; the laxer general parser behind it (a comma before the fraction, a
  one-digit hour) is left out.
\<close>

section \<open>Fixed-width decimal fields\<close>

fun padDigits :: "nat \<Rightarrow> nat \<Rightarrow> string" where
  "padDigits 0 n = []"
| "padDigits (Suc k) n = padDigits k (n div 10) @ [digitChar (n mod 10)]"

lemma length_padDigits [simp]: "length (padDigits k n) = k"
  by (induction k arbitrary: n) auto

lemma padDigits_isDigit [simp]: "list_all isDigit (padDigits k n)"
  by (induction k arbitrary: n) auto

lemma digitsVal_padDigits [simp]: "n < 10 ^ k \<Longrightarrow> digitsVal (padDigits k n) = n"
  by (induction k arbitrary: n) (auto simp: digitsVal_def [of "[]"])

lemma padDigits_less: "n < m \<Longrightarrow> m < 10 ^ k \<Longrightarrow> padDigits k n < padDigits k m"
proof (induction k arbitrary: n m)
  case (Suc k)
  have dm: "m div 10 < 10 ^ k" using Suc.prems by simp
  show ?case
  proof (cases "n div 10 = m div 10")
    case True
    with Suc.prems(1) have "n mod 10 < m mod 10"
      by (metis div_mult_mod_eq nat_add_left_cancel_less)
    with True show ?thesis by (simp add: digitChar_less)
  next
    case False
    with Suc.prems have "n div 10 < m div 10"
      by (meson div_le_mono le_neq_implies_less less_imp_le)
    with Suc.IH dm show ?thesis by (simp add: lex_append_less)
  qed
qed simp

definition padInt :: "nat \<Rightarrow> int \<Rightarrow> string" where
  "padInt k n = padDigits k (nat n)"

lemma length_padInt [simp]: "length (padInt k n) = k"
  by (simp add: padInt_def)

lemma padInt_less: "0 \<le> n \<Longrightarrow> n < m \<Longrightarrow> m < 10 ^ k \<Longrightarrow> padInt k n < padInt k m"
proof -
  assume "0 \<le> n" "n < m" "m < 10 ^ k"
  moreover from this have "nat m < 10 ^ k" by (metis nat_less_numeral_power_cancel_iff)
  ultimately show ?thesis unfolding padInt_def by (intro padDigits_less) auto
qed

section \<open>Printing\<close>

definition yearText :: "int \<Rightarrow> string" where
  "yearText y = (if y < 0 then CHR ''-'' # (if - y < 10000 then padInt 4 (- y) else natDigits (nat (- y)))
                 else if y < 10000 then padInt 4 y else natDigits (nat y))"

definition dateText :: "int \<Rightarrow> string" where
  "dateText n = (let (y, m, d) = civilOfDays n
                 in yearText y @ CHR ''-'' # padInt 2 m @ CHR ''-'' # padInt 2 d)"

definition clockText :: "int \<Rightarrow> string" where
  "clockText s = padInt 2 (s div 3600) @ CHR '':'' # padInt 2 (s div 60 mod 60)
                 @ CHR '':'' # padInt 2 (s mod 60)"

definition trimZeros :: "string \<Rightarrow> string" where
  "trimZeros s = trimRight s (CHR ''0'')"

definition fracText :: "int \<Rightarrow> string" where
  "fracText f = (if f = 0 then [] else CHR ''.'' # trimZeros (padInt 9 f))"

text \<open>The text of an instant up to its second, and the whole text.\<close>

definition secText :: "int \<Rightarrow> string" where
  "secText s = dateText (s div 86400) @ CHR ''T'' # clockText (s mod 86400)"

definition formatRFC3339Nano :: "time \<Rightarrow> string" where
  "formatRFC3339Nano t = secText (t div second) @ fracText (t mod second) @ ''Z''"

text \<open>The layout \<open>time.RFC3339\<close> of the scheduler's messages: no fraction.\<close>

definition formatRFC3339 :: "time \<Rightarrow> string" where
  "formatRFC3339 t = secText (t div second) @ ''Z''"

section \<open>Parsing\<close>

definition field :: "string \<Rightarrow> nat \<Rightarrow> nat \<Rightarrow> int \<Rightarrow> int \<Rightarrow> int option" where
  "field s i k lo hi =
     (case parseUint (take k (drop i s)) of
        None \<Rightarrow> None
      | Some n \<Rightarrow> if lo \<le> int n \<and> int n \<le> hi then Some (int n) else None)"

definition parseFrac :: "string \<Rightarrow> int \<times> string" where
  "parseFrac r =
     (case r of
        c # ds \<Rightarrow>
          (let w = takeWhile isDigit ds; w9 = take 9 w
           in if c = CHR ''.'' \<and> w \<noteq> []
              then (int (digitsVal w9 * 10 ^ (9 - length w9)), drop (length w) ds)
              else (0, r))
      | [] \<Rightarrow> (0, []))"

definition parseZone :: "string \<Rightarrow> int option" where
  "parseZone z =
     (if z = ''Z'' then Some 0
      else if length z = 6 \<and> (z ! 0 = CHR ''+'' \<or> z ! 0 = CHR ''-'') \<and> z ! 3 = CHR '':''
      then (case (field z 1 2 0 23, field z 4 2 0 59) of
              (Some h, Some m) \<Rightarrow>
                Some ((if z ! 0 = CHR ''-'' then - 1 else 1) * (h * 3600 + m * 60))
            | _ \<Rightarrow> None)
      else None)"

definition parseSeconds :: "string \<Rightarrow> char \<Rightarrow> int option" where
  "parseSeconds s sep =
     (if length s < 19 \<or> s ! 4 \<noteq> CHR ''-'' \<or> s ! 7 \<noteq> CHR ''-'' \<or> s ! 10 \<noteq> sep
         \<or> s ! 13 \<noteq> CHR '':'' \<or> s ! 16 \<noteq> CHR '':'' then None
      else case (field s 0 4 0 9999, field s 5 2 1 12) of
        (Some y, Some m) \<Rightarrow>
          (case (field s 8 2 1 (daysIn (isLeap y) m), field s 11 2 0 23, field s 14 2 0 59, field s 17 2 0 59) of
             (Some d, Some h, Some mi, Some sc) \<Rightarrow>
               Some (daysOfCivil y m d * 86400 + h * 3600 + mi * 60 + sc)
           | _ \<Rightarrow> None)
      | _ \<Rightarrow> None)"

definition parseRFC3339 :: "string \<Rightarrow> time option" where
  "parseRFC3339 s =
     (case parseSeconds s (CHR ''T'') of
        None \<Rightarrow> None
      | Some sec \<Rightarrow>
          (let (f, z) = parseFrac (drop 19 s)
           in case parseZone z of None \<Rightarrow> None | Some off \<Rightarrow> Some ((sec - off) * second + f)))"

text \<open>The layout \<open>2006-01-02 15:04:05\<close>, in UTC; Go also takes a fraction after the seconds.\<close>

definition parseDateTime :: "string \<Rightarrow> time option" where
  "parseDateTime s =
     (case parseSeconds s (CHR '' '') of
        None \<Rightarrow> None
      | Some sec \<Rightarrow> (let (f, r) = parseFrac (drop 19 s) in if r = [] then Some (sec * second + f) else None))"

section \<open>The printed text is parsed back\<close>

definition timeOk :: "time \<Rightarrow> bool" where
  "timeOk t \<longleftrightarrow> 0 \<le> t \<and> t < 315537897600 * second"

lemma civil_year_range:
  assumes "civilOfDays n = (y, m, d)" and "0 \<le> n" and "n < 3652059"
  shows "1 \<le> y" and "y \<le> 9999"
proof -
  note p = civilOfDays_props [OF assms(1)]
  obtain y' yd where yy: "yearOfDays n = (y', yd)" by force
  then have y: "y' = y" using assms(1) by (auto simp: civilOfDays_def Let_def)
  note yp = yearOfDays_props [OF yy, unfolded y]
  show "1 \<le> y"
  proof (rule ccontr)
    assume "\<not> 1 \<le> y"
    then have "yearStart (y + 1) \<le> yearStart 1" by (intro yearStart_mono) simp
    moreover have "yearStart 1 = 0" by (simp add: yearStart_def)
    ultimately show False using yp assms(2) by (simp add: yearStart_Suc split: if_splits)
  qed
  show "y \<le> 9999"
  proof (rule ccontr)
    assume "\<not> y \<le> 9999"
    then have "yearStart 10000 \<le> yearStart y" by (intro yearStart_mono) simp
    moreover have "yearStart 10000 = 3652059" by (simp add: yearStart_def)
    ultimately show False using yp assms(3) by simp
  qed
qed

lemma civil_ranges:
  assumes "civilOfDays n = (y, m, d)" and "0 \<le> n" and "n < 3652059"
  shows "1 \<le> y" "y < 10000" "1 \<le> m" "m \<le> 12" "1 \<le> d" "d \<le> 31"
proof -
  note p = civilOfDays_props [OF assms(1)] and q = civil_year_range [OF assms]
  show "1 \<le> y" "y < 10000" "1 \<le> m" "m \<le> 12" "1 \<le> d" using p q by auto
  have "daysIn (isLeap y) m \<le> 31"
    using p(2,3) by (simp add: daysIn_def monthStart_def)
  with p(5) show "d \<le> 31" by simp
qed

lemma field_pad:
  assumes "drop i s = padInt k n @ r" and "0 < k" and "0 \<le> n" and "n < 10 ^ k"
    and "lo \<le> n" and "n \<le> hi"
  shows "field s i k lo hi = Some n"
proof -
  have "nat n < 10 ^ k" using assms(4) by (metis nat_less_numeral_power_cancel_iff)
  moreover have "padDigits k (nat n) \<noteq> []" using assms(2) by (metis length_padDigits less_numeral_extra(3) list.size(3))
  ultimately show ?thesis
    using assms by (simp add: field_def parseUint_def padInt_def)
qed

lemma parseSeconds_secText:
  assumes "0 \<le> s" and "s < 315537897600"
  shows "parseSeconds (secText s @ r) (CHR ''T'') = Some s" and "length (secText s) = 19"
proof -
  obtain y m d where c: "civilOfDays (s div 86400) = (y, m, d)" by (metis prod_cases3)
  have n: "0 \<le> s div 86400" "s div 86400 < 3652059" using assms by auto
  note p = civilOfDays_props [OF c] and rg = civil_ranges [OF c n]
  define k where "k = s mod 86400"
  define h mi sc where "h = k div 3600" and "mi = k div 60 mod 60" and "sc = k mod 60"
  have k: "0 \<le> k" "k < 86400" by (simp_all add: k_def)
  then have hms: "0 \<le> h" "h \<le> 23" "0 \<le> mi" "mi \<le> 59" "0 \<le> sc" "sc \<le> 59"
    unfolding h_def mi_def sc_def by auto
  have layout: "secText s = padInt 4 y @ CHR ''-'' # padInt 2 m @ CHR ''-'' # padInt 2 d @ CHR ''T''
       # padInt 2 h @ CHR '':'' # padInt 2 mi @ CHR '':'' # padInt 2 sc"
    using rg by (simp add: secText_def dateText_def yearText_def clockText_def c k_def h_def mi_def sc_def)
  show "length (secText s) = 19" by (simp add: layout)
  let ?s = "secText s @ r"
  have "field ?s 0 4 0 9999 = Some y"
    by (rule field_pad [where r = "drop 4 ?s"]) (use rg in \<open>simp_all add: layout\<close>)
  moreover have "field ?s 5 2 1 12 = Some m"
    by (rule field_pad [where r = "drop 7 ?s"]) (use rg in \<open>simp_all add: layout\<close>)
  moreover have "field ?s 8 2 1 (daysIn (isLeap y) m) = Some d"
    by (rule field_pad [where r = "drop 10 ?s"]) (use rg p(5) in \<open>simp_all add: layout\<close>)
  moreover have "field ?s 11 2 0 23 = Some h"
    by (rule field_pad [where r = "drop 13 ?s"]) (use hms in \<open>simp_all add: layout\<close>)
  moreover have "field ?s 14 2 0 59 = Some mi"
    by (rule field_pad [where r = "drop 16 ?s"]) (use hms in \<open>simp_all add: layout\<close>)
  moreover have "field ?s 17 2 0 59 = Some sc"
    by (rule field_pad [where r = "drop 19 ?s"]) (use hms in \<open>simp_all add: layout\<close>)
  moreover have "\<not> length ?s < 19" "?s ! 4 = CHR ''-''" "?s ! 7 = CHR ''-''" "?s ! 10 = CHR ''T''"
    "?s ! 13 = CHR '':''" "?s ! 16 = CHR '':''"
    by (simp_all add: layout nth_append)
  moreover have "s div 86400 * 86400 + h * 3600 + mi * 60 + sc = s"
  proof -
    have "h = k div 60 div 60" by (simp add: h_def flip: zdiv_zmult2_eq)
    then have "h * 60 + mi = k div 60" by (simp add: mi_def)
    then have "h * 3600 + mi * 60 = k div 60 * 60" by simp
    moreover have "k div 60 * 60 + sc = k" "s div 86400 * 86400 + k = s"
      by (simp_all add: sc_def k_def)
    ultimately show ?thesis by linarith
  qed
  ultimately show "parseSeconds ?s (CHR ''T'') = Some s"
    using p(1) by (simp add: parseSeconds_def)
qed

lemma digitsVal_zeros: "digitsVal (xs @ replicate k (CHR ''0'')) = digitsVal xs * 10 ^ k"
proof (induction k)
  case (Suc k)
  have "xs @ replicate (Suc k) (CHR ''0'') = (xs @ replicate k (CHR ''0'')) @ [CHR ''0'']"
    by (simp add: replicate_append_same)
  then have "digitsVal (xs @ replicate (Suc k) (CHR ''0''))
      = 10 * digitsVal (xs @ replicate k (CHR ''0'')) + digitVal (CHR ''0'')"
    by (simp only: digitsVal_snoc)
  with Suc show ?case by (simp add: digitVal_def)
qed simp

lemma trimRight_split: "s = trimRight s c @ replicate (length s - length (trimRight s c)) c"
proof -
  define d where "d = takeWhile (\<lambda>x. x = c) (rev s)"
  have "d = replicate (length d) c" unfolding d_def
    by (metis (full_types) replicate_length_same set_takeWhileD)
  then have r: "rev d = replicate (length d) c" by (metis rev_replicate)
  have "rev s = d @ dropWhile (\<lambda>x. x = c) (rev s)" by (simp add: d_def)
  then have "s = trimRight s c @ rev d"
    unfolding trimRight_def by (metis rev_append rev_rev_ident)
  moreover from this have "length s - length (trimRight s c) = length d"
    by (metis add_diff_cancel_left' length_append length_rev)
  ultimately show ?thesis using r by simp
qed

lemma parseFrac_fracText:
  assumes "0 \<le> f" and "f < second"
  shows "parseFrac (fracText f @ ''Z'') = (f, ''Z'')"
proof (cases "f = 0")
  case True
  then show ?thesis by (simp add: fracText_def parseFrac_def)
next
  case False
  let ?p = "padDigits 9 (nat f)" let ?t = "trimZeros ?p" let ?k = "9 - length ?t"
  have split: "?p = ?t @ replicate ?k (CHR ''0'')"
    using trimRight_split [of ?p "CHR ''0''"] by (simp add: trimZeros_def)
  have v: "digitsVal ?t * 10 ^ ?k = nat f"
    using assms by (subst digitsVal_zeros [symmetric], subst split [symmetric]) (simp add: second_def)
  have len: "length ?t \<le> 9" using arg_cong [OF split, of length] by simp
  have dig: "list_all isDigit ?t"
    using padDigits_isDigit [of 9 "nat f"] by (subst (asm) split) simp
  have ne: "?t \<noteq> []" using v False assms by (auto simp: digitsVal_def)
  have tw: "takeWhile isDigit (?t @ ''Z'') = ?t"
    using dig by (subst takeWhile_append2) (auto simp: list_all_iff isDigit_def)
  show ?thesis using False assms(1) v len ne
    by (simp add: fracText_def parseFrac_def padInt_def tw Let_def)
qed

theorem parse_format_RFC3339Nano: "timeOk t \<Longrightarrow> parseRFC3339 (formatRFC3339Nano t) = Some t"
proof -
  assume "timeOk t"
  then have r: "0 \<le> t div second" "t div second < 315537897600" "0 \<le> t mod second" "t mod second < second"
    unfolding timeOk_def second_def by auto
  show ?thesis
    using parseSeconds_secText [OF r(1,2)] parseFrac_fracText [OF r(3,4)]
    by (simp add: parseRFC3339_def formatRFC3339Nano_def parseZone_def)
qed

section \<open>The order of the text\<close>

lemma fields_less:
  assumes "0 \<le> a" "a' < 10 ^ i" "0 \<le> b" "b' < 10 ^ j" "0 \<le> c" "c' < 10 ^ k"
    and "(a, b, c) < (a', b', c')"
  shows "padInt i a @ x # padInt j b @ y # padInt k c @ u < padInt i a' @ x # padInt j b' @ y # padInt k c' @ v"
proof -
  from assms(7) consider "a < a'" | "a = a'" "b < b'" | "a = a'" "b = b'" "c < c'"
    by (auto simp: less_prod_def')
  then show ?thesis
  proof cases
    case 1
    with assms show ?thesis by (intro lex_append_less padInt_less) auto
  next
    case 2
    with assms have "padInt j b @ y # padInt k c @ u < padInt j b' @ y # padInt k c' @ v"
      by (intro lex_append_less padInt_less) auto
    with 2 show ?thesis by simp
  next
    case 3
    with assms have "padInt k c @ u < padInt k c' @ v"
      by (intro lex_append_less padInt_less) auto
    with 3 show ?thesis by simp
  qed
qed

lemma dateText_less:
  assumes "0 \<le> n" and "n < k" and "k < 3652059"
  shows "dateText n @ u < dateText k @ v"
proof -
  obtain y m d y' m' d' where c: "civilOfDays n = (y, m, d)" "civilOfDays k = (y', m', d')"
    by (metis prod_cases3)
  have "(y, m, d) < (y', m', d')" using civilOfDays_mono [OF assms(2)] c by simp
  then show ?thesis
    using civil_ranges [OF c(1)] civil_ranges [OF c(2)] assms
    by (simp add: dateText_def yearText_def c) (rule fields_less; simp)
qed

lemma clockText_less:
  assumes "0 \<le> s" and "s < r" and "r < 86400"
  shows "clockText s @ u < clockText r @ v"
proof -
  have "(s div 3600, s div 60 mod 60, s mod 60) < (r div 3600, r div 60 mod 60, r mod 60)"
  proof (cases "s div 3600 = r div 3600")
    case False
    moreover have "s div 3600 \<le> r div 3600" using assms(2) by (simp add: zdiv_mono1)
    ultimately show ?thesis by (simp add: less_prod_def')
  next
    case h: True
    show ?thesis
    proof (cases "s div 60 = r div 60")
      case True
      have "s = s div 60 * 60 + s mod 60" "r = r div 60 * 60 + r mod 60" by simp_all
      with True assms(2) have "s mod 60 < r mod 60" by linarith
      with h True show ?thesis by (simp add: less_prod_def')
    next
      case False
      moreover have "s div 60 \<le> r div 60" using assms(2) by (simp add: zdiv_mono1)
      ultimately have lt: "s div 60 < r div 60" by simp
      have "s div 60 div 60 = r div 60 div 60"
        using h by (simp add: zdiv_zmult2_eq [symmetric])
      with lt have "s div 60 mod 60 < r div 60 mod 60"
        by (metis div_mult_mod_eq add_less_cancel_left)
      with h show ?thesis by (simp add: less_prod_def')
    qed
  qed
  moreover have "r div 3600 < 100" "0 \<le> s div 3600" using assms by auto
  ultimately show ?thesis
    by (simp add: clockText_def) (rule fields_less; simp)
qed

lemma secText_less:
  assumes "0 \<le> s" and "s < r" and "r < 315537897600"
  shows "secText s @ u < secText r @ v"
proof (cases "s div 86400 = r div 86400")
  case True
  have "s = s div 86400 * 86400 + s mod 86400" "r = r div 86400 * 86400 + r mod 86400" by simp_all
  with True assms(2) have "s mod 86400 < r mod 86400" by linarith
  then have "clockText (s mod 86400) @ u < clockText (r mod 86400) @ v"
    by (intro clockText_less) auto
  with True show ?thesis by (simp add: secText_def)
next
  case False
  moreover have "s div 86400 \<le> r div 86400" using assms(2) by (simp add: zdiv_mono1)
  ultimately show ?thesis using assms
    by (simp add: secText_def) (rule dateText_less; simp)
qed

text \<open>Instants in different seconds are ordered as their texts are; in the same second the texts
  are ordered by their trimmed fractions, which is not the order of the instants.\<close>

lemma format_less:
  assumes "timeOk t" and "timeOk u" and "t div second < u div second"
  shows "formatRFC3339Nano t < formatRFC3339Nano u"
  using assms unfolding formatRFC3339Nano_def timeOk_def second_def
  by (intro secText_less) auto

lemma format_le_imp_seconds_le:
  assumes "timeOk t" and "timeOk u" and "formatRFC3339Nano t \<le> formatRFC3339Nano u"
  shows "t div second \<le> u div second"
  using assms format_less [of u t] by (meson linorder_not_le)

lemma format_inj: "timeOk t \<Longrightarrow> timeOk u \<Longrightarrow> formatRFC3339Nano t = formatRFC3339Nano u \<longleftrightarrow> t = u"
  by (metis option.inject parse_format_RFC3339Nano)

lemma format_le_whole:
  assumes "timeOk t" and "timeOk u" and "t mod second = 0" and "u mod second = 0"
  shows "formatRFC3339Nano t \<le> formatRFC3339Nano u \<longleftrightarrow> t \<le> u"
proof -
  have "t = t div second * second" "u = u div second * second"
    using assms(3,4) mult_div_mod_eq [of second t] mult_div_mod_eq [of second u]
    by (simp_all add: mult.commute)
  moreover have "second > 0" by (simp add: second_def)
  ultimately have "t < u \<Longrightarrow> t div second < u div second" "u < t \<Longrightarrow> u div second < t div second"
    by (metis mult_less_cancel_right_pos)+
  with assms show ?thesis
    using format_less [of t u] format_less [of u t] by (cases t u rule: linorder_cases) auto
qed

end
