(* ===== verification/Model.thy ===== *)
theory Model
  imports Time_Format
begin

text \<open>
  Package \<open>internal/model\<close>: jobs, runs and run events, and the string enumerations they carry. The
  enumerations are strings in the source (a database row or a request may hold any string), so
  they are strings here, with \<open>IsValid\<close> as the code has it. A pointer field is an option.
  The errors of all the packages are one datatype: \<open>Errorf\<close> is an error with that text, \<open>Wrapf\<close> one
  that wraps a cause with \<open>%w\<close>, through which \<open>errors.Is\<close> and \<open>errors.As\<close> look.
\<close>

section \<open>Errors\<close>

datatype goerr =
    ErrNoRows
  | DriverErr
  | ConstraintUnique
  | ConstraintForeignKey
  | Canceled
  | DeadlineExceeded
  | Errorf string
  | Wrapf string goerr
  | ValidationErr string string
  | ExitError int
  | ErrorfAround string goerr string
  | Joined goerr goerr

text \<open>\<open>ErrorfAround a e b\<close> is \<open>fmt.Errorf\<close> with the cause between two texts, \<open>Joined\<close> is
  \<open>errors.Join\<close>, \<open>ExitError n\<close> the error of a command that exited with code \<open>n\<close>.\<close>

fun errorsIs :: "goerr \<Rightarrow> goerr \<Rightarrow> bool" where
  "errorsIs (Wrapf s e) target = (Wrapf s e = target \<or> errorsIs e target)"
| "errorsIs (ErrorfAround a e b) target = (ErrorfAround a e b = target \<or> errorsIs e target)"
| "errorsIs (Joined d e) target = (Joined d e = target \<or> errorsIs d target \<or> errorsIs e target)"
| "errorsIs e target = (e = target)"

fun asExitError :: "goerr \<Rightarrow> int option" where
  "asExitError (ExitError n) = Some n"
| "asExitError (Wrapf s e) = asExitError e"
| "asExitError (ErrorfAround a e b) = asExitError e"
| "asExitError (Joined d e) = (case asExitError d of Some n \<Rightarrow> Some n | None \<Rightarrow> asExitError e)"
| "asExitError e = None"

fun asValidation :: "goerr \<Rightarrow> (string \<times> string) option" where
  "asValidation (ValidationErr f m) = Some (f, m)"
| "asValidation (Wrapf s e) = asValidation e"
| "asValidation (ErrorfAround a e b) = asValidation e"
| "asValidation (Joined d e) = (case asValidation d of Some v \<Rightarrow> Some v | None \<Rightarrow> asValidation e)"
| "asValidation e = None"

text \<open>\<open>Error()\<close>; the texts of the driver's own errors are not those of the driver.\<close>

definition validationText :: "string \<Rightarrow> string \<Rightarrow> string" where
  "validationText fld msg =
     (if fld = [] then msg else if msg = [] then fld else fld @ '': '' @ msg)"

fun errorText :: "goerr \<Rightarrow> string" where
  "errorText ErrNoRows = ''sql: no rows in result set''"
| "errorText DriverErr = ''driver error''"
| "errorText ConstraintUnique = ''constraint failed: UNIQUE''"
| "errorText ConstraintForeignKey = ''constraint failed: FOREIGN KEY''"
| "errorText Canceled = ''context canceled''"
| "errorText DeadlineExceeded = ''context deadline exceeded''"
| "errorText (Errorf s) = s"
| "errorText (Wrapf s e) = s @ '': '' @ errorText e"
| "errorText (ValidationErr f m) = validationText f m"
| "errorText (ExitError n) = ''exit status '' @ itoa n"
| "errorText (ErrorfAround a e b) = a @ errorText e @ b"
| "errorText (Joined d e) = errorText d @ [char_of (10::nat)] @ errorText e"

section \<open>Enumerations\<close>

type_synonym source_type = string
type_synonym schedule_type = string
type_synonym concurrency_policy = string
type_synonym run_status = string
type_synonym event_type = string

definition JobSourceTypeLocal :: source_type where [simp]: "JobSourceTypeLocal = ''local''"
definition JobSourceTypeRemote :: source_type where [simp]: "JobSourceTypeRemote = ''remote''"

definition sourceTypeIsValid :: "source_type \<Rightarrow> bool" where
  "sourceTypeIsValid t \<longleftrightarrow> t = JobSourceTypeLocal \<or> t = JobSourceTypeRemote"

definition ScheduleTypeCron :: schedule_type where [simp]: "ScheduleTypeCron = ''cron''"
definition ScheduleTypeInterval :: schedule_type where [simp]: "ScheduleTypeInterval = ''interval''"

definition scheduleTypeIsValid :: "schedule_type \<Rightarrow> bool" where
  "scheduleTypeIsValid t \<longleftrightarrow> t = ScheduleTypeCron \<or> t = ScheduleTypeInterval"

definition ConcurrencyPolicyAllow :: concurrency_policy where
  [simp]: "ConcurrencyPolicyAllow = ''allow''"
definition ConcurrencyPolicyForbid :: concurrency_policy where
  [simp]: "ConcurrencyPolicyForbid = ''forbid''"

definition policyIsValid :: "concurrency_policy \<Rightarrow> bool" where
  "policyIsValid p \<longleftrightarrow> p = ConcurrencyPolicyAllow \<or> p = ConcurrencyPolicyForbid"

definition RunStatusPending :: run_status where [simp]: "RunStatusPending = ''pending''"
definition RunStatusRunning :: run_status where [simp]: "RunStatusRunning = ''running''"
definition RunStatusCancelling :: run_status where [simp]: "RunStatusCancelling = ''cancelling''"
definition RunStatusSuccess :: run_status where [simp]: "RunStatusSuccess = ''success''"
definition RunStatusFailed :: run_status where [simp]: "RunStatusFailed = ''failed''"
definition RunStatusTimeout :: run_status where [simp]: "RunStatusTimeout = ''timeout''"
definition RunStatusCancelled :: run_status where [simp]: "RunStatusCancelled = ''cancelled''"
definition RunStatusSkipped :: run_status where [simp]: "RunStatusSkipped = ''skipped''"

definition runStatusIsValid :: "run_status \<Rightarrow> bool" where
  "runStatusIsValid s \<longleftrightarrow> s \<in> set [RunStatusPending, RunStatusRunning, RunStatusCancelling,
     RunStatusSuccess, RunStatusFailed, RunStatusTimeout, RunStatusCancelled, RunStatusSkipped]"

definition RunEventTypeCreated :: event_type where [simp]: "RunEventTypeCreated = ''created''"
definition RunEventTypeDispatched :: event_type where [simp]: "RunEventTypeDispatched = ''dispatched''"
definition RunEventTypeStarted :: event_type where [simp]: "RunEventTypeStarted = ''started''"
definition RunEventTypeSkipped :: event_type where [simp]: "RunEventTypeSkipped = ''skipped''"
definition RunEventTypeCompleted :: event_type where [simp]: "RunEventTypeCompleted = ''completed''"
definition RunEventTypeFailed :: event_type where [simp]: "RunEventTypeFailed = ''failed''"
definition RunEventTypeTimeout :: event_type where [simp]: "RunEventTypeTimeout = ''timeout''"
definition RunEventTypeCancelled :: event_type where [simp]: "RunEventTypeCancelled = ''cancelled''"

definition eventTypeIsValid :: "event_type \<Rightarrow> bool" where
  "eventTypeIsValid t \<longleftrightarrow> t \<in> set [RunEventTypeCreated, RunEventTypeDispatched, RunEventTypeStarted,
     RunEventTypeSkipped, RunEventTypeCompleted, RunEventTypeFailed, RunEventTypeTimeout,
     RunEventTypeCancelled]"

section \<open>Entities\<close>

record job =
  jobID :: int
  jobName :: string
  jobDescription :: "string option"
  jobEnabled :: bool
  jobSourceType :: source_type
  jobImageRef :: string
  jobImageDigest :: "string option"
  jobScheduleType :: schedule_type
  jobScheduleExpr :: "string option"
  jobIntervalSec :: "int option"
  jobTimezone :: string
  jobConcurrencyPolicy :: concurrency_policy
  jobTimeoutSec :: int
  jobRetryLimit :: int
  jobNextRunAt :: "time option"
  jobLastScheduledAt :: "time option"
  jobParamsJSON :: "string option"
  jobCreatedAt :: time
  jobUpdatedAt :: time

record run =
  runID :: int
  runJobID :: int
  runScheduledAt :: time
  runStartedAt :: "time option"
  runFinishedAt :: "time option"
  runStatus :: run_status
  runAttempt :: int
  runExitCode :: "int option"
  runErrorMessage :: "string option"
  runLogPath :: "string option"
  runResultPath :: "string option"
  runCreatedAt :: time
  runUpdatedAt :: time

record run_event =
  evID :: int
  evRunID :: int
  evEventType :: event_type
  evMessage :: "string option"
  evCreatedAt :: time

text \<open>A composite literal that sets some fields leaves the others at Go's zero values.\<close>

definition zeroJob :: job where
  "zeroJob = \<lparr>jobID = 0, jobName = [], jobDescription = None, jobEnabled = False, jobSourceType = [],
     jobImageRef = [], jobImageDigest = None, jobScheduleType = [], jobScheduleExpr = None,
     jobIntervalSec = None, jobTimezone = [], jobConcurrencyPolicy = [], jobTimeoutSec = 0,
     jobRetryLimit = 0, jobNextRunAt = None, jobLastScheduledAt = None, jobParamsJSON = None,
     jobCreatedAt = 0, jobUpdatedAt = 0\<rparr>"

definition zeroRun :: run where
  "zeroRun = \<lparr>runID = 0, runJobID = 0, runScheduledAt = 0, runStartedAt = None, runFinishedAt = None,
     runStatus = [], runAttempt = 0, runExitCode = None, runErrorMessage = None, runLogPath = None,
     runResultPath = None, runCreatedAt = 0, runUpdatedAt = 0\<rparr>"

definition zeroEvent :: run_event where
  "zeroEvent = \<lparr>evID = 0, evRunID = 0, evEventType = [], evMessage = None, evCreatedAt = 0\<rparr>"

section \<open>Classes of statuses\<close>

text \<open>The statuses of the five-element \<open>IN\<close> lists of \<open>internal/store/run_repo.go\<close>.\<close>

definition isTerminal :: "run_status \<Rightarrow> bool" where
  "isTerminal s \<longleftrightarrow> s \<in> set [RunStatusSuccess, RunStatusFailed, RunStatusTimeout,
     RunStatusCancelled, RunStatusSkipped]"

lemma isTerminal_simps [simp]:
  "isTerminal ''success''" "isTerminal ''failed''" "isTerminal ''timeout''"
  "isTerminal ''cancelled''" "isTerminal ''skipped''"
  "\<not> isTerminal ''pending''" "\<not> isTerminal ''running''" "\<not> isTerminal ''cancelling''"
  by (simp_all add: isTerminal_def)

lemma runStatusIsValid_simps [simp]:
  "runStatusIsValid ''success''" "runStatusIsValid ''failed''" "runStatusIsValid ''timeout''"
  "runStatusIsValid ''cancelled''" "runStatusIsValid ''skipped''"
  "runStatusIsValid ''pending''" "runStatusIsValid ''running''" "runStatusIsValid ''cancelling''"
  by (simp_all add: runStatusIsValid_def)

lemma eventTypeIsValid_simps [simp]:
  "eventTypeIsValid ''created''" "eventTypeIsValid ''dispatched''" "eventTypeIsValid ''started''"
  "eventTypeIsValid ''skipped''" "eventTypeIsValid ''completed''" "eventTypeIsValid ''failed''"
  "eventTypeIsValid ''timeout''" "eventTypeIsValid ''cancelled''"
  by (simp_all add: eventTypeIsValid_def)

lemma isTerminal_valid: "isTerminal s \<Longrightarrow> runStatusIsValid s"
  by (auto simp: isTerminal_def runStatusIsValid_def)

end
