(* ===== verification/Store_Db.thy ===== *)
theory Store_Db
  imports Model
begin

text \<open>
  \<open>internal/store/db.go\<close>: the SQLite database, the transactions and the text form of the times.
  The tables hold rows with one field per column of the schema; times are TEXT and compared as
  text. An operation is a function of the world: the database, the readings of the clock and the
  outcome of every call to the database driver, which may fail at any call (\<open>wFault\<close>, arbitrary):
  a call that fails changes nothing and returns an error. The two wakeup channels of the scheduler
  (capacity one) are part of the world, since the services signal them. The connection pool has one connection,
  so a transaction runs with no other statement in between. Pointer arguments are never nil in
  the program, and the guards against nil are left out.
\<close>

section \<open>Rows and tables\<close>

record job_row =
  jr_id :: int
  jr_name :: string
  jr_description :: "string option"
  jr_enabled :: int
  jr_source_type :: string
  jr_image_ref :: string
  jr_image_digest :: "string option"
  jr_schedule_type :: string
  jr_schedule_expr :: "string option"
  jr_interval_sec :: "int option"
  jr_timezone :: string
  jr_concurrency_policy :: string
  jr_timeout_sec :: int
  jr_retry_limit :: int
  jr_next_run_at :: "string option"
  jr_last_scheduled_at :: "string option"
  jr_params_json :: "string option"
  jr_created_at :: string
  jr_updated_at :: string

record run_row =
  rr_id :: int
  rr_job_id :: int
  rr_scheduled_at :: string
  rr_started_at :: "string option"
  rr_finished_at :: "string option"
  rr_status :: string
  rr_attempt :: int
  rr_exit_code :: "int option"
  rr_error_message :: "string option"
  rr_log_path :: "string option"
  rr_result_path :: "string option"
  rr_created_at :: string
  rr_updated_at :: string

record event_row =
  er_id :: int
  er_run_id :: int
  er_event_type :: string
  er_message :: "string option"
  er_created_at :: string

text \<open>The tables, in the order of insertion, and \<open>sqlite_sequence\<close> for the AUTOINCREMENT keys.\<close>

record db =
  dbJobs :: "job_row list"
  dbRuns :: "run_row list"
  dbEvents :: "event_row list"
  dbJobSeq :: int
  dbRunSeq :: int
  dbEventSeq :: int

definition emptyDb :: db where
  "emptyDb = \<lparr>dbJobs = [], dbRuns = [], dbEvents = [], dbJobSeq = 0, dbRunSeq = 0, dbEventSeq = 0\<rparr>"

text \<open>The constraints of the schema: primary keys below their sequence, UNIQUE(name),
  UNIQUE(job_id, scheduled_at, attempt), the foreign keys; and the enumerations hold valid values,
  which the repositories check before they write.\<close>

definition runKey :: "run_row \<Rightarrow> int \<times> string \<times> int" where
  "runKey r = (rr_job_id r, rr_scheduled_at r, rr_attempt r)"

definition jobsWf :: "db \<Rightarrow> bool" where
  "jobsWf d \<longleftrightarrow> distinct (map jr_id (dbJobs d)) \<and> distinct (map jr_name (dbJobs d))
     \<and> (\<forall>j\<in>set (dbJobs d). 0 < jr_id j \<and> jr_id j \<le> dbJobSeq d \<and> sourceTypeIsValid (jr_source_type j)
          \<and> scheduleTypeIsValid (jr_schedule_type j) \<and> policyIsValid (jr_concurrency_policy j))"

definition runsWf :: "db \<Rightarrow> bool" where
  "runsWf d \<longleftrightarrow> distinct (map rr_id (dbRuns d)) \<and> distinct (map runKey (dbRuns d))
     \<and> (\<forall>r\<in>set (dbRuns d). 0 < rr_id r \<and> rr_id r \<le> dbRunSeq d \<and> runStatusIsValid (rr_status r)
          \<and> rr_job_id r \<in> jr_id ` set (dbJobs d))"

definition eventsWf :: "db \<Rightarrow> bool" where
  "eventsWf d \<longleftrightarrow> distinct (map er_id (dbEvents d))
     \<and> (\<forall>e\<in>set (dbEvents d). 0 < er_id e \<and> er_id e \<le> dbEventSeq d
          \<and> eventTypeIsValid (er_event_type e) \<and> er_run_id e \<in> rr_id ` set (dbRuns d))"

definition dbWf :: "db \<Rightarrow> bool" where
  "dbWf d \<longleftrightarrow> jobsWf d \<and> runsWf d \<and> eventsWf d
     \<and> 0 \<le> dbJobSeq d \<and> 0 \<le> dbRunSeq d \<and> 0 \<le> dbEventSeq d"

lemma dbWf_emptyDb: "dbWf emptyDb"
  by (simp add: dbWf_def jobsWf_def runsWf_def eventsWf_def emptyDb_def)

section \<open>Operations on the world\<close>

record world =
  wDb :: db
  wClock :: "nat \<Rightarrow> time"
  wTicks :: nat
  wFault :: "nat \<Rightarrow> bool"
  wCalls :: nat
  wDueWakeup :: bool
  wDispatchWakeup :: bool

type_synonym 'a io = "world \<Rightarrow> (goerr + 'a) \<times> world"

definition returnIO :: "'a \<Rightarrow> 'a io" where
  "returnIO x = (\<lambda>w. (Inr x, w))"

definition failIO :: "goerr \<Rightarrow> 'a io" where
  "failIO e = (\<lambda>w. (Inl e, w))"

text \<open>\<open>x, err := m; if err != nil { return err }; f(x)\<close>.\<close>

definition bindIO :: "'a io \<Rightarrow> ('a \<Rightarrow> 'b io) \<Rightarrow> 'b io" where
  "bindIO m f = (\<lambda>w. case m w of (Inl e, w') \<Rightarrow> (Inl e, w') | (Inr x, w') \<Rightarrow> f x w')"

definition mapErr :: "(goerr \<Rightarrow> goerr) \<Rightarrow> 'a io \<Rightarrow> 'a io" where
  "mapErr g m = (\<lambda>w. case m w of (Inl e, w') \<Rightarrow> (Inl (g e), w') | (Inr x, w') \<Rightarrow> (Inr x, w'))"

text \<open>A call whose error the code looks at itself.\<close>

definition tryIO :: "'a io \<Rightarrow> (goerr + 'a) io" where
  "tryIO m = (\<lambda>w. case m w of (r, w') \<Rightarrow> (Inr r, w'))"

definition liftRes :: "goerr + 'a \<Rightarrow> 'a io" where
  "liftRes r = (\<lambda>w. (r, w))"

text \<open>\<open>NotifyDueJob\<close> and \<open>NotifyDispatch\<close> of \<open>internal/scheduler/scheduler.go\<close>: a send that does not
  block, so a wakeup that is already there absorbs it.\<close>

definition NotifyDueJob :: "unit io" where
  "NotifyDueJob = (\<lambda>w. (Inr (), w\<lparr>wDueWakeup := True\<rparr>))"

definition NotifyDispatch :: "unit io" where
  "NotifyDispatch = (\<lambda>w. (Inr (), w\<lparr>wDispatchWakeup := True\<rparr>))"

definition timeNow :: "time io" where
  "timeNow = (\<lambda>w. (Inr (wClock w (wTicks w)), w\<lparr>wTicks := Suc (wTicks w)\<rparr>))"

text \<open>One call to the driver: it fails, or the statement runs; a statement that returns an error
  leaves the database as it was.\<close>

definition execDb :: "(db \<Rightarrow> (goerr + 'a) \<times> db) \<Rightarrow> 'a io" where
  "execDb f = (\<lambda>w.
     let w' = w\<lparr>wCalls := Suc (wCalls w)\<rparr>
     in if wFault w (wCalls w) then (Inl DriverErr, w')
        else case f (wDb w) of (Inl e, _) \<Rightarrow> (Inl e, w') | (Inr x, d) \<Rightarrow> (Inr x, w'\<lparr>wDb := d\<rparr>))"

definition queryDb :: "(db \<Rightarrow> goerr + 'a) \<Rightarrow> 'a io" where
  "queryDb q = execDb (\<lambda>d. (q d, d))"

text \<open>\<open>Store.WithinTx\<close>: begin, run the function, commit; an error of any of the three rolls the
  database back to what it was.\<close>

definition WithinTx :: "'a io \<Rightarrow> 'a io" where
  "WithinTx fn = (\<lambda>w.
     case execDb (\<lambda>d. (Inr (), d)) w of
       (Inl e, w1) \<Rightarrow> (Inl e, w1)
     | (Inr _, w1) \<Rightarrow>
         (case fn w1 of
            (Inl e, w2) \<Rightarrow> (Inl e, w2\<lparr>wDb := wDb w1\<rparr>)
          | (Inr x, w2) \<Rightarrow>
              (case execDb (\<lambda>d. (Inr (), d)) w2 of
                 (Inl e, w3) \<Rightarrow> (Inl e, w3\<lparr>wDb := wDb w1\<rparr>)
               | (Inr _, w3) \<Rightarrow> (Inr x, w3))))"

section \<open>Relations an operation obeys\<close>

text \<open>\<open>obeys R m\<close>: from any world, \<open>m\<close> takes the database along \<open>R\<close>, whatever fails on the way.
  For a preorder this is closed under every combinator above, so it is proved statement by
  statement; an invariant \<open>I\<close> is the preorder \<open>\<lambda>d d'. I d \<longrightarrow> I d'\<close>.\<close>

definition obeys :: "(db \<Rightarrow> db \<Rightarrow> bool) \<Rightarrow> 'a io \<Rightarrow> bool" where
  "obeys R m \<longleftrightarrow> (\<forall>w. R (wDb w) (wDb (snd (m w))))"

abbreviation keeps :: "(db \<Rightarrow> bool) \<Rightarrow> 'a io \<Rightarrow> bool" where
  "keeps I m \<equiv> obeys (\<lambda>d d'. I d \<longrightarrow> I d') m"

locale db_preorder =
  fixes R :: "db \<Rightarrow> db \<Rightarrow> bool"
  assumes refl: "R d d"
    and trans: "R a b \<Longrightarrow> R b c \<Longrightarrow> R a c"
begin

lemma obeys_returnIO: "obeys R (returnIO x)"
  by (simp add: obeys_def returnIO_def refl)

lemma obeys_failIO: "obeys R (failIO e)"
  by (simp add: obeys_def failIO_def refl)

lemma obeys_liftRes: "obeys R (liftRes r)"
  by (simp add: obeys_def liftRes_def refl)

lemma obeys_timeNow: "obeys R timeNow"
  by (simp add: obeys_def timeNow_def refl)

lemma obeys_Notify: "obeys R NotifyDueJob" "obeys R NotifyDispatch"
  by (simp_all add: obeys_def NotifyDueJob_def NotifyDispatch_def refl)

lemma obeys_bindIO:
  assumes "obeys R m" and "\<And>x. obeys R (f x)"
  shows "obeys R (bindIO m f)"
  unfolding obeys_def
proof
  fix w
  obtain r w' where m: "m w = (r, w')" by force
  have "R (wDb w) (wDb w')" using assms(1) m by (metis obeys_def snd_conv)
  moreover have "R (wDb w') (wDb (snd (f x w')))" for x using assms(2) by (simp add: obeys_def)
  ultimately show "R (wDb w) (wDb (snd (bindIO m f w)))"
    using trans by (cases r) (auto simp: bindIO_def m)
qed

lemma obeys_mapErr: "obeys R m \<Longrightarrow> obeys R (mapErr g m)"
  unfolding obeys_def mapErr_def by (auto split: prod.splits sum.splits) (metis snd_conv)+

lemma obeys_tryIO: "obeys R m \<Longrightarrow> obeys R (tryIO m)"
  unfolding obeys_def tryIO_def by (auto split: prod.splits) (metis snd_conv)

lemma obeys_execDb:
  assumes "\<And>d x d'. f d = (Inr x, d') \<Longrightarrow> R d d'"
  shows "obeys R (execDb f)"
  unfolding obeys_def execDb_def Let_def
  by (auto simp: refl split: prod.splits sum.splits dest: assms)

lemma obeys_queryDb: "obeys R (queryDb q)"
  unfolding queryDb_def by (rule obeys_execDb) (auto simp: refl)

lemma obeys_WithinTx:
  assumes "obeys R fn"
  shows "obeys R (WithinTx fn)"
  unfolding obeys_def
proof
  fix w
  obtain r1 w1 where 1: "execDb (\<lambda>d. (Inr (), d)) w = (r1, w1)" by force
  then have d1: "wDb w1 = wDb w" by (auto simp: execDb_def Let_def split: if_splits)
  obtain r2 w2 where 2: "fn w1 = (r2, w2)" by force
  have "R (wDb w1) (wDb w2)" using assms 2 by (metis obeys_def snd_conv)
  moreover obtain r3 w3 where 3: "execDb (\<lambda>d. (Inr (), d)) w2 = (r3, w3)" by force
  then have "wDb w3 = wDb w2" by (auto simp: execDb_def Let_def split: if_splits)
  ultimately show "R (wDb w) (wDb (snd (WithinTx fn w)))"
    by (auto simp: WithinTx_def 1 2 3 d1 refl split: sum.splits)
qed

lemma obeys_if: "(b \<Longrightarrow> obeys R m) \<Longrightarrow> (\<not> b \<Longrightarrow> obeys R n) \<Longrightarrow> obeys R (if b then m else n)"
  by simp

lemma obeys_case_option:
  "obeys R m \<Longrightarrow> (\<And>x. obeys R (f x)) \<Longrightarrow> obeys R (case v of None \<Rightarrow> m | Some x \<Rightarrow> f x)"
  by (cases v) auto

lemma obeys_case_sum:
  "(\<And>e. obeys R (g e)) \<Longrightarrow> (\<And>x. obeys R (f x)) \<Longrightarrow>
   obeys R (case v of Inl e \<Rightarrow> g e | Inr x \<Rightarrow> f x)"
  by (cases v) auto

lemma obeys_case_prod:
  "(\<And>a b. obeys R (f a b)) \<Longrightarrow> obeys R (case p of (a, b) \<Rightarrow> f a b)"
  by (cases p) auto

lemma obeys_Let: "(\<And>x. obeys R (f x)) \<Longrightarrow> obeys R (let x = v in f x)"
  by simp

lemmas obeys_intros = obeys_returnIO obeys_failIO obeys_liftRes obeys_timeNow obeys_Notify
  obeys_bindIO obeys_mapErr obeys_tryIO obeys_queryDb obeys_WithinTx obeys_if
  obeys_case_option obeys_case_sum obeys_case_prod obeys_Let

end

interpretation wf_kept: db_preorder "\<lambda>d d'. dbWf d \<longrightarrow> dbWf d'"
  by unfold_locales auto

declare wf_kept.obeys_intros [wf_intros]

section \<open>Evaluation of the combinators\<close>

lemma returnIO_eq [io_simps]: "returnIO x w = (Inr x, w)"
  by (simp add: returnIO_def)

lemma failIO_eq [io_simps]: "failIO e w = (Inl e, w)"
  by (simp add: failIO_def)

lemma liftRes_eq [io_simps]: "liftRes r w = (r, w)"
  by (simp add: liftRes_def)

text \<open>What a successful operation did, step by step.\<close>

lemma bindIO_Inr:
  "bindIO m f w = (Inr y, w') \<longleftrightarrow> (\<exists>x w1. m w = (Inr x, w1) \<and> f x w1 = (Inr y, w'))"
  by (auto simp: bindIO_def split: prod.splits sum.splits)

lemma bindIO_Inl:
  "bindIO m f w = (Inl e, w') \<longleftrightarrow>
     m w = (Inl e, w') \<or> (\<exists>x w1. m w = (Inr x, w1) \<and> f x w1 = (Inl e, w'))"
  by (auto simp: bindIO_def split: prod.splits sum.splits)

lemma mapErr_Inr: "mapErr g m w = (Inr y, w') \<longleftrightarrow> m w = (Inr y, w')"
  by (auto simp: mapErr_def split: prod.splits sum.splits)

lemma returnIO_Inr: "returnIO x w = (Inr y, w') \<longleftrightarrow> y = x \<and> w' = w"
  by (auto simp: returnIO_def)

lemma failIO_Inr: "failIO e w = (Inr y, w') \<longleftrightarrow> False"
  by (simp add: failIO_def)

lemma liftRes_Inr: "liftRes r w = (Inr y, w') \<longleftrightarrow> r = Inr y \<and> w' = w"
  by (auto simp: liftRes_def)

lemma tryIO_Inr: "tryIO m w = (Inr r, w') \<longleftrightarrow> m w = (r, w')"
  by (auto simp: tryIO_def split: prod.splits)

lemma timeNow_Inr:
  "timeNow w = (Inr t, w') \<longleftrightarrow> t = wClock w (wTicks w) \<and> w' = w\<lparr>wTicks := Suc (wTicks w)\<rparr>"
  by (auto simp: timeNow_def)

lemma Notify_Inr:
  "NotifyDueJob w = (Inr u, w') \<longleftrightarrow> w' = w\<lparr>wDueWakeup := True\<rparr>"
  "NotifyDispatch w = (Inr u, w') \<longleftrightarrow> w' = w\<lparr>wDispatchWakeup := True\<rparr>"
  by (auto simp: NotifyDueJob_def NotifyDispatch_def)

lemma execDb_Inr:
  "execDb f w = (Inr x, w') \<longleftrightarrow>
     \<not> wFault w (wCalls w) \<and> (\<exists>d. f (wDb w) = (Inr x, d) \<and> w' = w\<lparr>wCalls := Suc (wCalls w), wDb := d\<rparr>)"
  by (auto simp: execDb_def Let_def split: if_splits prod.splits sum.splits)

lemma queryDb_Inr:
  "queryDb q w = (Inr x, w') \<longleftrightarrow>
     \<not> wFault w (wCalls w) \<and> q (wDb w) = Inr x \<and> w' = w\<lparr>wCalls := Suc (wCalls w)\<rparr>"
  by (auto simp: queryDb_def execDb_Inr)

text \<open>A transaction that returns a value ran its body to the end; one that fails left no trace.\<close>

lemma WithinTx_Inr:
  assumes "WithinTx fn w = (Inr x, w')"
  obtains w1 w2 where "w1 = w\<lparr>wCalls := Suc (wCalls w)\<rparr>" and "fn w1 = (Inr x, w2)"
    and "wDb w' = wDb w2" and "wTicks w' = wTicks w2" and "wClock w' = wClock w2"
    and "wFault w' = wFault w2" and "wDueWakeup w' = wDueWakeup w2"
    and "wDispatchWakeup w' = wDispatchWakeup w2"
proof -
  from assms obtain w1 w2 where 1: "execDb (\<lambda>d. (Inr (), d)) w = (Inr (), w1)"
    and 2: "fn w1 = (Inr x, w2)" and 3: "execDb (\<lambda>d. (Inr (), d)) w2 = (Inr (), w')"
    by (auto simp: WithinTx_def split: prod.splits sum.splits)
  from 1 have w1: "w1 = w\<lparr>wCalls := Suc (wCalls w)\<rparr>" by (auto simp: execDb_Inr)
  from 3 have "wDb w' = wDb w2 \<and> wTicks w' = wTicks w2 \<and> wClock w' = wClock w2
      \<and> wFault w' = wFault w2 \<and> wDueWakeup w' = wDueWakeup w2 \<and> wDispatchWakeup w' = wDispatchWakeup w2"
    by (auto simp: execDb_Inr)
  with w1 2 that show thesis by blast
qed

lemma WithinTx_Inl:
  assumes "WithinTx fn w = (Inl e, w')"
  shows "wDb w' = wDb w"
proof -
  obtain r1 w1 where 1: "execDb (\<lambda>d. (Inr (), d)) w = (r1, w1)" by force
  then have d1: "wDb w1 = wDb w" by (auto simp: execDb_def Let_def split: if_splits)
  obtain r2 w2 where 2: "fn w1 = (r2, w2)" by force
  obtain r3 w3 where 3: "execDb (\<lambda>d. (Inr (), d)) w2 = (r3, w3)" by force
  from assms d1 show ?thesis
    by (auto simp: WithinTx_def 1 2 3 split: sum.splits)
qed

lemma WithinTx_db:
  assumes "WithinTx fn w = (Inr x, w')"
  shows "\<exists>w1 w2. wDb w1 = wDb w \<and> fn w1 = (Inr x, w2) \<and> wDb w' = wDb w2"
  by (rule WithinTx_Inr [OF assms]) (metis world.select_convs(1) world.surjective world.update_convs(5))

lemmas io_Inr = bindIO_Inr mapErr_Inr returnIO_Inr failIO_Inr liftRes_Inr tryIO_Inr timeNow_Inr Notify_Inr
  execDb_Inr queryDb_Inr

section \<open>Times in the columns\<close>

definition encodeTime :: "time \<Rightarrow> string" where
  "encodeTime t = formatRFC3339Nano t"

definition encodeNullableTime :: "time option \<Rightarrow> string option" where
  "encodeNullableTime t = map_option encodeTime t"

definition decodeTime :: "string \<Rightarrow> goerr + time" where
  "decodeTime s =
     (if s = [] then Inl (Errorf ''empty time value'')
      else case parseRFC3339 s of Some t \<Rightarrow> Inr t
      | None \<Rightarrow> (case parseDateTime s of Some t \<Rightarrow> Inr t
                | None \<Rightarrow> Inl (Errorf (''parse time '' @ quoteStr s))))"

definition decodeNullableTime :: "string option \<Rightarrow> goerr + time option" where
  "decodeNullableTime s =
     (case s of None \<Rightarrow> Inr None
      | Some v \<Rightarrow> if v = [] then Inr None else map_ok Some (decodeTime v))"

text \<open>What the repositories rely on: a time written to a column is read back.\<close>

locale time_codec =
  fixes enc :: "time \<Rightarrow> string" and dec :: "string \<Rightarrow> goerr + time" and ok :: "time \<Rightarrow> bool"
  assumes enc_nonempty: "enc t \<noteq> []"
    and dec_enc: "ok t \<Longrightarrow> dec (enc t) = Inr t"
begin

lemma enc_inj: "ok t \<Longrightarrow> ok u \<Longrightarrow> enc t = enc u \<Longrightarrow> t = u"
  by (metis dec_enc sum.inject(2))

end

lemma formatRFC3339Nano_ne [simp]: "formatRFC3339Nano t \<noteq> []"
  by (simp add: formatRFC3339Nano_def)

interpretation column_time: time_codec encodeTime decodeTime timeOk
  by unfold_locales (simp_all add: encodeTime_def decodeTime_def parse_format_RFC3339Nano)

lemma decodeNullableTime_encode [simp]:
  "pred_option timeOk t \<Longrightarrow> decodeNullableTime (encodeNullableTime t) = Inr t"
  by (cases t) (simp_all add: decodeNullableTime_def encodeNullableTime_def
      column_time.enc_nonempty column_time.dec_enc)

section \<open>Statements over a table\<close>

definition tFind :: "('r \<Rightarrow> int) \<Rightarrow> int \<Rightarrow> 'r list \<Rightarrow> 'r option" where
  "tFind key i rs = find (\<lambda>r. key r = i) rs"

definition tUpdate :: "('r \<Rightarrow> bool) \<Rightarrow> ('r \<Rightarrow> 'r) \<Rightarrow> 'r list \<Rightarrow> 'r list" where
  "tUpdate P f rs = map (\<lambda>r. if P r then f r else r) rs"

text \<open>LIMIT and OFFSET: a negative limit is no limit, a negative offset is none.\<close>

definition sqlLimit :: "int \<Rightarrow> 'r list \<Rightarrow> 'r list" where
  "sqlLimit n rs = (if n < 0 then rs else take (nat n) rs)"

definition sqlOffset :: "int \<Rightarrow> 'r list \<Rightarrow> 'r list" where
  "sqlOffset n rs = (if n < 0 then rs else drop (nat n) rs)"

lemma tFind_Some: "tFind key i rs = Some r \<Longrightarrow> r \<in> set rs \<and> key r = i"
  by (auto simp: tFind_def find_Some_iff)

lemma tFind_None: "tFind key i rs = None \<longleftrightarrow> i \<notin> key ` set rs"
  by (auto simp: tFind_def find_None_iff)

lemma tFind_distinct:
  "distinct (map key rs) \<Longrightarrow> r \<in> set rs \<Longrightarrow> tFind key (key r) rs = Some r"
proof (induction rs)
  case (Cons x xs)
  show ?case
  proof (cases "r = x")
    case False
    with Cons.prems have "r \<in> set xs" by simp
    moreover from this Cons.prems(1) have "key x \<noteq> key r" by (metis distinct.simps(2) image_eqI list.set_map list.simps(9))
    ultimately show ?thesis using Cons by (simp add: tFind_def)
  qed (simp add: tFind_def)
qed simp

lemma tFind_append: "tFind key i (rs @ ss) = (case tFind key i rs of None \<Rightarrow> tFind key i ss | Some r \<Rightarrow> Some r)"
  by (induction rs) (auto simp: tFind_def)

lemma tFind_tUpdate:
  assumes "\<And>r. key (f r) = key r"
  shows "tFind key i (tUpdate P f rs) = map_option (\<lambda>r. if P r then f r else r) (tFind key i rs)"
  by (induction rs) (auto simp: tFind_def tUpdate_def assms)

lemma map_tUpdate: "(\<And>r. g (f r) = g r) \<Longrightarrow> map g (tUpdate P f rs) = map g rs"
  by (auto simp: tUpdate_def)

lemma image_tUpdate: "(\<And>r. g (f r) = g r) \<Longrightarrow> g ` set (tUpdate P f rs) = g ` set rs"
  by (metis map_tUpdate list.set_map)

lemma set_tUpdate: "set (tUpdate P f rs) = (\<lambda>r. if P r then f r else r) ` set rs"
  by (simp add: tUpdate_def)

lemma ball_tUpdate:
  "(\<And>r. r \<in> set rs \<Longrightarrow> Q r \<Longrightarrow> P r \<Longrightarrow> Q (f r)) \<Longrightarrow> (\<forall>r\<in>set rs. Q r) \<Longrightarrow>
   (\<forall>r\<in>set (tUpdate P f rs). Q r)"
  by (auto simp: tUpdate_def)

lemma set_sqlLimit: "set (sqlLimit n rs) \<subseteq> set rs"
  by (simp add: sqlLimit_def set_take_subset)

lemma length_sqlLimit: "0 \<le> n \<Longrightarrow> int (length (sqlLimit n rs)) \<le> n"
  by (simp add: sqlLimit_def)

end
