(* ===== verification/Job_Repo.thy ===== *)
theory Job_Repo
  imports Store_Db
begin

text \<open>
  \<open>internal/store/job_repo.go\<close> and \<open>repo_types.go\<close>: the repository of jobs. Each SQL statement is
  a function of the database, each method the operation around it. The lemmas show that a job
  written is read back, that every method keeps the constraints, and what the listing of due
  jobs holds.
\<close>

section \<open>Pages and filters\<close>

record page =
  pagePage :: int
  pageSize :: int

definition normalize :: "page \<Rightarrow> int \<times> int" where
  "normalize p =
     (let pg = (if pagePage p \<le> 0 then 1 else pagePage p);
          sz = (if pageSize p \<le> 0 then 20 else pageSize p)
      in (sz, wrap64 ((pg - 1) * sz)))"

record job_filter =
  jfEnabled :: "bool option"
  jfScheduleType :: "schedule_type option"
  jfName :: string

definition boolToInt :: "bool \<Rightarrow> int" where
  "boolToInt v = (if v then 1 else 0)"

text \<open>\<open>LIKE\<close> with \<open>%\<close> and \<open>_\<close>; SQLite ignores the case of ASCII letters.\<close>

function sqlLike :: "string \<Rightarrow> string \<Rightarrow> bool" where
  "sqlLike [] s = (s = [])"
| "sqlLike (p # ps) s =
     (if p = CHR ''%'' then sqlLike ps s \<or> (case s of [] \<Rightarrow> False | c # cs \<Rightarrow> sqlLike (p # ps) cs)
      else case s of [] \<Rightarrow> False
        | c # cs \<Rightarrow> (p = CHR ''_'' \<or> lowerChar p = lowerChar c) \<and> sqlLike ps cs)"
  by pat_completeness auto
termination by (relation "measure (\<lambda>(p, s). length p + length s)") auto

section \<open>Rows\<close>

definition jobRow :: "job \<Rightarrow> job_row" where
  "jobRow j = \<lparr>jr_id = jobID j, jr_name = jobName j, jr_description = jobDescription j,
     jr_enabled = boolToInt (jobEnabled j), jr_source_type = jobSourceType j,
     jr_image_ref = jobImageRef j, jr_image_digest = jobImageDigest j,
     jr_schedule_type = jobScheduleType j, jr_schedule_expr = jobScheduleExpr j,
     jr_interval_sec = jobIntervalSec j, jr_timezone = jobTimezone j,
     jr_concurrency_policy = jobConcurrencyPolicy j, jr_timeout_sec = jobTimeoutSec j,
     jr_retry_limit = jobRetryLimit j, jr_next_run_at = encodeNullableTime (jobNextRunAt j),
     jr_last_scheduled_at = encodeNullableTime (jobLastScheduledAt j),
     jr_params_json = jobParamsJSON j, jr_created_at = encodeTime (jobCreatedAt j),
     jr_updated_at = encodeTime (jobUpdatedAt j)\<rparr>"

definition scanJob :: "job_row \<Rightarrow> goerr + job" where
  "scanJob r =
     bind_ok (decodeNullableTime (jr_next_run_at r)) (\<lambda>nextRunAt.
     bind_ok (decodeNullableTime (jr_last_scheduled_at r)) (\<lambda>lastScheduledAt.
     bind_ok (decodeTime (jr_created_at r)) (\<lambda>createdAt.
     bind_ok (decodeTime (jr_updated_at r)) (\<lambda>updatedAt.
       Inr \<lparr>jobID = jr_id r, jobName = jr_name r, jobDescription = jr_description r,
         jobEnabled = (jr_enabled r \<noteq> 0), jobSourceType = jr_source_type r,
         jobImageRef = jr_image_ref r, jobImageDigest = jr_image_digest r,
         jobScheduleType = jr_schedule_type r, jobScheduleExpr = jr_schedule_expr r,
         jobIntervalSec = jr_interval_sec r, jobTimezone = jr_timezone r,
         jobConcurrencyPolicy = jr_concurrency_policy r, jobTimeoutSec = jr_timeout_sec r,
         jobRetryLimit = jr_retry_limit r, jobNextRunAt = nextRunAt,
         jobLastScheduledAt = lastScheduledAt, jobParamsJSON = jr_params_json r,
         jobCreatedAt = createdAt, jobUpdatedAt = updatedAt\<rparr>))))"

definition jobTimesOk :: "job \<Rightarrow> bool" where
  "jobTimesOk j \<longleftrightarrow> pred_option timeOk (jobNextRunAt j) \<and> pred_option timeOk (jobLastScheduledAt j)
     \<and> timeOk (jobCreatedAt j) \<and> timeOk (jobUpdatedAt j)"

section \<open>Statements\<close>

definition insertJob :: "job_row \<Rightarrow> db \<Rightarrow> (goerr + int) \<times> db" where
  "insertJob r d =
     (if jr_name r \<in> jr_name ` set (dbJobs d) then (Inl ConstraintUnique, d)
      else let i = dbJobSeq d + 1
           in (Inr i, d\<lparr>dbJobs := dbJobs d @ [r\<lparr>jr_id := i\<rparr>], dbJobSeq := i\<rparr>))"

definition updateJobRow :: "int \<Rightarrow> job_row \<Rightarrow> db \<Rightarrow> (goerr + unit) \<times> db" where
  "updateJobRow i r d =
     (if i \<in> jr_id ` set (dbJobs d) \<and> (\<exists>j\<in>set (dbJobs d). jr_id j \<noteq> i \<and> jr_name j = jr_name r)
      then (Inl ConstraintUnique, d)
      else (Inr (), d\<lparr>dbJobs := tUpdate (\<lambda>j. jr_id j = i)
              (\<lambda>j. r\<lparr>jr_id := jr_id j, jr_created_at := jr_created_at j\<rparr>) (dbJobs d)\<rparr>))"

text \<open>DELETE with the two ON DELETE CASCADE references.\<close>

definition deleteJobRow :: "int \<Rightarrow> db \<Rightarrow> (goerr + unit) \<times> db" where
  "deleteJobRow i d =
     (let gone = rr_id ` set (filter (\<lambda>r. rr_job_id r = i) (dbRuns d))
      in (Inr (), d\<lparr>dbJobs := filter (\<lambda>j. jr_id j \<noteq> i) (dbJobs d),
                    dbRuns := filter (\<lambda>r. rr_job_id r \<noteq> i) (dbRuns d),
                    dbEvents := filter (\<lambda>e. er_run_id e \<notin> gone) (dbEvents d)\<rparr>))"

definition updateJobScheduling ::
  "int \<Rightarrow> string option \<Rightarrow> string option \<Rightarrow> string \<Rightarrow> db \<Rightarrow> (goerr + unit) \<times> db" where
  "updateJobScheduling i nextRunAt lastScheduledAt updatedAt d =
     (Inr (), d\<lparr>dbJobs := tUpdate (\<lambda>j. jr_id j = i)
        (\<lambda>j. j\<lparr>jr_next_run_at := nextRunAt, jr_last_scheduled_at := lastScheduledAt,
               jr_updated_at := updatedAt\<rparr>) (dbJobs d)\<rparr>)"

definition jobMatches :: "job_filter \<Rightarrow> job_row \<Rightarrow> bool" where
  "jobMatches f r \<longleftrightarrow>
     (case jfEnabled f of None \<Rightarrow> True | Some b \<Rightarrow> jr_enabled r = boolToInt b)
     \<and> (case jfScheduleType f of None \<Rightarrow> True | Some t \<Rightarrow> t = [] \<or> jr_schedule_type r = t)
     \<and> (jfName f = [] \<or> sqlLike (''%'' @ jfName f @ ''%'') (jr_name r))"

definition selectDue :: "string \<Rightarrow> db \<Rightarrow> job_row list" where
  "selectDue before d =
     sort_key (\<lambda>r. (case jr_next_run_at r of None \<Rightarrow> [] | Some t \<Rightarrow> t, jr_id r))
       (filter (\<lambda>r. jr_enabled r = 1
                  \<and> (case jr_next_run_at r of None \<Rightarrow> False | Some t \<Rightarrow> t \<le> before)) (dbJobs d))"

section \<open>Methods of JobRepo\<close>

definition jobsCreate :: "job \<Rightarrow> job io" where
  "jobsCreate job =
     bindIO timeNow (\<lambda>now.
       let job = (if jobCreatedAt job = 0 then job\<lparr>jobCreatedAt := now\<rparr> else job);
           job = (if jobUpdatedAt job = 0 then job\<lparr>jobUpdatedAt := now\<rparr> else job);
           job = (if jobTimezone job = [] then job\<lparr>jobTimezone := ''UTC''\<rparr> else job)
       in if \<not> sourceTypeIsValid (jobSourceType job)
          then failIO (Errorf (''invalid job source type: '' @ quoteStr (jobSourceType job)))
          else if \<not> scheduleTypeIsValid (jobScheduleType job)
          then failIO (Errorf (''invalid schedule type: '' @ quoteStr (jobScheduleType job)))
          else if \<not> policyIsValid (jobConcurrencyPolicy job)
          then failIO (Errorf (''invalid concurrency policy: '' @ quoteStr (jobConcurrencyPolicy job)))
          else bindIO (mapErr (Wrapf ''insert job'') (execDb (insertJob (jobRow job))))
                 (\<lambda>i. returnIO (job\<lparr>jobID := i\<rparr>)))"

definition jobsGet :: "int \<Rightarrow> job io" where
  "jobsGet i = queryDb (\<lambda>d. case tFind jr_id i (dbJobs d) of None \<Rightarrow> Inl ErrNoRows | Some r \<Rightarrow> scanJob r)"

definition jobsGetByName :: "string \<Rightarrow> job io" where
  "jobsGetByName name =
     queryDb (\<lambda>d. case find (\<lambda>r. jr_name r = name) (dbJobs d) of None \<Rightarrow> Inl ErrNoRows | Some r \<Rightarrow> scanJob r)"

definition jobsList :: "job_filter \<Rightarrow> page \<Rightarrow> (job list \<times> int) io" where
  "jobsList f p =
     (let (limit, offset) = normalize p in
      bindIO (mapErr (Wrapf ''count jobs'')
                (queryDb (\<lambda>d. Inr (int (length (filter (jobMatches f) (dbJobs d))))))) (\<lambda>total.
      bindIO (mapErr (Wrapf ''list jobs'')
                (queryDb (\<lambda>d. Inr (sqlLimit limit (sqlOffset offset
                   (rev (sort_key jr_id (filter (jobMatches f) (dbJobs d))))))))) (\<lambda>rows.
      bindIO (liftRes (map_res scanJob rows)) (\<lambda>jobs. returnIO (jobs, total)))))"

definition jobsUpdate :: "job \<Rightarrow> job io" where
  "jobsUpdate job =
     (if jobID job \<le> 0 then failIO (Errorf ''job id is required'')
      else let job = (if jobTimezone job = [] then job\<lparr>jobTimezone := ''UTC''\<rparr> else job)
       in if \<not> sourceTypeIsValid (jobSourceType job)
          then failIO (Errorf (''invalid job source type: '' @ quoteStr (jobSourceType job)))
          else if \<not> scheduleTypeIsValid (jobScheduleType job)
          then failIO (Errorf (''invalid schedule type: '' @ quoteStr (jobScheduleType job)))
          else if \<not> policyIsValid (jobConcurrencyPolicy job)
          then failIO (Errorf (''invalid concurrency policy: '' @ quoteStr (jobConcurrencyPolicy job)))
          else bindIO timeNow (\<lambda>now.
            let job = job\<lparr>jobUpdatedAt := now\<rparr>
            in bindIO (mapErr (Wrapf ''update job'') (execDb (updateJobRow (jobID job) (jobRow job))))
                 (\<lambda>_. returnIO job)))"

definition jobsDelete :: "int \<Rightarrow> unit io" where
  "jobsDelete i = mapErr (Wrapf ''delete job'') (execDb (deleteJobRow i))"

definition UpdateScheduling :: "int \<Rightarrow> time option \<Rightarrow> time option \<Rightarrow> unit io" where
  "UpdateScheduling i nextRunAt lastScheduledAt =
     bindIO timeNow (\<lambda>updatedAt.
       mapErr (Wrapf ''update job scheduling'')
         (execDb (updateJobScheduling i (encodeNullableTime nextRunAt)
            (encodeNullableTime lastScheduledAt) (encodeTime updatedAt))))"

definition ListDue :: "time \<Rightarrow> job list io" where
  "ListDue before =
     bindIO (mapErr (Wrapf ''list due jobs'') (queryDb (\<lambda>d. Inr (selectDue (encodeTime before) d))))
       (\<lambda>rows. liftRes (map_res scanJob rows))"

section \<open>Round trip of a row\<close>

lemma boolToInt_iff [simp]: "(boolToInt b = 0) = (\<not> b)" "(boolToInt b = 1) = b"
  by (simp_all add: boolToInt_def)

lemma scanJob_jobRow: "jobTimesOk j \<Longrightarrow> scanJob (jobRow j) = Inr j"
  by (simp add: jobTimesOk_def scanJob_def jobRow_def column_time.dec_enc)

section \<open>The statements keep the constraints\<close>

lemma jobRow_simps [simp]:
  "jr_id (jobRow j) = jobID j" "jr_name (jobRow j) = jobName j"
  "jr_source_type (jobRow j) = jobSourceType j" "jr_schedule_type (jobRow j) = jobScheduleType j"
  "jr_concurrency_policy (jobRow j) = jobConcurrencyPolicy j"
  "jr_enabled (jobRow j) = boolToInt (jobEnabled j)"
  "jr_next_run_at (jobRow j) = encodeNullableTime (jobNextRunAt j)"
  by (simp_all add: jobRow_def)

lemma dbWf_insertJob:
  assumes "insertJob r d = (Inr i, d')" and "dbWf d" and "sourceTypeIsValid (jr_source_type r)"
    and "scheduleTypeIsValid (jr_schedule_type r)" and "policyIsValid (jr_concurrency_policy r)"
  shows "dbWf d'"
proof -
  have d': "d' = d\<lparr>dbJobs := dbJobs d @ [r\<lparr>jr_id := dbJobSeq d + 1\<rparr>], dbJobSeq := dbJobSeq d + 1\<rparr>"
    and new: "jr_name r \<notin> jr_name ` set (dbJobs d)"
    using assms(1) by (auto simp: insertJob_def Let_def split: if_splits)
  have fresh: "dbJobSeq d + 1 \<notin> jr_id ` set (dbJobs d)"
    using assms(2) by (force simp: dbWf_def jobsWf_def)
  have "jobsWf d'"
    using assms(2-5) new fresh unfolding d' by (fastforce simp: dbWf_def jobsWf_def)
  moreover have "runsWf d'" "eventsWf d'"
    using assms(2) unfolding d' by (auto simp: dbWf_def runsWf_def eventsWf_def)
  ultimately show ?thesis using assms(2) unfolding d' by (simp add: dbWf_def)
qed

lemma dbWf_jobs_update:
  assumes "dbWf d" and "map jr_id js = map jr_id (dbJobs d)" and "distinct (map jr_name js)"
    and "\<forall>j\<in>set js. sourceTypeIsValid (jr_source_type j)
          \<and> scheduleTypeIsValid (jr_schedule_type j) \<and> policyIsValid (jr_concurrency_policy j)"
  shows "dbWf (d\<lparr>dbJobs := js\<rparr>)"
proof -
  have ids: "jr_id ` set js = jr_id ` set (dbJobs d)" using assms(2) by (metis list.set_map)
  have "0 < jr_id j \<and> jr_id j \<le> dbJobSeq d" if "j \<in> set js" for j
  proof -
    from that ids obtain k where "k \<in> set (dbJobs d)" "jr_id j = jr_id k" by (metis image_iff)
    with assms(1) show ?thesis by (simp add: dbWf_def jobsWf_def)
  qed
  with assms show ?thesis
    by (simp add: dbWf_def jobsWf_def runsWf_def eventsWf_def ids)
qed

lemma dbWf_updateJobRow:
  assumes "updateJobRow i r d = (Inr u, d')" and "dbWf d" and "sourceTypeIsValid (jr_source_type r)"
    and "scheduleTypeIsValid (jr_schedule_type r)" and "policyIsValid (jr_concurrency_policy r)"
  shows "dbWf d'"
proof -
  let ?f = "\<lambda>j. r\<lparr>jr_id := jr_id j, jr_created_at := jr_created_at j\<rparr>"
  let ?js = "tUpdate (\<lambda>j. jr_id j = i) ?f (dbJobs d)"
  have d': "d' = d\<lparr>dbJobs := ?js\<rparr>"
    and nm: "i \<in> jr_id ` set (dbJobs d) \<Longrightarrow> \<forall>j\<in>set (dbJobs d). jr_id j \<noteq> i \<longrightarrow> jr_name j \<noteq> jr_name r"
    using assms(1) by (auto simp: updateJobRow_def split: if_splits)
  have names: "distinct (map jr_name ?js)"
    unfolding tUpdate_def map_map distinct_map
  proof
    show d: "distinct (dbJobs d)" using assms(2) by (auto simp: dbWf_def jobsWf_def distinct_map)
    show "inj_on (jr_name \<circ> (\<lambda>j. if jr_id j = i then ?f j else j)) (set (dbJobs d))"
    proof (rule inj_onI)
      fix x y assume x: "x \<in> set (dbJobs d)" and y: "y \<in> set (dbJobs d)"
        and eq: "(jr_name \<circ> (\<lambda>j. if jr_id j = i then ?f j else j)) x
               = (jr_name \<circ> (\<lambda>j. if jr_id j = i then ?f j else j)) y"
      have inj: "inj_on jr_id (set (dbJobs d))" "inj_on jr_name (set (dbJobs d))"
        using assms(2) by (auto simp: dbWf_def jobsWf_def distinct_map)
      show "x = y"
        using eq x y nm inj by (auto simp: inj_on_def split: if_splits)
    qed
  qed
  have ids: "map jr_id ?js = map jr_id (dbJobs d)" by (rule map_tUpdate) simp
  have valid: "\<forall>j\<in>set ?js. sourceTypeIsValid (jr_source_type j)
      \<and> scheduleTypeIsValid (jr_schedule_type j) \<and> policyIsValid (jr_concurrency_policy j)"
    by (rule ball_tUpdate) (use assms in \<open>auto simp: dbWf_def jobsWf_def\<close>)
  show ?thesis unfolding d' by (rule dbWf_jobs_update [OF assms(2) ids names valid])
qed

lemma dbWf_updateJobScheduling:
  assumes "updateJobScheduling i a b c d = (Inr u, d')" and "dbWf d"
  shows "dbWf d'"
proof -
  let ?js = "tUpdate (\<lambda>j. jr_id j = i)
     (\<lambda>j. j\<lparr>jr_next_run_at := a, jr_last_scheduled_at := b, jr_updated_at := c\<rparr>) (dbJobs d)"
  have d': "d' = d\<lparr>dbJobs := ?js\<rparr>" using assms(1) by (simp add: updateJobScheduling_def)
  have m: "map jr_id ?js = map jr_id (dbJobs d)" "map jr_name ?js = map jr_name (dbJobs d)"
    by (rule map_tUpdate, simp)+
  have "\<forall>j\<in>set ?js. sourceTypeIsValid (jr_source_type j)
      \<and> scheduleTypeIsValid (jr_schedule_type j) \<and> policyIsValid (jr_concurrency_policy j)"
    by (rule ball_tUpdate) (use assms(2) in \<open>auto simp: dbWf_def jobsWf_def\<close>)
  with assms(2) m show ?thesis
    unfolding d' by (intro dbWf_jobs_update) (auto simp: dbWf_def jobsWf_def)
qed

lemma dbWf_deleteJobRow:
  assumes "deleteJobRow i d = (Inr u, d')" and "dbWf d"
  shows "dbWf d'"
proof -
  have d': "d' = d\<lparr>dbJobs := filter (\<lambda>j. jr_id j \<noteq> i) (dbJobs d),
      dbRuns := filter (\<lambda>r. rr_job_id r \<noteq> i) (dbRuns d),
      dbEvents := filter (\<lambda>e. er_run_id e \<notin> rr_id ` set (filter (\<lambda>r. rr_job_id r = i) (dbRuns d))) (dbEvents d)\<rparr>"
    using assms(1) by (simp add: deleteJobRow_def Let_def)
  have "jobsWf d'" using assms(2) unfolding d'
    by (auto simp: dbWf_def jobsWf_def distinct_map_filter)
  moreover have "runsWf d'" using assms(2) unfolding d'
    by (auto simp: dbWf_def runsWf_def distinct_map_filter image_iff)
  moreover have "eventsWf d'" using assms(2) unfolding d'
    by (auto simp: dbWf_def eventsWf_def distinct_map_filter image_iff)
  ultimately show ?thesis using assms(2) unfolding d' by (simp add: dbWf_def)
qed

section \<open>The methods keep the constraints\<close>

lemma wf_execDb:
  "(\<And>d x d'. f d = (Inr x, d') \<Longrightarrow> dbWf d \<Longrightarrow> dbWf d') \<Longrightarrow> keeps dbWf (execDb f)"
  by (rule wf_kept.obeys_execDb) blast

lemma wf_jobsCreate [wf_intros]: "keeps dbWf (jobsCreate j)"
  unfolding jobsCreate_def Let_def
  by (intro wf_intros wf_execDb) (erule dbWf_insertJob; simp split: if_splits)+

lemma wf_jobsUpdate [wf_intros]: "keeps dbWf (jobsUpdate j)"
  unfolding jobsUpdate_def Let_def
  by (intro wf_intros wf_execDb) (erule dbWf_updateJobRow; simp)+

lemma wf_jobsDelete [wf_intros]: "keeps dbWf (jobsDelete i)"
  unfolding jobsDelete_def by (intro wf_intros wf_execDb) (rule dbWf_deleteJobRow)

lemma wf_UpdateScheduling [wf_intros]: "keeps dbWf (UpdateScheduling i a b)"
  unfolding UpdateScheduling_def by (intro wf_intros wf_execDb) (rule dbWf_updateJobScheduling)

lemma wf_jobsGet [wf_intros]: "keeps dbWf (jobsGet i)"
  unfolding jobsGet_def by (intro wf_intros)

lemma wf_jobsList [wf_intros]: "keeps dbWf (jobsList f p)"
  unfolding jobsList_def by (intro wf_intros)

lemma wf_ListDue [wf_intros]: "keeps dbWf (ListDue t)"
  unfolding ListDue_def by (intro wf_intros)

section \<open>What a successful method did\<close>

lemma jobsGet_Inr:
  "jobsGet i w = (Inr j, w') \<longleftrightarrow> \<not> wFault w (wCalls w) \<and> w' = w\<lparr>wCalls := Suc (wCalls w)\<rparr>
     \<and> (\<exists>r. tFind jr_id i (dbJobs (wDb w)) = Some r \<and> scanJob r = Inr j)"
  by (auto simp: jobsGet_def queryDb_Inr split: option.splits)

lemma scanJob_Inr:
  "scanJob r = Inr j \<Longrightarrow> jobID j = jr_id r \<and> jobScheduleType j = jr_schedule_type r
     \<and> jobConcurrencyPolicy j = jr_concurrency_policy r \<and> jobTimeoutSec j = jr_timeout_sec r
     \<and> jobRetryLimit j = jr_retry_limit r \<and> jobIntervalSec j = jr_interval_sec r
     \<and> jobEnabled j = (jr_enabled r \<noteq> 0) \<and> jobName j = jr_name r
     \<and> decodeNullableTime (jr_next_run_at r) = Inr (jobNextRunAt j)"
  by (auto simp: scanJob_def bind_ok_Inr)

text \<open>The due rows: enabled, with a next run whose text is at most the text of the instant asked
  for, in the order of that text.\<close>

lemma selectDue_set:
  "r \<in> set (selectDue b d) \<longleftrightarrow> r \<in> set (dbJobs d) \<and> jr_enabled r = 1
     \<and> (\<exists>t. jr_next_run_at r = Some t \<and> t \<le> b)"
  by (auto simp: selectDue_def split: option.splits)

text \<open>In the second of its planned time a job is not found due: a job planned at a whole second, as every
  cron job is, is listed at that very instant but at no later instant of the same second, because the
  letter Z sorts after the point that starts the fraction.\<close>

lemma due_job_missed_within_its_second:
  assumes "t mod second = 0" and "0 < f" and "f < second"
    and "jr_next_run_at q = Some (encodeTime t)"
  shows "q \<notin> set (selectDue (encodeTime (t + f)) d)"
proof -
  have dvd: "second dvd t" using assms(1) by (simp add: mod_eq_0_iff_dvd)
  have "(t + f) div second = t div second"
    using div_plus_div_distrib_dvd_left [OF dvd, of f] assms(2,3) by (simp add: div_pos_pos_trivial)
  moreover have "(t + f) mod second = f"
    using assms by (subst mod_add_left_eq [symmetric]) (simp add: mod_pos_pos_trivial)
  ultimately have "encodeTime (t + f) = secText (t div second) @ fracText f @ ''Z''"
    "encodeTime t = secText (t div second) @ ''Z''"
    using assms(1) by (simp_all add: encodeTime_def formatRFC3339Nano_def fracText_def)
  moreover have "fracText f @ ''Z'' < ''Z''" using assms(2) by (simp add: fracText_def)
  ultimately have "encodeTime (t + f) < encodeTime t" by simp
  with assms(4) show ?thesis by (auto simp: selectDue_set)
qed

lemma selectDue_sorted:
  "sorted (map (\<lambda>r. (case jr_next_run_at r of None \<Rightarrow> [] | Some t \<Rightarrow> t, jr_id r)) (selectDue b d))"
  by (simp add: selectDue_def)

definition stampedJob :: "time \<Rightarrow> job \<Rightarrow> job" where
  "stampedJob now job = job\<lparr>jobCreatedAt := (if jobCreatedAt job = 0 then now else jobCreatedAt job),
     jobUpdatedAt := (if jobUpdatedAt job = 0 then now else jobUpdatedAt job),
     jobTimezone := (if jobTimezone job = [] then ''UTC'' else jobTimezone job)\<rparr>"

lemma jobRow_id: "(jobRow j)\<lparr>jr_id := i\<rparr> = jobRow (j\<lparr>jobID := i\<rparr>)"
  by (simp add: jobRow_def)

text \<open>A successful creation: a new id, the row of the job it returns, nothing else.\<close>

lemma jobsCreate_Inr:
  assumes "jobsCreate job w = (Inr j, w')"
  shows "jobID j = dbJobSeq (wDb w) + 1"
    and "wDb w' = (wDb w)\<lparr>dbJobs := dbJobs (wDb w) @ [jobRow j], dbJobSeq := dbJobSeq (wDb w) + 1\<rparr>"
    and "j = (stampedJob (wClock w (wTicks w)) job)\<lparr>jobID := dbJobSeq (wDb w) + 1\<rparr>"
    and "jobName job \<notin> jr_name ` set (dbJobs (wDb w))"
proof -
  let ?job = "stampedJob (wClock w (wTicks w)) job"
  have st: "(let job = (if jobCreatedAt job = 0 then job\<lparr>jobCreatedAt := now\<rparr> else job);
           job = (if jobUpdatedAt job = 0 then job\<lparr>jobUpdatedAt := now\<rparr> else job);
           job = (if jobTimezone job = [] then job\<lparr>jobTimezone := ''UTC''\<rparr> else job) in f job)
     = f (stampedJob now job)" for now and f :: "job \<Rightarrow> job io"
    by (simp add: stampedJob_def Let_def)
  from assms obtain d i where ins: "insertJob (jobRow ?job) (wDb w) = (Inr i, d)"
    and w': "wDb w' = d" and j: "j = ?job\<lparr>jobID := i\<rparr>"
    unfolding jobsCreate_def st by (auto simp: io_Inr split: if_splits)
  from ins have i: "i = dbJobSeq (wDb w) + 1" and fresh: "jobName ?job \<notin> jr_name ` set (dbJobs (wDb w))"
    and d: "d = (wDb w)\<lparr>dbJobs := dbJobs (wDb w) @ [(jobRow ?job)\<lparr>jr_id := i\<rparr>], dbJobSeq := i\<rparr>"
    by (auto simp: insertJob_def Let_def split: if_splits)
  show "jobID j = dbJobSeq (wDb w) + 1" "j = ?job\<lparr>jobID := dbJobSeq (wDb w) + 1\<rparr>"
    using i j by simp_all
  show "wDb w' = (wDb w)\<lparr>dbJobs := dbJobs (wDb w) @ [jobRow j], dbJobSeq := dbJobSeq (wDb w) + 1\<rparr>"
    using d w' i j by (simp add: jobRow_id)
  show "jobName job \<notin> jr_name ` set (dbJobs (wDb w))" using fresh by (simp add: stampedJob_def)
qed

lemma UpdateScheduling_Inr:
  assumes "UpdateScheduling i a b w = (Inr u, w')"
  shows "wDb w' = (wDb w)\<lparr>dbJobs := tUpdate (\<lambda>j. jr_id j = i)
    (\<lambda>j. j\<lparr>jr_next_run_at := encodeNullableTime a, jr_last_scheduled_at := encodeNullableTime b,
           jr_updated_at := encodeTime (wClock w (wTicks w))\<rparr>) (dbJobs (wDb w))\<rparr>"
  using assms by (auto simp: UpdateScheduling_def io_Inr updateJobScheduling_def)

lemma ListDue_Inr:
  assumes "ListDue t w = (Inr js, w')"
  shows "wDb w' = wDb w" and "map_res scanJob (selectDue (encodeTime t) (wDb w)) = Inr js"
  using assms by (auto simp: ListDue_def io_Inr)

end
