(* ===== verification/Run_Repo.thy ===== *)
theory Run_Repo
  imports Job_Repo
begin

text \<open>
  \<open>internal/store/run_repo.go\<close>: the repository of runs, statement by statement. The lemmas show
  that a run written is read back, that every method keeps the constraints, that a pending run is
  claimed at most once, and what the listings and the deletion of old runs do.
\<close>

record run_filter =
  rfJobID :: "int option"
  rfStatus :: "run_status option"
  rfFrom :: "time option"
  rfTo :: "time option"

section \<open>Rows\<close>

definition runRow :: "run \<Rightarrow> run_row" where
  "runRow r = \<lparr>rr_id = runID r, rr_job_id = runJobID r, rr_scheduled_at = encodeTime (runScheduledAt r),
     rr_started_at = encodeNullableTime (runStartedAt r),
     rr_finished_at = encodeNullableTime (runFinishedAt r), rr_status = runStatus r,
     rr_attempt = runAttempt r, rr_exit_code = runExitCode r, rr_error_message = runErrorMessage r,
     rr_log_path = runLogPath r, rr_result_path = runResultPath r,
     rr_created_at = encodeTime (runCreatedAt r), rr_updated_at = encodeTime (runUpdatedAt r)\<rparr>"

definition scanRun :: "run_row \<Rightarrow> goerr + run" where
  "scanRun r =
     bind_ok (decodeTime (rr_scheduled_at r)) (\<lambda>scheduledAt.
     bind_ok (decodeNullableTime (rr_started_at r)) (\<lambda>startedAt.
     bind_ok (decodeNullableTime (rr_finished_at r)) (\<lambda>finishedAt.
     bind_ok (decodeTime (rr_updated_at r)) (\<lambda>updatedAt.
     bind_ok (decodeTime (rr_created_at r)) (\<lambda>createdAt.
       Inr \<lparr>runID = rr_id r, runJobID = rr_job_id r, runScheduledAt = scheduledAt,
         runStartedAt = startedAt, runFinishedAt = finishedAt, runStatus = rr_status r,
         runAttempt = rr_attempt r, runExitCode = rr_exit_code r,
         runErrorMessage = rr_error_message r, runLogPath = rr_log_path r,
         runResultPath = rr_result_path r, runCreatedAt = createdAt, runUpdatedAt = updatedAt\<rparr>)))))"

definition runTimesOk :: "run \<Rightarrow> bool" where
  "runTimesOk r \<longleftrightarrow> timeOk (runScheduledAt r) \<and> pred_option timeOk (runStartedAt r)
     \<and> pred_option timeOk (runFinishedAt r) \<and> timeOk (runCreatedAt r) \<and> timeOk (runUpdatedAt r)"

section \<open>Statements\<close>

definition insertRun :: "run_row \<Rightarrow> db \<Rightarrow> (goerr + int) \<times> db" where
  "insertRun r d =
     (if runKey r \<in> runKey ` set (dbRuns d) then (Inl ConstraintUnique, d)
      else if rr_job_id r \<notin> jr_id ` set (dbJobs d) then (Inl ConstraintForeignKey, d)
      else let i = dbRunSeq d + 1
           in (Inr i, d\<lparr>dbRuns := dbRuns d @ [r\<lparr>rr_id := i\<rparr>], dbRunSeq := i\<rparr>))"

definition updateRunRow :: "int \<Rightarrow> run_row \<Rightarrow> db \<Rightarrow> (goerr + unit) \<times> db" where
  "updateRunRow i r d =
     (if i \<in> rr_id ` set (dbRuns d) \<and> (\<exists>s\<in>set (dbRuns d). rr_id s \<noteq> i \<and> runKey s = runKey r)
      then (Inl ConstraintUnique, d)
      else if i \<in> rr_id ` set (dbRuns d) \<and> rr_job_id r \<notin> jr_id ` set (dbJobs d)
      then (Inl ConstraintForeignKey, d)
      else (Inr (), d\<lparr>dbRuns := tUpdate (\<lambda>s. rr_id s = i)
              (\<lambda>s. r\<lparr>rr_id := rr_id s, rr_created_at := rr_created_at s\<rparr>) (dbRuns d)\<rparr>))"

definition setRunStatus ::
  "run_status \<Rightarrow> string option \<Rightarrow> string option \<Rightarrow> int option \<Rightarrow> string option \<Rightarrow> string \<Rightarrow> run_row \<Rightarrow> run_row" where
  "setRunStatus status startedAt finishedAt exitCode msg updatedAt r =
     r\<lparr>rr_status := status, rr_started_at := startedAt, rr_finished_at := finishedAt,
       rr_exit_code := exitCode, rr_error_message := msg, rr_updated_at := updatedAt\<rparr>"

definition updateRunStatusRow ::
  "int \<Rightarrow> run_status \<Rightarrow> string option \<Rightarrow> string option \<Rightarrow> int option \<Rightarrow> string option \<Rightarrow> string
   \<Rightarrow> db \<Rightarrow> (goerr + unit) \<times> db" where
  "updateRunStatusRow i status startedAt finishedAt exitCode msg updatedAt d =
     (Inr (), d\<lparr>dbRuns := tUpdate (\<lambda>r. rr_id r = i)
        (setRunStatus status startedAt finishedAt exitCode msg updatedAt) (dbRuns d)\<rparr>)"

text \<open>The guarded update of \<open>ClaimPending\<close>, with the number of rows it changed.\<close>

definition claimRow :: "int \<Rightarrow> string \<Rightarrow> string \<Rightarrow> db \<Rightarrow> (goerr + int) \<times> db" where
  "claimRow i startedAt updatedAt d =
     (let hit = (\<lambda>r. rr_id r = i \<and> rr_status r = RunStatusPending)
      in (Inr (int (length (filter hit (dbRuns d)))),
          d\<lparr>dbRuns := tUpdate hit (\<lambda>r. r\<lparr>rr_status := RunStatusRunning, rr_started_at := Some startedAt,
               rr_updated_at := updatedAt\<rparr>) (dbRuns d)\<rparr>))"

definition updateLogArtifactsRow ::
  "int \<Rightarrow> string option \<Rightarrow> string option \<Rightarrow> string \<Rightarrow> db \<Rightarrow> (goerr + unit) \<times> db" where
  "updateLogArtifactsRow i logPath resultPath updatedAt d =
     (Inr (), d\<lparr>dbRuns := tUpdate (\<lambda>r. rr_id r = i)
        (\<lambda>r. r\<lparr>rr_log_path := logPath, rr_result_path := resultPath, rr_updated_at := updatedAt\<rparr>)
        (dbRuns d)\<rparr>)"

definition runMatches :: "run_filter \<Rightarrow> run_row \<Rightarrow> bool" where
  "runMatches f r \<longleftrightarrow>
     (case rfJobID f of None \<Rightarrow> True | Some i \<Rightarrow> rr_job_id r = i)
     \<and> (case rfStatus f of None \<Rightarrow> True | Some s \<Rightarrow> s = [] \<or> rr_status r = s)
     \<and> (case rfFrom f of None \<Rightarrow> True | Some t \<Rightarrow> encodeTime t \<le> rr_scheduled_at r)
     \<and> (case rfTo f of None \<Rightarrow> True | Some t \<Rightarrow> rr_scheduled_at r \<le> encodeTime t)"

definition selectPending :: "int \<Rightarrow> db \<Rightarrow> run_row list" where
  "selectPending limit d =
     sqlLimit limit (sort_key (\<lambda>r. (rr_scheduled_at r, rr_id r))
       (filter (\<lambda>r. rr_status r = RunStatusPending) (dbRuns d)))"

text \<open>\<open>status IN (...) AND finished_at IS NOT NULL AND finished_at < ?\<close>.\<close>

definition terminalBefore :: "string \<Rightarrow> run_row \<Rightarrow> bool" where
  "terminalBefore before r \<longleftrightarrow> isTerminal (rr_status r)
     \<and> (case rr_finished_at r of None \<Rightarrow> False | Some t \<Rightarrow> t < before)"

definition deleteTerminalBeforeRows :: "string \<Rightarrow> db \<Rightarrow> (goerr + int) \<times> db" where
  "deleteTerminalBeforeRows before d =
     (let gone = filter (terminalBefore before) (dbRuns d)
      in (Inr (int (length gone)),
          d\<lparr>dbRuns := filter (\<lambda>r. \<not> terminalBefore before r) (dbRuns d),
            dbEvents := filter (\<lambda>e. er_run_id e \<notin> rr_id ` set gone) (dbEvents d)\<rparr>))"

section \<open>Methods of RunRepo\<close>

definition runsCreate :: "run \<Rightarrow> run io" where
  "runsCreate run =
     bindIO timeNow (\<lambda>now.
       let run = (if runCreatedAt run = 0 then run\<lparr>runCreatedAt := now\<rparr> else run);
           run = (if runUpdatedAt run = 0 then run\<lparr>runUpdatedAt := now\<rparr> else run)
       in if \<not> runStatusIsValid (runStatus run)
          then failIO (Errorf (''invalid run status: '' @ quoteStr (runStatus run)))
          else bindIO (mapErr (Wrapf ''insert run'') (execDb (insertRun (runRow run))))
                 (\<lambda>i. returnIO (run\<lparr>runID := i\<rparr>)))"

definition runsGet :: "int \<Rightarrow> run io" where
  "runsGet i = queryDb (\<lambda>d. case tFind rr_id i (dbRuns d) of None \<Rightarrow> Inl ErrNoRows | Some r \<Rightarrow> scanRun r)"

definition runsList :: "run_filter \<Rightarrow> page \<Rightarrow> (run list \<times> int) io" where
  "runsList f p =
     (let (limit, offset) = normalize p in
      bindIO (mapErr (Wrapf ''count runs'')
                (queryDb (\<lambda>d. Inr (int (length (filter (runMatches f) (dbRuns d))))))) (\<lambda>total.
      bindIO (mapErr (Wrapf ''list runs'')
                (queryDb (\<lambda>d. Inr (sqlLimit limit (sqlOffset offset
                   (rev (sort_key (\<lambda>r. (rr_scheduled_at r, rr_id r))
                           (filter (runMatches f) (dbRuns d))))))))) (\<lambda>rows.
      bindIO (liftRes (map_res scanRun rows)) (\<lambda>runs. returnIO (runs, total)))))"

definition ListByJob :: "int \<Rightarrow> page \<Rightarrow> (run list \<times> int) io" where
  "ListByJob jobId p = runsList \<lparr>rfJobID = Some jobId, rfStatus = None, rfFrom = None, rfTo = None\<rparr> p"

definition runsUpdate :: "run \<Rightarrow> run io" where
  "runsUpdate run =
     (if runID run \<le> 0 then failIO (Errorf ''run id is required'')
      else if \<not> runStatusIsValid (runStatus run)
      then failIO (Errorf (''invalid run status: '' @ quoteStr (runStatus run)))
      else bindIO timeNow (\<lambda>now.
        let run = run\<lparr>runUpdatedAt := now\<rparr>
        in bindIO (mapErr (Wrapf ''update run'') (execDb (updateRunRow (runID run) (runRow run))))
             (\<lambda>_. returnIO run)))"

definition UpdateStatus ::
  "int \<Rightarrow> run_status \<Rightarrow> time option \<Rightarrow> time option \<Rightarrow> int option \<Rightarrow> string option \<Rightarrow> unit io" where
  "UpdateStatus i status startedAt finishedAt exitCode msg =
     (if \<not> runStatusIsValid status then failIO (Errorf (''invalid run status: '' @ quoteStr status))
      else bindIO timeNow (\<lambda>updatedAt.
        mapErr (Wrapf ''update run status'')
          (execDb (updateRunStatusRow i status (encodeNullableTime startedAt)
             (encodeNullableTime finishedAt) exitCode msg (encodeTime updatedAt)))))"

definition ClaimPending :: "int \<Rightarrow> time \<Rightarrow> bool io" where
  "ClaimPending i startedAt =
     bindIO timeNow (\<lambda>updatedAt.
     bindIO (mapErr (Wrapf ''claim pending run'')
               (execDb (claimRow i (encodeTime startedAt) (encodeTime updatedAt)))) (\<lambda>n.
       returnIO (n = 1)))"

definition UpdateLogArtifacts :: "int \<Rightarrow> string option \<Rightarrow> string option \<Rightarrow> unit io" where
  "UpdateLogArtifacts i logPath resultPath =
     bindIO timeNow (\<lambda>updatedAt.
       mapErr (Wrapf ''update run artifacts'')
         (execDb (updateLogArtifactsRow i logPath resultPath (encodeTime updatedAt))))"

definition ListPending :: "int \<Rightarrow> run list io" where
  "ListPending limit =
     (let limit = (if limit \<le> 0 then 100 else limit) in
      bindIO (mapErr (Wrapf ''list pending runs'') (queryDb (\<lambda>d. Inr (selectPending limit d))))
        (\<lambda>rows. liftRes (map_res scanRun rows)))"

definition ListTerminalBefore :: "time \<Rightarrow> page \<Rightarrow> (run list \<times> int) io" where
  "ListTerminalBefore before p =
     (let (limit, offset) = normalize p; b = encodeTime before in
      bindIO (mapErr (Wrapf ''count terminal runs before cutoff'')
                (queryDb (\<lambda>d. Inr (int (length (filter (terminalBefore b) (dbRuns d))))))) (\<lambda>total.
      bindIO (mapErr (Wrapf ''list terminal runs before cutoff'')
                (queryDb (\<lambda>d. Inr (sqlLimit limit (sqlOffset offset
                   (sort_key (\<lambda>r. (case rr_finished_at r of None \<Rightarrow> [] | Some t \<Rightarrow> t, rr_id r))
                      (filter (terminalBefore b) (dbRuns d)))))))) (\<lambda>rows.
      bindIO (liftRes (map_res scanRun rows)) (\<lambda>runs. returnIO (runs, total)))))"

definition DeleteTerminalBefore :: "time \<Rightarrow> int io" where
  "DeleteTerminalBefore before =
     mapErr (Wrapf ''delete terminal runs before cutoff'')
       (execDb (deleteTerminalBeforeRows (encodeTime before)))"

section \<open>Round trip of a row\<close>

lemma scanRun_runRow: "runTimesOk r \<Longrightarrow> scanRun (runRow r) = Inr r"
  by (simp add: runTimesOk_def scanRun_def runRow_def column_time.dec_enc)

lemma scanRun_Inr:
  "scanRun r = Inr run \<Longrightarrow> runID run = rr_id r \<and> runJobID run = rr_job_id r
     \<and> runStatus run = rr_status r \<and> runAttempt run = rr_attempt r
     \<and> runLogPath run = rr_log_path r \<and> runResultPath run = rr_result_path r
     \<and> runExitCode run = rr_exit_code r \<and> runErrorMessage run = rr_error_message r
     \<and> decodeTime (rr_scheduled_at r) = Inr (runScheduledAt run)
     \<and> decodeNullableTime (rr_started_at r) = Inr (runStartedAt run)
     \<and> decodeNullableTime (rr_finished_at r) = Inr (runFinishedAt run)"
  by (auto simp: scanRun_def bind_ok_Inr)

lemma runRow_simps [simp]:
  "rr_id (runRow r) = runID r" "rr_job_id (runRow r) = runJobID r" "rr_status (runRow r) = runStatus r"
  "rr_attempt (runRow r) = runAttempt r" "rr_scheduled_at (runRow r) = encodeTime (runScheduledAt r)"
  "rr_started_at (runRow r) = encodeNullableTime (runStartedAt r)"
  "rr_finished_at (runRow r) = encodeNullableTime (runFinishedAt r)"
  by (simp_all add: runRow_def)

lemma setRunStatus_simps [simp]:
  "rr_id (setRunStatus s a b c m u r) = rr_id r" "rr_job_id (setRunStatus s a b c m u r) = rr_job_id r"
  "rr_status (setRunStatus s a b c m u r) = s" "rr_attempt (setRunStatus s a b c m u r) = rr_attempt r"
  "rr_scheduled_at (setRunStatus s a b c m u r) = rr_scheduled_at r"
  "rr_started_at (setRunStatus s a b c m u r) = a" "rr_finished_at (setRunStatus s a b c m u r) = b"
  "rr_exit_code (setRunStatus s a b c m u r) = c" "rr_error_message (setRunStatus s a b c m u r) = m"
  "rr_log_path (setRunStatus s a b c m u r) = rr_log_path r"
  "rr_result_path (setRunStatus s a b c m u r) = rr_result_path r"
  "runKey (setRunStatus s a b c m u r) = runKey r"
  by (simp_all add: setRunStatus_def runKey_def)

section \<open>The statements keep the constraints\<close>

lemma dbWf_insertRun:
  assumes "insertRun r d = (Inr i, d')" and "dbWf d" and "runStatusIsValid (rr_status r)"
  shows "dbWf d'"
proof -
  let ?r = "r\<lparr>rr_id := dbRunSeq d + 1\<rparr>"
  have d': "d' = d\<lparr>dbRuns := dbRuns d @ [?r], dbRunSeq := dbRunSeq d + 1\<rparr>"
    and new: "runKey ?r \<notin> runKey ` set (dbRuns d)" and fk: "rr_job_id r \<in> jr_id ` set (dbJobs d)"
    using assms(1) by (auto simp: insertRun_def Let_def runKey_def split: if_splits)
  have fresh: "dbRunSeq d + 1 \<notin> rr_id ` set (dbRuns d)"
    using assms(2) by (force simp: dbWf_def runsWf_def)
  have "runsWf d'"
    using assms(2,3) new fresh fk unfolding d' by (fastforce simp: dbWf_def runsWf_def)
  moreover have "jobsWf d'" "eventsWf d'"
    using assms(2) unfolding d' by (auto simp: dbWf_def jobsWf_def eventsWf_def)
  ultimately show ?thesis using assms(2) unfolding d' by (simp add: dbWf_def)
qed

lemma dbWf_runs_update:
  assumes "dbWf d" and "map rr_id rs = map rr_id (dbRuns d)" and "distinct (map runKey rs)"
    and "\<forall>r\<in>set rs. runStatusIsValid (rr_status r) \<and> rr_job_id r \<in> jr_id ` set (dbJobs d)"
  shows "dbWf (d\<lparr>dbRuns := rs\<rparr>)"
proof -
  have ids: "rr_id ` set rs = rr_id ` set (dbRuns d)" using assms(2) by (metis list.set_map)
  have "0 < rr_id r \<and> rr_id r \<le> dbRunSeq d" if "r \<in> set rs" for r
  proof -
    from that ids obtain k where "k \<in> set (dbRuns d)" "rr_id r = rr_id k" by (metis image_iff)
    with assms(1) show ?thesis by (simp add: dbWf_def runsWf_def)
  qed
  with assms show ?thesis
    by (simp add: dbWf_def jobsWf_def runsWf_def eventsWf_def ids)
qed

text \<open>An update that changes neither the key nor the job of a run, and writes valid statuses.\<close>

lemma dbWf_tUpdate_runs:
  assumes "dbWf d" and "\<And>r. rr_id (f r) = rr_id r" and "\<And>r. runKey (f r) = runKey r"
    and "\<And>r. rr_job_id (f r) = rr_job_id r"
    and "\<And>r. r \<in> set (dbRuns d) \<Longrightarrow> P r \<Longrightarrow> runStatusIsValid (rr_status (f r))"
  shows "dbWf (d\<lparr>dbRuns := tUpdate P f (dbRuns d)\<rparr>)"
proof (rule dbWf_runs_update [OF assms(1)])
  show "map rr_id (tUpdate P f (dbRuns d)) = map rr_id (dbRuns d)" by (rule map_tUpdate) (rule assms)
  show "distinct (map runKey (tUpdate P f (dbRuns d)))"
    using assms(1) by (subst map_tUpdate) (auto simp: assms(3) dbWf_def runsWf_def)
  show "\<forall>r\<in>set (tUpdate P f (dbRuns d)). runStatusIsValid (rr_status r) \<and> rr_job_id r \<in> jr_id ` set (dbJobs d)"
    by (rule ball_tUpdate) (use assms in \<open>auto simp: dbWf_def runsWf_def\<close>)
qed

lemma dbWf_updateRunStatusRow:
  assumes "updateRunStatusRow i s a b c m u d = (Inr x, d')" and "dbWf d" and "runStatusIsValid s"
  shows "dbWf d'"
  using assms by (auto simp: updateRunStatusRow_def intro!: dbWf_tUpdate_runs)

lemma dbWf_claimRow: "claimRow i a u d = (Inr x, d') \<Longrightarrow> dbWf d \<Longrightarrow> dbWf d'"
  by (auto simp: claimRow_def Let_def runKey_def intro!: dbWf_tUpdate_runs)

lemma dbWf_updateLogArtifactsRow: "updateLogArtifactsRow i a b u d = (Inr x, d') \<Longrightarrow> dbWf d \<Longrightarrow> dbWf d'"
  by (auto simp: updateLogArtifactsRow_def runKey_def intro!: dbWf_tUpdate_runs)
     (auto simp: dbWf_def runsWf_def)

lemma dbWf_updateRunRow:
  assumes "updateRunRow i r d = (Inr x, d')" and "dbWf d" and "runStatusIsValid (rr_status r)"
  shows "dbWf d'"
proof (cases "i \<in> rr_id ` set (dbRuns d)")
  case False
  then have same: "tUpdate (\<lambda>s. rr_id s = i) f (dbRuns d) = dbRuns d" for f
    unfolding tUpdate_def by (intro map_idI) auto
  from assms(1) False have "d' = d" unfolding updateRunRow_def same by simp
  with assms(2) show ?thesis by simp
next
  case True
  let ?f = "\<lambda>s. r\<lparr>rr_id := rr_id s, rr_created_at := rr_created_at s\<rparr>"
  let ?rs = "tUpdate (\<lambda>s. rr_id s = i) ?f (dbRuns d)"
  have d': "d' = d\<lparr>dbRuns := ?rs\<rparr>" and fk: "rr_job_id r \<in> jr_id ` set (dbJobs d)"
    and key: "\<forall>s\<in>set (dbRuns d). rr_id s \<noteq> i \<longrightarrow> runKey s \<noteq> runKey r"
    using assms(1) True unfolding updateRunRow_def by (simp_all split: if_splits) blast+
  have kf: "runKey (r\<lparr>rr_id := x, rr_created_at := y\<rparr>) = runKey r" for x y
    by (simp add: runKey_def)
  have keys: "distinct (map runKey ?rs)"
    unfolding tUpdate_def map_map distinct_map
  proof
    show "distinct (dbRuns d)" using assms(2) by (auto simp: dbWf_def runsWf_def distinct_map)
    have inj: "inj_on rr_id (set (dbRuns d))" "inj_on runKey (set (dbRuns d))"
      using assms(2) by (auto simp: dbWf_def runsWf_def distinct_map)
    show "inj_on (runKey \<circ> (\<lambda>s. if rr_id s = i then ?f s else s)) (set (dbRuns d))"
    proof (rule inj_onI)
      fix s t assume st: "s \<in> set (dbRuns d)" "t \<in> set (dbRuns d)"
        and eq: "(runKey \<circ> (\<lambda>s. if rr_id s = i then ?f s else s)) s
               = (runKey \<circ> (\<lambda>s. if rr_id s = i then ?f s else s)) t"
      show "s = t"
      proof (cases "rr_id s = i"; cases "rr_id t = i")
        assume "rr_id s = i" "rr_id t = i"
        with inj(1) st show ?thesis by (simp add: inj_on_def)
      next
        assume si: "rr_id s = i" and ti: "rr_id t \<noteq> i"
        with eq have "runKey r = runKey t" by (simp add: kf)
        moreover from key st(2) ti have "runKey t \<noteq> runKey r" by blast
        ultimately show ?thesis by simp
      next
        assume si: "rr_id s \<noteq> i" and ti: "rr_id t = i"
        with eq have "runKey s = runKey r" by (simp add: kf)
        moreover from key st(1) si have "runKey s \<noteq> runKey r" by blast
        ultimately show ?thesis by simp
      next
        assume "rr_id s \<noteq> i" "rr_id t \<noteq> i"
        with eq have "runKey s = runKey t" by (simp only: o_apply if_False)
        with inj(2) st show ?thesis by (simp only: inj_on_def)
      qed
    qed
  qed
  have ids: "map rr_id ?rs = map rr_id (dbRuns d)" by (rule map_tUpdate) simp
  have valid: "\<forall>r\<in>set ?rs. runStatusIsValid (rr_status r) \<and> rr_job_id r \<in> jr_id ` set (dbJobs d)"
    by (rule ball_tUpdate) (use assms fk in \<open>auto simp: dbWf_def runsWf_def\<close>)
  show ?thesis unfolding d' by (rule dbWf_runs_update [OF assms(2) ids keys valid])
qed

lemma dbWf_deleteTerminalBeforeRows:
  assumes "deleteTerminalBeforeRows b d = (Inr n, d')" and "dbWf d"
  shows "dbWf d'"
proof -
  let ?gone = "filter (terminalBefore b) (dbRuns d)"
  have d': "d' = d\<lparr>dbRuns := filter (\<lambda>r. \<not> terminalBefore b r) (dbRuns d),
      dbEvents := filter (\<lambda>e. er_run_id e \<notin> rr_id ` set ?gone) (dbEvents d)\<rparr>"
    using assms(1) by (simp add: deleteTerminalBeforeRows_def Let_def)
  have "eventsWf d'" using assms(2) unfolding d'
    by (auto simp: dbWf_def eventsWf_def distinct_map_filter image_iff)
  moreover have "runsWf d'" using assms(2) unfolding d'
    by (auto simp: dbWf_def runsWf_def distinct_map_filter)
  ultimately show ?thesis using assms(2) unfolding d' by (simp add: dbWf_def jobsWf_def)
qed

section \<open>The methods keep the constraints\<close>

lemma wf_runsCreate [wf_intros]: "keeps dbWf (runsCreate r)"
  unfolding runsCreate_def Let_def
  by (intro wf_intros wf_execDb) (erule dbWf_insertRun; simp split: if_splits)+

lemma wf_runsUpdate [wf_intros]: "keeps dbWf (runsUpdate r)"
  unfolding runsUpdate_def Let_def
  by (intro wf_intros wf_execDb) (erule dbWf_updateRunRow; simp)+

lemma wf_UpdateStatus [wf_intros]: "keeps dbWf (UpdateStatus i s a b c m)"
  unfolding UpdateStatus_def by (intro wf_intros wf_execDb) (erule dbWf_updateRunStatusRow; simp)+

lemma wf_ClaimPending [wf_intros]: "keeps dbWf (ClaimPending i t)"
  unfolding ClaimPending_def by (intro wf_intros wf_execDb) (rule dbWf_claimRow)

lemma wf_UpdateLogArtifacts [wf_intros]: "keeps dbWf (UpdateLogArtifacts i a b)"
  unfolding UpdateLogArtifacts_def by (intro wf_intros wf_execDb) (rule dbWf_updateLogArtifactsRow)

lemma wf_DeleteTerminalBefore [wf_intros]: "keeps dbWf (DeleteTerminalBefore t)"
  unfolding DeleteTerminalBefore_def
  by (intro wf_intros wf_execDb) (rule dbWf_deleteTerminalBeforeRows)

lemma wf_run_queries [wf_intros]:
  "keeps dbWf (runsGet i)" "keeps dbWf (runsList f p)" "keeps dbWf (ListPending n)"
  "keeps dbWf (ListTerminalBefore t p)"
  unfolding runsGet_def runsList_def ListPending_def ListTerminalBefore_def by (intro wf_intros)+

section \<open>Claiming a run\<close>

text \<open>A run is spent when its id was issued and no row with that id is pending: it was claimed,
  cancelled, finished or deleted. Claiming a spent run changes no row.\<close>

definition spent :: "db \<Rightarrow> int \<Rightarrow> bool" where
  "spent d i \<longleftrightarrow> i \<le> dbRunSeq d \<and> (\<forall>r\<in>set (dbRuns d). rr_id r = i \<longrightarrow> rr_status r \<noteq> RunStatusPending)"

text \<open>The interface of a queue whose items are claimed: a claim succeeds on an item that is not
  spent, and spends it; whatever else happens, a spent item stays spent.\<close>

locale claim_once =
  fixes spentIn :: "'s \<Rightarrow> int \<Rightarrow> bool"
    and claims :: "'s \<Rightarrow> int \<Rightarrow> 's \<Rightarrow> bool"
    and other :: "'s \<Rightarrow> 's \<Rightarrow> bool"
  assumes claim_fresh: "claims s i t \<Longrightarrow> \<not> spentIn s i"
    and claim_spends: "claims s i t \<Longrightarrow> spentIn t i"
    and claim_keeps: "claims s i t \<Longrightarrow> spentIn s j \<Longrightarrow> spentIn t j"
    and other_keeps: "other s t \<Longrightarrow> spentIn s j \<Longrightarrow> spentIn t j"
begin

text \<open>The claims that succeed along a history of claims and other steps.\<close>

inductive history :: "'s \<Rightarrow> int list \<Rightarrow> 's \<Rightarrow> bool" where
  hist_nil: "history s [] s"
| hist_claim: "claims s i t \<Longrightarrow> history t is u \<Longrightarrow> history s (i # is) u"
| hist_other: "other s t \<Longrightarrow> history t is u \<Longrightarrow> history s is u"

lemma history_spent: "history s is u \<Longrightarrow> spentIn s j \<Longrightarrow> spentIn u j \<and> j \<notin> set is"
  by (induction rule: history.induct) (auto dest: claim_fresh claim_keeps other_keeps)

lemma history_claim_snoc: "history s is t \<Longrightarrow> claims t i u \<Longrightarrow> history s (is @ [i]) u"
  by (induction rule: history.induct) (auto intro: history.intros)

lemma history_other_snoc: "history s is t \<Longrightarrow> other t u \<Longrightarrow> history s is u"
  by (induction rule: history.induct) (auto intro: history.intros)

lemma history_distinct: "history s is u \<Longrightarrow> distinct is"
proof (induction rule: history.induct)
  case (hist_claim s i t "is" u)
  then show ?case using history_spent [OF hist_claim.hyps(2)] claim_spends by auto
qed auto

end

definition claimSucceeds :: "db \<Rightarrow> int \<Rightarrow> db \<Rightarrow> bool" where
  "claimSucceeds d i d' \<longleftrightarrow> (\<exists>a u. claimRow i a u d = (Inr 1, d')) \<and> dbWf d"

definition keepsSpent :: "db \<Rightarrow> db \<Rightarrow> bool" where
  "keepsSpent d d' \<longleftrightarrow> (\<forall>i. spent d i \<longrightarrow> spent d' i)"

lemma spent_tUpdate:
  assumes "\<And>r. rr_id (f r) = rr_id r" and "\<And>r. P r \<Longrightarrow> rr_status (f r) = RunStatusPending \<Longrightarrow> rr_status r = RunStatusPending"
    and "spent d i"
  shows "spent (d\<lparr>dbRuns := tUpdate P f (dbRuns d)\<rparr>) i"
  using assms by (auto simp: spent_def set_tUpdate)

lemma claimRow_spent: "claimRow i a u d = (x, d') \<Longrightarrow> spent d j \<Longrightarrow> spent d' j"
  unfolding claimRow_def Let_def
  by (auto intro!: spent_tUpdate)

lemma claimRow_Inr:
  "claimRow i a u d = (Inr n, d') \<longleftrightarrow>
     n = int (length (filter (\<lambda>r. rr_id r = i \<and> rr_status r = RunStatusPending) (dbRuns d)))
     \<and> d' = d\<lparr>dbRuns := tUpdate (\<lambda>r. rr_id r = i \<and> rr_status r = RunStatusPending)
          (\<lambda>r. r\<lparr>rr_status := RunStatusRunning, rr_started_at := Some a, rr_updated_at := u\<rparr>) (dbRuns d)\<rparr>"
  unfolding claimRow_def Let_def by auto

lemma claimRow_pending:
  assumes "claimRow i a u d = (Inr 1, d')"
  obtains r where "r \<in> set (dbRuns d)" and "rr_id r = i" and "rr_status r = RunStatusPending"
proof -
  let ?hit = "\<lambda>r. rr_id r = i \<and> rr_status r = RunStatusPending"
  have "length (filter ?hit (dbRuns d)) = 1" using assms unfolding claimRow_Inr by linarith
  then have "filter ?hit (dbRuns d) \<noteq> []" by (metis list.size(3) zero_neq_one)
  then obtain r where "r \<in> set (filter ?hit (dbRuns d))" by (metis list.set_sel(1))
  then have "r \<in> set (dbRuns d)" "rr_id r = i" "rr_status r = RunStatusPending" by simp_all
  then show thesis by (rule that)
qed

lemma claimRow_spends:
  assumes "claimRow i a u d = (Inr 1, d')" and "dbWf d"
  shows "spent d' i"
proof -
  from claimRow_pending [OF assms(1)] obtain r where "r \<in> set (dbRuns d)" "rr_id r = i" .
  with assms(2) have "i \<le> dbRunSeq d" unfolding dbWf_def runsWf_def by blast
  moreover have "dbRunSeq d' = dbRunSeq d"
    and runs: "dbRuns d' = tUpdate (\<lambda>r. rr_id r = i \<and> rr_status r = RunStatusPending)
      (\<lambda>r. r\<lparr>rr_status := RunStatusRunning, rr_started_at := Some a, rr_updated_at := u\<rparr>) (dbRuns d)"
    using assms(1) unfolding claimRow_Inr by simp_all
  moreover have "\<forall>r\<in>set (dbRuns d'). rr_id r = i \<longrightarrow> rr_status r \<noteq> RunStatusPending"
    unfolding runs set_tUpdate ball_simps(9) by simp
  ultimately show ?thesis unfolding spent_def by simp
qed

lemma claimRow_not_spent: "claimRow i a u d = (Inr 1, d') \<Longrightarrow> \<not> spent d i"
  unfolding spent_def by (elim claimRow_pending) blast

interpretation run_claims: claim_once spent claimSucceeds keepsSpent
  by unfold_locales
    (auto simp: claimSucceeds_def keepsSpent_def
      dest: claimRow_not_spent claimRow_spends claimRow_spent)

text \<open>Every method but \<open>Create\<close> and \<open>Update\<close> leaves spent runs spent; so does a creation, since it
  issues a new id, and an update of the status to anything but pending.\<close>

lemma keepsSpent_preorder: "db_preorder keepsSpent"
  by unfold_locales (auto simp: keepsSpent_def)

interpretation spent_kept: db_preorder keepsSpent
  by (rule keepsSpent_preorder)

section \<open>What a successful method did\<close>

definition stampedRun :: "time \<Rightarrow> run \<Rightarrow> run" where
  "stampedRun now run = run\<lparr>runCreatedAt := (if runCreatedAt run = 0 then now else runCreatedAt run),
     runUpdatedAt := (if runUpdatedAt run = 0 then now else runUpdatedAt run)\<rparr>"

lemma runRow_id: "(runRow r)\<lparr>rr_id := i\<rparr> = runRow (r\<lparr>runID := i\<rparr>)"
  by (simp add: runRow_def)

lemma runsCreate_Inr:
  assumes "runsCreate run w = (Inr r, w')"
  shows "runID r = dbRunSeq (wDb w) + 1"
    and "wDb w' = (wDb w)\<lparr>dbRuns := dbRuns (wDb w) @ [runRow r], dbRunSeq := dbRunSeq (wDb w) + 1\<rparr>"
    and "r = (stampedRun (wClock w (wTicks w)) run)\<lparr>runID := dbRunSeq (wDb w) + 1\<rparr>"
    and "runJobID run \<in> jr_id ` set (dbJobs (wDb w))"
proof -
  let ?run = "stampedRun (wClock w (wTicks w)) run"
  have st: "(let run = (if runCreatedAt run = 0 then run\<lparr>runCreatedAt := now\<rparr> else run);
           run = (if runUpdatedAt run = 0 then run\<lparr>runUpdatedAt := now\<rparr> else run) in f run)
     = f (stampedRun now run)" for now and f :: "run \<Rightarrow> run io"
    by (simp add: stampedRun_def Let_def)
  from assms obtain d i where ins: "insertRun (runRow ?run) (wDb w) = (Inr i, d)"
    and w': "wDb w' = d" and r: "r = ?run\<lparr>runID := i\<rparr>"
    unfolding runsCreate_def st by (auto simp: io_Inr split: if_splits)
  from ins have i: "i = dbRunSeq (wDb w) + 1" and fk: "runJobID ?run \<in> jr_id ` set (dbJobs (wDb w))"
    and d: "d = (wDb w)\<lparr>dbRuns := dbRuns (wDb w) @ [(runRow ?run)\<lparr>rr_id := i\<rparr>], dbRunSeq := i\<rparr>"
    unfolding insertRun_def Let_def by (auto split: if_splits)
  show "runID r = dbRunSeq (wDb w) + 1" "r = ?run\<lparr>runID := dbRunSeq (wDb w) + 1\<rparr>"
    using i r by simp_all
  show "wDb w' = (wDb w)\<lparr>dbRuns := dbRuns (wDb w) @ [runRow r], dbRunSeq := dbRunSeq (wDb w) + 1\<rparr>"
    using d w' i r by (simp add: runRow_id)
  show "runJobID run \<in> jr_id ` set (dbJobs (wDb w))" using fk by (simp add: stampedRun_def)
qed

lemma runsGet_Inr:
  "runsGet i w = (Inr r, w') \<longleftrightarrow> \<not> wFault w (wCalls w) \<and> w' = w\<lparr>wCalls := Suc (wCalls w)\<rparr>
     \<and> (\<exists>q. tFind rr_id i (dbRuns (wDb w)) = Some q \<and> scanRun q = Inr r)"
  by (auto simp: runsGet_def queryDb_Inr split: option.splits)

lemma UpdateStatus_Inr:
  assumes "UpdateStatus i s a b c m w = (Inr u, w')"
  shows "runStatusIsValid s" and "wDb w' = (wDb w)\<lparr>dbRuns := tUpdate (\<lambda>r. rr_id r = i)
    (setRunStatus s (encodeNullableTime a) (encodeNullableTime b) c m (encodeTime (wClock w (wTicks w))))
    (dbRuns (wDb w))\<rparr>"
  using assms by (auto simp: UpdateStatus_def io_Inr updateRunStatusRow_def split: if_splits)

lemma ClaimPending_Inr:
  assumes "ClaimPending i t w = (Inr b, w')"
  shows "\<exists>n. claimRow i (encodeTime t) (encodeTime (wClock w (wTicks w))) (wDb w) = (Inr n, wDb w') \<and> b = (n = 1)"
  using assms by (auto simp: ClaimPending_def io_Inr)

lemma UpdateLogArtifacts_Inr:
  assumes "UpdateLogArtifacts i a b w = (Inr u, w')"
  shows "wDb w' = (wDb w)\<lparr>dbRuns := tUpdate (\<lambda>r. rr_id r = i)
    (\<lambda>r. r\<lparr>rr_log_path := a, rr_result_path := b, rr_updated_at := encodeTime (wClock w (wTicks w))\<rparr>)
    (dbRuns (wDb w))\<rparr>"
  using assms by (auto simp: UpdateLogArtifacts_def io_Inr updateLogArtifactsRow_def)

lemma runsList_Inr:
  assumes "runsList f p w = (Inr (rs, n), w')"
  shows "wDb w' = wDb w" and "n = int (length (filter (runMatches f) (dbRuns (wDb w))))"
    and "map_res scanRun (sqlLimit (fst (normalize p)) (sqlOffset (snd (normalize p))
      (rev (sort_key (\<lambda>r. (rr_scheduled_at r, rr_id r)) (filter (runMatches f) (dbRuns (wDb w))))))) = Inr rs"
  using assms by (auto simp: runsList_def io_Inr split: prod.splits)

lemma ListPending_Inr:
  assumes "ListPending n w = (Inr rs, w')"
  shows "wDb w' = wDb w"
    and "map_res scanRun (selectPending (if n \<le> 0 then 100 else n) (wDb w)) = Inr rs"
  using assms by (auto simp: ListPending_def io_Inr Let_def)

lemma scanRuns_ids: "map_res scanRun xs = Inr rs \<Longrightarrow> map runID rs = map rr_id xs"
  by (induction xs arbitrary: rs) (auto simp: bind_ok_Inr dest: scanRun_Inr)

text \<open>Ids are unique, so the guarded update of a claim changes one row or none.\<close>

lemma filter_id_count:
  "distinct (map rr_id rs) \<Longrightarrow> length (filter (\<lambda>r. rr_id r = i \<and> P r) rs)
     = (if \<exists>r\<in>set rs. rr_id r = i \<and> P r then 1 else 0)"
proof (induction rs)
  case (Cons a rs)
  show ?case
  proof (cases "rr_id a = i \<and> P a")
    case True
    with Cons.prems have "\<forall>r\<in>set rs. rr_id r \<noteq> i" by (auto simp: image_iff)
    then have "filter (\<lambda>r. rr_id r = i \<and> P r) rs = []" by (auto simp: filter_empty_conv)
    with True show ?thesis by simp
  qed (use Cons in auto)
qed simp

end
