(* ===== verification/Event_Repo.thy ===== *)
theory Event_Repo
  imports Run_Repo
begin

text \<open>
  \<open>internal/store/event_repo.go\<close>: the repository of run events. The lemmas show the round trip of a
  row, that an event is only written for a run that exists, that the listing of a run's events
  holds exactly its events in the order of their times, and (last section) that every method of
  the three repositories that the program calls leaves a spent run spent.
\<close>

definition eventRow :: "run_event \<Rightarrow> event_row" where
  "eventRow e = \<lparr>er_id = evID e, er_run_id = evRunID e, er_event_type = evEventType e,
     er_message = evMessage e, er_created_at = encodeTime (evCreatedAt e)\<rparr>"

definition scanRunEvent :: "event_row \<Rightarrow> goerr + run_event" where
  "scanRunEvent r =
     bind_ok (decodeTime (er_created_at r)) (\<lambda>t.
       Inr \<lparr>evID = er_id r, evRunID = er_run_id r, evEventType = er_event_type r,
         evMessage = er_message r, evCreatedAt = t\<rparr>)"

definition insertEvent :: "event_row \<Rightarrow> db \<Rightarrow> (goerr + int) \<times> db" where
  "insertEvent r d =
     (if er_run_id r \<notin> rr_id ` set (dbRuns d) then (Inl ConstraintForeignKey, d)
      else let i = dbEventSeq d + 1
           in (Inr i, d\<lparr>dbEvents := dbEvents d @ [r\<lparr>er_id := i\<rparr>], dbEventSeq := i\<rparr>))"

definition selectEvents :: "int \<Rightarrow> db \<Rightarrow> event_row list" where
  "selectEvents i d =
     sort_key (\<lambda>r. (er_created_at r, er_id r)) (filter (\<lambda>r. er_run_id r = i) (dbEvents d))"

definition eventsCreate :: "run_event \<Rightarrow> run_event io" where
  "eventsCreate event =
     (if \<not> eventTypeIsValid (evEventType event)
      then failIO (Errorf (''invalid run event type: '' @ quoteStr (evEventType event)))
      else bindIO (if evCreatedAt event = 0
                   then bindIO timeNow (\<lambda>now. returnIO (event\<lparr>evCreatedAt := now\<rparr>))
                   else returnIO event) (\<lambda>event.
           bindIO (mapErr (Wrapf ''insert run event'') (execDb (insertEvent (eventRow event))))
             (\<lambda>i. returnIO (event\<lparr>evID := i\<rparr>))))"

definition ListByRun :: "int \<Rightarrow> run_event list io" where
  "ListByRun runId =
     bindIO (mapErr (Wrapf ''list run events'') (queryDb (\<lambda>d. Inr (selectEvents runId d))))
       (\<lambda>rows. liftRes (map_res scanRunEvent rows))"

section \<open>Round trip and constraints\<close>

lemma eventRow_simps [simp]:
  "er_id (eventRow e) = evID e" "er_run_id (eventRow e) = evRunID e"
  "er_event_type (eventRow e) = evEventType e" "er_message (eventRow e) = evMessage e"
  "er_created_at (eventRow e) = encodeTime (evCreatedAt e)"
  by (simp_all add: eventRow_def)

lemma scanRunEvent_eventRow: "timeOk (evCreatedAt e) \<Longrightarrow> scanRunEvent (eventRow e) = Inr e"
  by (simp add: scanRunEvent_def column_time.dec_enc)

lemma insertEvent_Inr:
  "insertEvent r d = (Inr i, d') \<longleftrightarrow> er_run_id r \<in> rr_id ` set (dbRuns d) \<and> i = dbEventSeq d + 1
     \<and> d' = d\<lparr>dbEvents := dbEvents d @ [r\<lparr>er_id := i\<rparr>], dbEventSeq := i\<rparr>"
  by (auto simp: insertEvent_def Let_def)

lemma dbWf_insertEvent:
  assumes "insertEvent r d = (Inr i, d')" and "dbWf d" and "eventTypeIsValid (er_event_type r)"
  shows "dbWf d'"
proof -
  have fk: "er_run_id r \<in> rr_id ` set (dbRuns d)" and i: "i = dbEventSeq d + 1"
    and d': "d' = d\<lparr>dbEvents := dbEvents d @ [r\<lparr>er_id := i\<rparr>], dbEventSeq := i\<rparr>"
    using assms(1) by (simp_all add: insertEvent_Inr)
  have fresh: "i \<notin> er_id ` set (dbEvents d)" using assms(2) i by (force simp: dbWf_def eventsWf_def)
  have "eventsWf d'"
    using assms(2,3) fk fresh i unfolding d' by (fastforce simp: dbWf_def eventsWf_def)
  moreover have "jobsWf d'" "runsWf d'"
    using assms(2) unfolding d' by (simp_all add: dbWf_def jobsWf_def runsWf_def)
  ultimately show ?thesis using assms(2) i unfolding d' by (simp add: dbWf_def)
qed

lemma wf_eventsCreate [wf_intros]: "keeps dbWf (eventsCreate e)"
  unfolding eventsCreate_def
proof (intro wf_kept.obeys_if wf_kept.obeys_failIO)
  assume valid: "\<not> \<not> eventTypeIsValid (evEventType e)"
  have set_time: "bindIO (if b then bindIO timeNow (\<lambda>now. returnIO (e\<lparr>evCreatedAt := now\<rparr>)) else returnIO e) f
    = (if b then bindIO timeNow (\<lambda>now. f (e\<lparr>evCreatedAt := now\<rparr>)) else f e)"
    for b and f :: "run_event \<Rightarrow> run_event io"
    by (rule ext) (simp add: bindIO_def returnIO_def timeNow_def)
  show "keeps dbWf (bindIO (if evCreatedAt e = 0
                   then bindIO timeNow (\<lambda>now. returnIO (e\<lparr>evCreatedAt := now\<rparr>))
                   else returnIO e) (\<lambda>event.
           bindIO (mapErr (Wrapf ''insert run event'') (execDb (insertEvent (eventRow event))))
             (\<lambda>i. returnIO (event\<lparr>evID := i\<rparr>))))"
    unfolding set_time using valid
    by (intro wf_intros wf_execDb) (erule dbWf_insertEvent; simp)+
qed

lemma wf_ListByRun [wf_intros]: "keeps dbWf (ListByRun i)"
  unfolding ListByRun_def by (intro wf_intros)

lemma selectEvents_set: "r \<in> set (selectEvents i d) \<longleftrightarrow> r \<in> set (dbEvents d) \<and> er_run_id r = i"
  by (simp add: selectEvents_def)

lemma selectEvents_sorted: "sorted (map (\<lambda>r. (er_created_at r, er_id r)) (selectEvents i d))"
  by (simp add: selectEvents_def)

definition stampedEvent :: "time \<Rightarrow> run_event \<Rightarrow> run_event" where
  "stampedEvent now e = e\<lparr>evCreatedAt := (if evCreatedAt e = 0 then now else evCreatedAt e)\<rparr>"

lemma eventRow_id: "(eventRow e)\<lparr>er_id := i\<rparr> = eventRow (e\<lparr>evID := i\<rparr>)"
  by (simp add: eventRow_def)

lemma eventsCreate_Inr:
  assumes "eventsCreate event w = (Inr e, w')"
  shows "evID e = dbEventSeq (wDb w) + 1"
    and "wDb w' = (wDb w)\<lparr>dbEvents := dbEvents (wDb w) @ [eventRow e], dbEventSeq := dbEventSeq (wDb w) + 1\<rparr>"
    and "e = (stampedEvent (wClock w (wTicks w)) event)\<lparr>evID := dbEventSeq (wDb w) + 1\<rparr>"
    and "evRunID event \<in> rr_id ` set (dbRuns (wDb w))"
proof -
  let ?e = "stampedEvent (wClock w (wTicks w)) event"
  from assms obtain d i where ins: "insertEvent (eventRow ?e) (wDb w) = (Inr i, d)"
    and w': "wDb w' = d" and e: "e = ?e\<lparr>evID := i\<rparr>"
    by (auto simp: eventsCreate_def io_Inr stampedEvent_def split: if_splits)
  from ins have i: "i = dbEventSeq (wDb w) + 1" and fk: "evRunID ?e \<in> rr_id ` set (dbRuns (wDb w))"
    and d: "d = (wDb w)\<lparr>dbEvents := dbEvents (wDb w) @ [(eventRow ?e)\<lparr>er_id := i\<rparr>], dbEventSeq := i\<rparr>"
    by (simp_all add: insertEvent_Inr)
  show "evID e = dbEventSeq (wDb w) + 1" "e = ?e\<lparr>evID := dbEventSeq (wDb w) + 1\<rparr>"
    using i e by simp_all
  show "wDb w' = (wDb w)\<lparr>dbEvents := dbEvents (wDb w) @ [eventRow e], dbEventSeq := dbEventSeq (wDb w) + 1\<rparr>"
    using d w' i e by (simp add: eventRow_id)
  show "evRunID event \<in> rr_id ` set (dbRuns (wDb w))" using fk by (simp add: stampedEvent_def)
qed

section \<open>Which operations leave spent runs spent\<close>

named_theorems spent_intros \<open>operations that leave spent runs spent\<close>

declare spent_kept.obeys_intros [spent_intros]

lemma spent_execDb:
  "(\<And>d x d' i. f d = (Inr x, d') \<Longrightarrow> spent d i \<Longrightarrow> spent d' i) \<Longrightarrow> obeys keepsSpent (execDb f)"
  by (rule spent_kept.obeys_execDb) (auto simp: keepsSpent_def)

text \<open>A statement that leaves the table of runs alone, or drops rows of it.\<close>

lemma spent_frame:
  "dbRunSeq d' = dbRunSeq d \<Longrightarrow> set (dbRuns d') \<subseteq> set (dbRuns d) \<Longrightarrow> spent d i \<Longrightarrow> spent d' i"
  by (auto simp: spent_def)

lemma spent_insertRun: "insertRun r d = (Inr x, d') \<Longrightarrow> spent d i \<Longrightarrow> spent d' i"
  by (auto simp: insertRun_def Let_def spent_def split: if_splits)

lemma spent_updateRunStatusRow:
  "updateRunStatusRow j s a b c m u d = (Inr x, d') \<Longrightarrow> s \<noteq> RunStatusPending \<Longrightarrow> spent d i \<Longrightarrow> spent d' i"
  by (auto simp: updateRunStatusRow_def intro!: spent_tUpdate)

lemma spent_updateLogArtifactsRow:
  "updateLogArtifactsRow j a b u d = (Inr x, d') \<Longrightarrow> spent d i \<Longrightarrow> spent d' i"
  by (auto simp: updateLogArtifactsRow_def intro!: spent_tUpdate)

lemma spent_statements:
  "insertJob r d = (Inr i, d') \<Longrightarrow> spent d k \<Longrightarrow> spent d' k"
  "updateJobRow i r d = (Inr u, d') \<Longrightarrow> spent d k \<Longrightarrow> spent d' k"
  "deleteJobRow i d = (Inr u, d') \<Longrightarrow> spent d k \<Longrightarrow> spent d' k"
  "updateJobScheduling i a b c d = (Inr u, d') \<Longrightarrow> spent d k \<Longrightarrow> spent d' k"
  "deleteTerminalBeforeRows s d = (Inr i, d') \<Longrightarrow> spent d k \<Longrightarrow> spent d' k"
  "insertEvent e d = (Inr i, d') \<Longrightarrow> spent d k \<Longrightarrow> spent d' k"
  by (auto simp: insertJob_def updateJobRow_def deleteJobRow_def updateJobScheduling_def
      deleteTerminalBeforeRows_def insertEvent_def Let_def elim!: spent_frame [rotated 2] split: if_splits)

lemma spent_methods [spent_intros]:
  "obeys keepsSpent (jobsCreate j)" "obeys keepsSpent (jobsGet i)" "obeys keepsSpent (jobsList f p)"
  "obeys keepsSpent (jobsUpdate j)" "obeys keepsSpent (jobsDelete i)"
  "obeys keepsSpent (UpdateScheduling i a b)" "obeys keepsSpent (ListDue t)"
  "obeys keepsSpent (runsCreate r)" "obeys keepsSpent (runsGet i)" "obeys keepsSpent (runsList g p)"
  "obeys keepsSpent (UpdateLogArtifacts i c e)" "obeys keepsSpent (ListPending n)"
  "obeys keepsSpent (ListTerminalBefore t p)" "obeys keepsSpent (DeleteTerminalBefore t)"
  "obeys keepsSpent (eventsCreate v)" "obeys keepsSpent (ListByRun i)"
  unfolding jobsCreate_def jobsGet_def jobsList_def jobsUpdate_def jobsDelete_def UpdateScheduling_def
    ListDue_def runsCreate_def runsGet_def runsList_def UpdateLogArtifacts_def ListPending_def
    ListTerminalBefore_def DeleteTerminalBefore_def eventsCreate_def ListByRun_def Let_def
  by (intro spent_intros spent_execDb; (erule spent_insertRun spent_updateLogArtifactsRow spent_statements; assumption)?)+

lemma spent_UpdateStatus [spent_intros]:
  "s \<noteq> RunStatusPending \<Longrightarrow> obeys keepsSpent (UpdateStatus i s a b c m)"
  unfolding UpdateStatus_def
  by (intro spent_intros spent_execDb) (erule spent_updateRunStatusRow; assumption)

text \<open>A claim of a run, and the claim of any other run, leave spent runs spent.\<close>

lemma spent_ClaimPending [spent_intros]: "obeys keepsSpent (ClaimPending i t)"
  unfolding ClaimPending_def
  by (intro spent_intros spent_execDb) (erule claimRow_spent)

end
