(* ===== verification/World_Rel.thy ===== *)
theory World_Rel
  imports Job_Repo Run_Repo Event_Repo
begin

text \<open>
  Relations between the world before and after an operation. A relation between databases (locale
  \<open>db_preorder\<close>) is a special case; another is \<open>reading\<close>, the relation of whatever only reads. The
  locale carries a relation through the combinators, as \<open>db_preorder\<close> does for those on databases.
\<close>

definition follows :: "(world \<Rightarrow> world \<Rightarrow> bool) \<Rightarrow> 'a io \<Rightarrow> bool" where
  "follows W m \<longleftrightarrow> (\<forall>w. W w (snd (m w)))"

locale world_preorder =
  fixes W :: "world \<Rightarrow> world \<Rightarrow> bool"
  assumes world_refl: "W w w"
    and world_trans: "W u v \<Longrightarrow> W v w \<Longrightarrow> W u w"
begin

lemma follows_returnIO: "follows W (returnIO x)" and follows_failIO: "follows W (failIO e)"
  and follows_liftRes: "follows W (liftRes r)"
  by (simp_all add: follows_def returnIO_def failIO_def liftRes_def world_refl)

lemma follows_bindIO:
  assumes "follows W m" and "\<And>x. follows W (f x)"
  shows "follows W (bindIO m f)"
  unfolding follows_def
proof
  fix w
  obtain r w1 where m: "m w = (r, w1)" by force
  have "W w w1" using assms(1) m by (metis follows_def snd_conv)
  moreover have "W w1 (snd (f x w1))" for x using assms(2) by (simp add: follows_def)
  ultimately show "W w (snd (bindIO m f w))"
    using world_trans by (cases r) (auto simp: bindIO_def m)
qed

lemma follows_mapErr: "follows W m \<Longrightarrow> follows W (mapErr g m)"
  unfolding follows_def mapErr_def by (auto split: prod.splits sum.splits) (metis snd_conv)+

lemma follows_tryIO: "follows W m \<Longrightarrow> follows W (tryIO m)"
  unfolding follows_def tryIO_def by (auto split: prod.splits) (metis snd_conv)

lemma follows_cases:
  "follows W m \<Longrightarrow> follows W n \<Longrightarrow> follows W (if b then m else n)"
  "follows W m \<Longrightarrow> (\<And>x. follows W (f x)) \<Longrightarrow> follows W (case v of None \<Rightarrow> m | Some x \<Rightarrow> f x)"
  "(\<And>e. follows W (g e)) \<Longrightarrow> (\<And>x. follows W (f x)) \<Longrightarrow> follows W (case s of Inl e \<Rightarrow> g e | Inr x \<Rightarrow> f x)"
  "(\<And>a b. follows W (h a b)) \<Longrightarrow> follows W (case q of (a, b) \<Rightarrow> h a b)"
  by (simp, cases v, simp_all, cases s, simp_all, cases q, simp)

lemmas follows_intros = follows_returnIO follows_failIO follows_liftRes follows_bindIO follows_mapErr
  follows_tryIO follows_cases

end

lemma obeys_from: "obeys R m \<Longrightarrow> m w = (r, w') \<Longrightarrow> R (wDb w) (wDb w')"
  by (metis obeys_def snd_conv)

section \<open>Reading\<close>

text \<open>The database, the clock and the faults to come are the same; calls to the driver and readings of
  the clock are used up, and a wakeup may be received or sent.\<close>

definition reading :: "world \<Rightarrow> world \<Rightarrow> bool" where
  "reading w w' \<longleftrightarrow> wDb w' = wDb w \<and> wClock w' = wClock w \<and> wFault w' = wFault w
     \<and> wTicks w \<le> wTicks w' \<and> wCalls w \<le> wCalls w'"

interpretation reads: world_preorder reading
  by unfold_locales (auto simp: reading_def)

named_theorems reading_intros \<open>operations that only read\<close>

declare reads.follows_intros [reading_intros]

lemma reading_timeNow [reading_intros]: "follows reading timeNow"
  and reading_queryDb [reading_intros]: "follows reading (queryDb q)"
  and reading_Notify [reading_intros]: "follows reading NotifyDueJob" "follows reading NotifyDispatch"
  by (auto simp: follows_def reading_def timeNow_def queryDb_def execDb_def Let_def NotifyDueJob_def
      NotifyDispatch_def split: sum.split)

lemma reading_methods [reading_intros]:
  "follows reading (jobsGet i)" "follows reading (jobsList f p)" "follows reading (ListDue t)"
  "follows reading (runsGet i)" "follows reading (runsList g p)" "follows reading (ListPending n)"
  "follows reading (ListTerminalBefore t p)" "follows reading (ListByRun i)"
  unfolding jobsGet_def jobsList_def ListDue_def runsGet_def runsList_def ListPending_def ListTerminalBefore_def
    ListByRun_def Let_def
  by (intro reading_intros)+

lemma reading_from: "follows reading m \<Longrightarrow> m w = (r, w') \<Longrightarrow> reading w w'"
  by (metis follows_def snd_conv)

end
