(* ===== verification/Go_Net.thy ===== *)
theory Go_Net
  imports Go_Strings
begin

text \<open>
  \<open>net.ParseIP\<close> and \<open>IP.IsLoopback\<close>, which \<open>internal/config/security.go\<close> uses, over the four or
  sixteen bytes of an address. Zones are refused, as \<open>net.ParseIP\<close> refuses them.
\<close>

definition hexVal :: "char \<Rightarrow> nat option" where
  "hexVal c =
     (let n = (of_char c :: nat) in
      if 48 \<le> n \<and> n \<le> 57 then Some (n - 48) else if 97 \<le> n \<and> n \<le> 102 then Some (n - 87)
      else if 65 \<le> n \<and> n \<le> 70 then Some (n - 55) else None)"

text \<open>A field of dotted decimal: one to three digits, no leading zero, at most 255.\<close>

definition parseOctet :: "string \<Rightarrow> nat option" where
  "parseOctet s =
     (if s = [] \<or> \<not> list_all isDigit s \<or> (1 < length s \<and> hd s = CHR ''0'') \<or> 255 < digitsVal s
      then None else Some (digitsVal s))"

definition parseIPv4 :: "string \<Rightarrow> nat list option" where
  "parseIPv4 s =
     (let fs = map parseOctet (splitChar (CHR ''.'') s)
      in if length fs = 4 \<and> list_all (\<lambda>f. f \<noteq> None) fs then Some (map the fs) else None)"

definition hexRun :: "string \<Rightarrow> string" where
  "hexRun s = takeWhile (\<lambda>c. hexVal c \<noteq> None) s"

definition hexWord :: "string \<Rightarrow> nat" where
  "hexWord s = foldl (\<lambda>a c. 16 * a + the (hexVal c)) 0 s"

text \<open>The loop of \<open>parseIPv6\<close>: the bytes read so far, the position of the ellipsis, the rest of
  the text, and what is left to parse when it stops. Each turn adds at least two bytes, so eight
  turns reach the sixteen bytes at which the loop ends.\<close>

fun ipv6Loop :: "nat \<Rightarrow> nat list \<Rightarrow> nat option \<Rightarrow> string \<Rightarrow> (nat list \<times> nat option \<times> string) option" where
  "ipv6Loop 0 ip ell s = Some (ip, ell, s)"
| "ipv6Loop (Suc fuel) ip ell s =
     (if 16 \<le> length ip then Some (ip, ell, s)
      else let h = hexRun s; r = drop (length h) s in
        if h = [] \<or> 4 < length h then None
        else if r \<noteq> [] \<and> hd r = CHR ''.''
        then (if (ell = None \<and> length ip \<noteq> 12) \<or> 16 < length ip + 4 then None
              else map_option (\<lambda>v4. (ip @ v4, ell, [])) (parseIPv4 s))
        else let ip = ip @ [hexWord h div 256, hexWord h mod 256] in
          if r = [] then Some (ip, ell, [])
          else if hd r \<noteq> CHR '':'' \<or> length r = 1 then None
          else let r = tl r in
            if hd r = CHR '':''
            then (if ell \<noteq> None then None
                  else if tl r = [] then Some (ip, Some (length ip), [])
                  else ipv6Loop fuel ip (Some (length ip)) (tl r))
            else ipv6Loop fuel ip ell r)"

definition parseIPv6 :: "string \<Rightarrow> nat list option" where
  "parseIPv6 s =
     (let (ell, s) = (if hasPrefix s ''::'' then (Some 0, drop 2 s) else (None, s))
      in if ell = Some 0 \<and> s = [] then Some (replicate 16 0)
         else case ipv6Loop 8 [] ell s of None \<Rightarrow> None
         | Some (ip, ell, rest) \<Rightarrow>
             if rest \<noteq> [] then None
             else if length ip < 16
             then (case ell of None \<Rightarrow> None
                   | Some e \<Rightarrow> Some (take e ip @ replicate (16 - length ip) 0 @ drop e ip))
             else if ell \<noteq> None then None else Some ip)"

text \<open>The first of the characters \<open>.\<close>, \<open>:\<close> and \<open>%\<close> decides the form.\<close>

definition parseIP :: "string \<Rightarrow> nat list option" where
  "parseIP s =
     (case find (\<lambda>c. c = CHR ''.'' \<or> c = CHR '':'' \<or> c = CHR ''%'') s of
        None \<Rightarrow> None
      | Some c \<Rightarrow> if c = CHR ''.'' then parseIPv4 s
          else if c = CHR ''%'' \<or> CHR ''%'' \<in> set s then None else parseIPv6 s)"

definition to4 :: "nat list \<Rightarrow> nat list option" where
  "to4 ip =
     (if length ip = 4 then Some ip
      else if length ip = 16 \<and> take 12 ip = replicate 10 0 @ [255, 255] then Some (drop 12 ip)
      else None)"

definition isLoopback :: "nat list \<Rightarrow> bool" where
  "isLoopback ip =
     (case to4 ip of Some v4 \<Rightarrow> v4 ! 0 = 127 | None \<Rightarrow> ip = replicate 15 0 @ [1])"

lemma parseOctet_le: "parseOctet s = Some n \<Longrightarrow> n \<le> 255"
  by (auto simp: parseOctet_def split: if_splits)

lemma parseIPv4_length: "parseIPv4 s = Some ip \<Longrightarrow> length ip = 4 \<and> (\<forall>b\<in>set ip. b \<le> 255)"
  by (auto simp: parseIPv4_def Let_def list_all_iff split: if_splits) (metis option.sel parseOctet_le)

lemma ipv6Loop_length:
  "ipv6Loop fuel ip ell s = Some (ip', ell', r) \<Longrightarrow> length ip \<le> 16 \<Longrightarrow> even (length ip) \<Longrightarrow> length ip' \<le> 16"
proof (induction fuel arbitrary: ip ell s)
  case (Suc fuel)
  have room: "length ip \<le> 14" if "length ip \<le> 16" "length ip \<noteq> 16"
    using Suc.prems(3) that by presburger
  have step: "length ip' \<le> 16" if "ipv6Loop fuel (ip @ [a, b]) e t = Some (ip', ell', r)"
      "length ip \<le> 16" "length ip \<noteq> 16"
    for a b e t
    using Suc.IH [OF that(1)] room [OF that(2,3)] Suc.prems(3) by simp
  from Suc.prems(1,2) show ?case
    by (auto simp: Let_def not_le split: if_split_asm dest: parseIPv4_length step intro: room)
qed simp

lemma parseIP_length: "parseIP s = Some ip \<Longrightarrow> length ip = 4 \<or> length ip = 16"
  by (auto simp: parseIP_def parseIPv6_def Let_def split: option.splits if_splits prod.splits
      dest: parseIPv4_length ipv6Loop_length)

end
