(* ===== verification/Config.thy ===== *)
theory Config
  imports Model Go_Net
begin

text \<open>
  Package \<open>internal/config\<close>: the configuration records, \<open>Validate\<close> with its guards in the order
  of the source, the defaults \<open>LoadConfig\<close> sets, and \<open>RequiresExternalProtection\<close>. The lemmas
  characterise the configurations \<open>Validate\<close> accepts.
\<close>

section \<open>Floating point\<close>

text \<open>A \<open>float64\<close> is given by the shortest decimal that identifies it, \<open>Decimal neg m e\<close> for
  \<open>m\<close> times ten to the power \<open>e\<close>. The program compares floats with zero and prints them.\<close>

datatype float64 = NaN | Infinity bool | Decimal bool nat int

fun floatLessZero :: "float64 \<Rightarrow> bool" where
  "floatLessZero NaN = False"
| "floatLessZero (Infinity neg) = neg"
| "floatLessZero (Decimal neg m e) = (neg \<and> m \<noteq> 0)"

fun floatGreaterZero :: "float64 \<Rightarrow> bool" where
  "floatGreaterZero NaN = False"
| "floatGreaterZero (Infinity neg) = (\<not> neg)"
| "floatGreaterZero (Decimal neg m e) = (\<not> neg \<and> m \<noteq> 0)"

text \<open>\<open>strconv.FormatFloat(x, 'f', -1, 64)\<close>.\<close>

fun formatFloat :: "float64 \<Rightarrow> string" where
  "formatFloat NaN = ''NaN''"
| "formatFloat (Infinity neg) = (if neg then ''-Inf'' else ''+Inf'')"
| "formatFloat (Decimal neg m e) =
     (let ds = natDigits m; k = nat (- e);
          body = (if 0 \<le> e then (if m = 0 then ds else ds @ replicate (nat e) (CHR ''0''))
                  else if length ds \<le> k
                  then ''0.'' @ replicate (k - length ds) (CHR ''0'') @ ds
                  else take (length ds - k) ds @ ''.'' @ drop (length ds - k) ds)
      in if neg then CHR ''-'' # body else body)"

section \<open>The records of config.go\<close>

record server_config =
  Port :: int
  Host :: string

record store_config =
  SQLitePath :: string
  LogRoot :: string
  ArtifactRoot :: string
  LogPathPattern :: string
  ResultPathPattern :: string

record scheduler_config =
  DueJobScanIntervalSec :: int
  DispatchScanIntervalSec :: int
  MaxConcurrentRuns :: int
  DefaultTimeoutSec :: int
  MaxTimeoutSec :: int
  AllowUnlimitedTimeout :: bool

record image_remote_config =
  Endpoint :: string
  Insecure :: bool

record image_config =
  AllowedSources :: "string list"
  DefaultSource :: string
  PullPolicy :: string
  AllowedPrefixes :: "string list"
  Remote :: image_remote_config

record executor_config =
  NetworkMode :: string
  ReadOnlyRootFS :: bool
  MemoryLimitMB :: int
  CPULimit :: float64
  CleanupContainers :: bool
  StopGracePeriodSec :: int
  OrphanRecoveryOnStartup :: bool

record retention_config =
  RetEnabled :: bool
  PruneIntervalSec :: int
  RunHistoryDays :: int
  SuccessLogDays :: int
  FailedLogDays :: int
  ArtifactDays :: int
  MaxLogBytesPerRun :: int
  MaxTotalStorageBytes :: int

record config =
  Server :: server_config
  StoreCfg :: store_config
  SchedulerCfg :: scheduler_config
  ImageCfg :: image_config
  ExecutorCfg :: executor_config
  RetentionCfg :: retention_config

section \<open>validate.go\<close>

definition containsString :: "string list \<Rightarrow> string \<Rightarrow> bool" where
  "containsString values target \<longleftrightarrow> (\<exists>v\<in>set values. v = target)"

definition validSource :: "string \<Rightarrow> bool" where
  "validSource s \<longleftrightarrow> s \<in> set [''local'', ''remote'']"

definition validPullPolicy :: "string \<Rightarrow> bool" where
  "validPullPolicy s \<longleftrightarrow> s \<in> set [''always'', ''if_not_present'', ''never'']"

text \<open>The loop over the allowed sources returns at the first that is unsupported.\<close>

fun checkSources :: "string list \<Rightarrow> goerr + unit" where
  "checkSources [] = Inr ()"
| "checkSources (s # ss) =
     (if \<not> validSource s then Inl (Errorf (''unsupported image allowed_source: '' @ quoteStr s))
      else checkSources ss)"

definition Validate :: "config \<Rightarrow> goerr + unit" where
  "Validate c =
     (let srv = Server c; st = StoreCfg c; sch = SchedulerCfg c; img = ImageCfg c;
          ex = ExecutorCfg c; ret = RetentionCfg c
      in bind_ok (firstErr [
          (Port srv \<le> 0 \<or> 65535 < Port srv, Errorf (''invalid server port: '' @ itoa (Port srv))),
          (Host srv = [], Errorf ''server host is required''),
          (SQLitePath st = [], Errorf ''store sqlite_path is required''),
          (LogRoot st = [], Errorf ''store log_root is required''),
          (ArtifactRoot st = [], Errorf ''store artifact_root is required''),
          (DueJobScanIntervalSec sch \<le> 0, Errorf ''scheduler due_job_scan_interval_sec must be > 0''),
          (DispatchScanIntervalSec sch \<le> 0, Errorf ''scheduler dispatch_scan_interval_sec must be > 0''),
          (MaxConcurrentRuns sch \<le> 0, Errorf ''scheduler max_concurrent_runs must be > 0''),
          (DefaultTimeoutSec sch < 0, Errorf ''scheduler default_timeout_sec must be >= 0''),
          (DefaultTimeoutSec sch = 0 \<and> \<not> AllowUnlimitedTimeout sch,
             Errorf ''scheduler default_timeout_sec must be > 0 unless allow_unlimited_timeout is true''),
          (MaxTimeoutSec sch \<le> 0, Errorf ''scheduler max_timeout_sec must be > 0''),
          (MaxTimeoutSec sch < DefaultTimeoutSec sch,
             Errorf ''scheduler default_timeout_sec must be <= max_timeout_sec''),
          (AllowedSources img = [], Errorf ''image allowed_sources is required''),
          (DefaultSource img = [], Errorf ''image default_source is required''),
          (PullPolicy img = [], Errorf ''image pull_policy is required'')]) (\<lambda>_.
        bind_ok (checkSources (AllowedSources img)) (\<lambda>_.
        firstErr [
          (\<not> validSource (DefaultSource img),
             Errorf (''unsupported image default_source: '' @ quoteStr (DefaultSource img))),
          (\<not> containsString (AllowedSources img) (DefaultSource img),
             Errorf (''default_source '' @ quoteStr (DefaultSource img) @ '' must be included in allowed_sources'')),
          (\<not> validPullPolicy (toLower (PullPolicy img)),
             Errorf (''unsupported image pull_policy: '' @ quoteStr (PullPolicy img))),
          ((containsString (AllowedSources img) ''remote'' \<or> DefaultSource img = ''remote'')
             \<and> Endpoint (Remote img) = [],
             Errorf ''image remote.endpoint is required when remote source is enabled''),
          (toLower (trimSpace (NetworkMode ex)) \<notin> set [[], ''bridge'', ''none''],
             Errorf (''unsupported executor network_mode: '' @ quoteStr (NetworkMode ex))),
          (MemoryLimitMB ex < 0, Errorf ''executor memory_limit_mb must be >= 0''),
          (floatLessZero (CPULimit ex), Errorf ''executor cpu_limit must be >= 0''),
          (StopGracePeriodSec ex < 0, Errorf ''executor stop_grace_period_sec must be >= 0''),
          (PruneIntervalSec ret \<le> 0, Errorf ''retention prune_interval_sec must be > 0''),
          (RunHistoryDays ret < 0, Errorf ''retention run_history_days must be >= 0''),
          (SuccessLogDays ret < 0, Errorf ''retention success_log_days must be >= 0''),
          (FailedLogDays ret < 0, Errorf ''retention failed_log_days must be >= 0''),
          (ArtifactDays ret < 0, Errorf ''retention artifact_days must be >= 0''),
          (MaxLogBytesPerRun ret < 0, Errorf ''retention max_log_bytes_per_run must be >= 0''),
          (MaxTotalStorageBytes ret < 0, Errorf ''retention max_total_storage_bytes must be >= 0'')])))"

section \<open>loader.go: the defaults\<close>

text \<open>What viper read for the eight keys \<open>LoadConfig\<close> sets a default for; \<open>None\<close> is a key the
  file leaves out. Every other key has Go's zero value when it is left out.\<close>

record config_file =
  cfDefaultTimeoutSec :: "int option"
  cfMaxTimeoutSec :: "int option"
  cfAllowUnlimitedTimeout :: "bool option"
  cfCleanupContainers :: "bool option"
  cfStopGracePeriodSec :: "int option"
  cfOrphanRecoveryOnStartup :: "bool option"
  cfRetentionEnabled :: "bool option"
  cfPruneIntervalSec :: "int option"

definition orDefault :: "'a option \<Rightarrow> 'a \<Rightarrow> 'a" where
  "orDefault v d = (case v of None \<Rightarrow> d | Some x \<Rightarrow> x)"

text \<open>\<open>readFile path\<close> is viper's reading of \<open>config.yaml\<close> under \<open>path\<close>: an error of the reading, an
  error of the decoding, or the decoded configuration with the presence of the defaulted keys.\<close>

definition LoadConfig ::
  "(string \<Rightarrow> goerr + (goerr + config \<times> config_file)) \<Rightarrow> string \<Rightarrow> goerr + config" where
  "LoadConfig readFile path =
     (case readFile path of
        Inl e \<Rightarrow> Inl (Wrapf ''error reading config file'' e)
      | Inr (Inl e) \<Rightarrow> Inl (Wrapf ''error unmarshaling config'' e)
      | Inr (Inr (c, f)) \<Rightarrow>
          Inr (c\<lparr>SchedulerCfg := (SchedulerCfg c)
                   \<lparr>DefaultTimeoutSec := orDefault (cfDefaultTimeoutSec f) 3600,
                    MaxTimeoutSec := orDefault (cfMaxTimeoutSec f) 86400,
                    AllowUnlimitedTimeout := orDefault (cfAllowUnlimitedTimeout f) False\<rparr>,
                 ExecutorCfg := (ExecutorCfg c)
                   \<lparr>CleanupContainers := orDefault (cfCleanupContainers f) True,
                    StopGracePeriodSec := orDefault (cfStopGracePeriodSec f) 10,
                    OrphanRecoveryOnStartup := orDefault (cfOrphanRecoveryOnStartup f) True\<rparr>,
                 RetentionCfg := (RetentionCfg c)
                   \<lparr>RetEnabled := orDefault (cfRetentionEnabled f) True,
                    PruneIntervalSec := orDefault (cfPruneIntervalSec f) 3600\<rparr>\<rparr>))"

section \<open>security.go\<close>

definition RequiresExternalProtection :: "string \<Rightarrow> bool" where
  "RequiresExternalProtection host =
     (let normalized = trimSuffix (trimPrefix (trimSpace host) ''['') '']''
      in if normalized = [] then False
         else if equalFold normalized ''localhost'' then False
         else case parseIP normalized of None \<Rightarrow> True | Some ip \<Rightarrow> \<not> isLoopback ip)"

section \<open>What Validate accepts\<close>

lemma containsString_iff [simp]: "containsString vs t \<longleftrightarrow> t \<in> set vs"
  by (auto simp: containsString_def)

lemma checkSources_Inr: "checkSources ss = Inr u \<longleftrightarrow> (\<forall>s\<in>set ss. validSource s)"
  by (induction ss) auto

text \<open>The specification of an acceptable configuration, by what the rest of the program needs.\<close>

definition serverOk :: "server_config \<Rightarrow> bool" where
  "serverOk s \<longleftrightarrow> 1 \<le> Port s \<and> Port s \<le> 65535 \<and> Host s \<noteq> []"

definition schedulerOk :: "scheduler_config \<Rightarrow> bool" where
  "schedulerOk s \<longleftrightarrow> 1 \<le> DueJobScanIntervalSec s \<and> 1 \<le> DispatchScanIntervalSec s
     \<and> 1 \<le> MaxConcurrentRuns s \<and> 0 \<le> DefaultTimeoutSec s \<and> DefaultTimeoutSec s \<le> MaxTimeoutSec s
     \<and> 1 \<le> MaxTimeoutSec s \<and> (AllowUnlimitedTimeout s \<or> 1 \<le> DefaultTimeoutSec s)"

definition imageOk :: "image_config \<Rightarrow> bool" where
  "imageOk i \<longleftrightarrow> DefaultSource i \<in> set (AllowedSources i) \<and> (\<forall>s\<in>set (AllowedSources i). validSource s)
     \<and> validPullPolicy (toLower (PullPolicy i))
     \<and> (''remote'' \<in> set (AllowedSources i) \<longrightarrow> Endpoint (Remote i) \<noteq> [])"

definition executorOk :: "executor_config \<Rightarrow> bool" where
  "executorOk e \<longleftrightarrow> toLower (trimSpace (NetworkMode e)) \<in> set [[], ''bridge'', ''none'']
     \<and> 0 \<le> MemoryLimitMB e \<and> \<not> floatLessZero (CPULimit e) \<and> 0 \<le> StopGracePeriodSec e"

definition retentionOk :: "retention_config \<Rightarrow> bool" where
  "retentionOk r \<longleftrightarrow> 1 \<le> PruneIntervalSec r \<and> 0 \<le> RunHistoryDays r \<and> 0 \<le> SuccessLogDays r
     \<and> 0 \<le> FailedLogDays r \<and> 0 \<le> ArtifactDays r \<and> 0 \<le> MaxLogBytesPerRun r
     \<and> 0 \<le> MaxTotalStorageBytes r"

definition storeOk :: "store_config \<Rightarrow> bool" where
  "storeOk s \<longleftrightarrow> SQLitePath s \<noteq> [] \<and> LogRoot s \<noteq> [] \<and> ArtifactRoot s \<noteq> []"

definition configOk :: "config \<Rightarrow> bool" where
  "configOk c \<longleftrightarrow> serverOk (Server c) \<and> storeOk (StoreCfg c) \<and> schedulerOk (SchedulerCfg c)
     \<and> imageOk (ImageCfg c) \<and> executorOk (ExecutorCfg c) \<and> retentionOk (RetentionCfg c)"

lemma validPullPolicy_ne: "validPullPolicy (toLower s) \<Longrightarrow> s \<noteq> []"
  by (auto simp: validPullPolicy_def toLower_def)

lemma validSource_ne: "validSource s \<Longrightarrow> s \<noteq> []"
  by (auto simp: validSource_def)

lemma Validate_iff: "Validate c = Inr u \<longleftrightarrow> configOk c"
proof
  assume "Validate c = Inr u"
  then show "configOk c"
    by (simp add: Validate_def Let_def bind_ok_Inr firstErr_Inr checkSources_Inr configOk_def
        serverOk_def storeOk_def schedulerOk_def imageOk_def executorOk_def retentionOk_def
        del: firstErr.simps) linarith
next
  assume ok: "configOk c"
  then have "AllowedSources (ImageCfg c) \<noteq> []" "DefaultSource (ImageCfg c) \<noteq> []"
    "PullPolicy (ImageCfg c) \<noteq> []" "validSource (DefaultSource (ImageCfg c))"
    by (auto simp: configOk_def imageOk_def dest: validPullPolicy_ne validSource_ne)
  with ok show "Validate c = Inr u"
    by (auto simp: Validate_def Let_def bind_ok_Inr firstErr_Inr checkSources_Inr configOk_def
        serverOk_def storeOk_def schedulerOk_def imageOk_def executorOk_def retentionOk_def
        del: firstErr.simps)
qed

end
