(* ===== verification/Sched_Core.thy ===== *)
theory Sched_Core
  imports Config Event_Repo
begin

text \<open>
  The state of \<open>internal/scheduler/scheduler.go\<close> that does not change while it runs, the timeout
  arithmetic of \<open>worker.go\<close>, and the cron library, which \<open>due_job.go\<close> and the job service both call.
  The two wakeup channels are in the world of the store, the worker tokens in theory Dispatch.
\<close>

record scheduler =
  dueJobInterval :: duration
  dispatchInterval :: duration
  maxConcurrentRuns :: int
  defaultTimeoutSec :: int
  maxTimeoutSec :: int
  allowUnlimited :: bool
  retentionEnabled :: bool
  retentionInterval :: duration
  workerTokensCap :: int

definition NewScheduler :: "config \<Rightarrow> scheduler" where
  "NewScheduler c =
     \<lparr>dueJobInterval = secDuration (DueJobScanIntervalSec (SchedulerCfg c)),
      dispatchInterval = secDuration (DispatchScanIntervalSec (SchedulerCfg c)),
      maxConcurrentRuns = MaxConcurrentRuns (SchedulerCfg c),
      defaultTimeoutSec = DefaultTimeoutSec (SchedulerCfg c),
      maxTimeoutSec = MaxTimeoutSec (SchedulerCfg c),
      allowUnlimited = AllowUnlimitedTimeout (SchedulerCfg c),
      retentionEnabled = RetEnabled (RetentionCfg c),
      retentionInterval = secDuration (PruneIntervalSec (RetentionCfg c)),
      workerTokensCap = MaxConcurrentRuns (SchedulerCfg c)\<rparr>"

definition maxWorkers :: "scheduler \<Rightarrow> int" where
  "maxWorkers s = (if maxConcurrentRuns s \<le> 0 then 1 else maxConcurrentRuns s)"

definition effectiveTimeoutSec :: "scheduler \<Rightarrow> int \<Rightarrow> int" where
  "effectiveTimeoutSec s timeoutSec =
     (let maxT = (if maxTimeoutSec s \<le> 0 then 86400 else maxTimeoutSec s)
      in if timeoutSec = 0
         then (if allowUnlimited s then 0
               else if 0 < defaultTimeoutSec s then defaultTimeoutSec s else 3600)
         else if maxT < timeoutSec then maxT else timeoutSec)"

text \<open>The library robfig/cron with the parser options of the source, and the time zones of the
  host: \<open>cronNext lib expr\<close> is the error of parsing or the function that gives, for a location
  name and an instant, the next activation (the zero time when there is none within five years).\<close>

record cron_lib =
  cronNext :: "string \<Rightarrow> goerr + (string \<Rightarrow> time \<Rightarrow> time)"
  tzKnown :: "string \<Rightarrow> bool"

text \<open>Its documentation: an activation is later than the instant asked for, or the zero time.\<close>

definition cronDocumented :: "cron_lib \<Rightarrow> bool" where
  "cronDocumented lib \<longleftrightarrow>
     (\<forall>expr nxt loc t. cronNext lib expr = Inr nxt \<longrightarrow> nxt loc t = 0 \<or> t < nxt loc t)"

definition cronLocation :: "cron_lib \<Rightarrow> string \<Rightarrow> string" where
  "cronLocation lib tz = (if tz \<noteq> [] \<and> tzKnown lib tz then tz else ''UTC'')"

text \<open>A fixed schedule, for witnesses: every minute, at its start, in every location.\<close>

definition everyMinute :: cron_lib where
  "everyMinute = \<lparr>cronNext = (\<lambda>expr. if expr = ''* * * * *''
       then Inr (\<lambda>loc t. (t div 60000000000 + 1) * 60000000000)
       else Inl (Errorf ''expected exactly 5 fields'')),
     tzKnown = (\<lambda>tz. tz = ''UTC'')\<rparr>"

lemma everyMinute_documented: "cronDocumented everyMinute"
proof -
  have "t < (t div 60000000000 + 1) * 60000000000" for t :: int
    using pos_mod_bound [of 60000000000 t] by (simp add: minus_mod_eq_mult_div [symmetric] algebra_simps)
  then show ?thesis by (auto simp: cronDocumented_def everyMinute_def split: if_splits)
qed

section \<open>Timeouts\<close>

text \<open>Under a validated configuration the effective timeout is at most the maximum, zero only
  where the configuration allows unlimited runs, and a timeout in range is left as it is.\<close>

lemma effectiveTimeoutSec_bound:
  assumes "schedulerOk (SchedulerCfg c)"
  shows "effectiveTimeoutSec (NewScheduler c) t \<le> MaxTimeoutSec (SchedulerCfg c)"
  using assms by (auto simp: effectiveTimeoutSec_def NewScheduler_def schedulerOk_def Let_def)

lemma effectiveTimeoutSec_zero:
  assumes "schedulerOk (SchedulerCfg c)"
  shows "effectiveTimeoutSec (NewScheduler c) t = 0 \<longleftrightarrow> t = 0 \<and> AllowUnlimitedTimeout (SchedulerCfg c)"
  using assms by (auto simp: effectiveTimeoutSec_def NewScheduler_def schedulerOk_def Let_def)

lemma effectiveTimeoutSec_range:
  assumes "schedulerOk (SchedulerCfg c)" and "1 \<le> t" and "t \<le> MaxTimeoutSec (SchedulerCfg c)"
  shows "effectiveTimeoutSec (NewScheduler c) t = t"
  using assms by (auto simp: effectiveTimeoutSec_def NewScheduler_def schedulerOk_def Let_def)

lemma effectiveTimeoutSec_negative: "t < 0 \<Longrightarrow> effectiveTimeoutSec s t = t"
  by (auto simp: effectiveTimeoutSec_def Let_def)

end
