(* ===== verification/Job_Service.thy ===== *)
theory Job_Service
  imports Sched_Core
begin

text \<open>
  \<open>internal/service/job_service.go\<close>: creating, updating, deleting, triggering and listing jobs.
  The lemmas show what \<open>buildJob\<close> accepts, when the next run of a job is, that every operation keeps
  the constraints of the store, and what a successful call wrote.
\<close>

record job_input =
  inName :: string
  inDescription :: "string option"
  inEnabled :: bool
  inSourceType :: source_type
  inImageRef :: string
  inImageDigest :: "string option"
  inScheduleType :: schedule_type
  inScheduleExpr :: "string option"
  inIntervalSec :: "int option"
  inParamsJSON :: "string option"
  inConcurrencyPolicy :: concurrency_policy
  inRetryLimit :: int
  inTimeoutSec :: "int option"
  inTimezone :: string

record timeout_policy =
  tpDefaultTimeoutSec :: int
  tpMaxTimeoutSec :: int
  tpAllowUnlimitedTimeout :: bool

definition NewTimeoutPolicy :: "timeout_policy \<Rightarrow> timeout_policy" where
  "NewTimeoutPolicy p =
     (let p = (if tpMaxTimeoutSec p \<le> 0 then p\<lparr>tpMaxTimeoutSec := 86400\<rparr> else p)
      in if tpDefaultTimeoutSec p = 0 \<and> \<not> tpAllowUnlimitedTimeout p
         then p\<lparr>tpDefaultTimeoutSec := 3600\<rparr> else p)"

definition policyOfConfig :: "scheduler_config \<Rightarrow> timeout_policy" where
  "policyOfConfig c = NewTimeoutPolicy \<lparr>tpDefaultTimeoutSec = DefaultTimeoutSec c,
     tpMaxTimeoutSec = MaxTimeoutSec c, tpAllowUnlimitedTimeout = AllowUnlimitedTimeout c\<rparr>"

definition defaultPolicy :: timeout_policy where
  "defaultPolicy = NewTimeoutPolicy \<lparr>tpDefaultTimeoutSec = 3600, tpMaxTimeoutSec = 86400,
     tpAllowUnlimitedTimeout = False\<rparr>"

definition resolveTimeoutSec :: "timeout_policy \<Rightarrow> int option \<Rightarrow> goerr + int" where
  "resolveTimeoutSec p requested =
     (case requested of None \<Rightarrow> Inr (tpDefaultTimeoutSec p)
      | Some t \<Rightarrow>
          if t < 0 then Inl (ValidationErr ''timeoutSec'' ''must be greater than or equal to 0'')
          else if t = 0
          then (if tpAllowUnlimitedTimeout p then Inr 0
                else Inl (ValidationErr ''timeoutSec'' ''unlimited timeout is disabled''))
          else if tpMaxTimeoutSec p < t
          then Inl (ValidationErr ''timeoutSec''
                 (''must be less than or equal to '' @ itoa (tpMaxTimeoutSec p)))
          else Inr t)"

text \<open>The switch over the schedule type: what the type requires of the input.\<close>

definition checkSchedule :: "job_input \<Rightarrow> goerr + unit" where
  "checkSchedule i =
     (if inScheduleType i = ScheduleTypeInterval
      then (if case inIntervalSec i of None \<Rightarrow> True | Some n \<Rightarrow> n \<le> 0
            then Inl (ValidationErr ''intervalSec'' ''must be greater than 0 for interval jobs'')
            else if case inScheduleExpr i of None \<Rightarrow> False | Some e \<Rightarrow> e \<noteq> []
            then Inl (ValidationErr ''scheduleExpr'' ''must be empty for interval jobs'')
            else Inr ())
      else if inScheduleType i = ScheduleTypeCron
      then (if case inScheduleExpr i of None \<Rightarrow> True | Some e \<Rightarrow> e = []
            then Inl (ValidationErr ''scheduleExpr'' ''is required for cron jobs'')
            else Inr ())
      else Inl (ValidationErr ''scheduleType'' (''unsupported value '' @ quoteStr (inScheduleType i))))"

definition buildJob :: "timeout_policy \<Rightarrow> job_input \<Rightarrow> goerr + job" where
  "buildJob p input =
     bind_ok (firstErr [
       (inName input = [], ValidationErr ''name'' ''is required''),
       (\<not> sourceTypeIsValid (inSourceType input),
          ValidationErr ''sourceType'' (''invalid value '' @ quoteStr (inSourceType input))),
       (inImageRef input = [], ValidationErr ''imageRef'' ''is required''),
       (\<not> scheduleTypeIsValid (inScheduleType input),
          ValidationErr ''scheduleType'' (''invalid value '' @ quoteStr (inScheduleType input))),
       (\<not> policyIsValid (inConcurrencyPolicy input),
          ValidationErr ''concurrencyPolicy'' (''invalid value '' @ quoteStr (inConcurrencyPolicy input)))])
     (\<lambda>_. let input = (if inTimezone input = [] then input\<lparr>inTimezone := ''UTC''\<rparr> else input) in
     bind_ok (resolveTimeoutSec p (inTimeoutSec input)) (\<lambda>timeoutSec.
     bind_ok (checkSchedule input) (\<lambda>_.
       Inr (zeroJob\<lparr>jobName := inName input, jobDescription := inDescription input,
         jobEnabled := inEnabled input, jobSourceType := inSourceType input,
         jobImageRef := inImageRef input, jobImageDigest := inImageDigest input,
         jobScheduleType := inScheduleType input, jobScheduleExpr := inScheduleExpr input,
         jobIntervalSec := inIntervalSec input, jobTimezone := inTimezone input,
         jobConcurrencyPolicy := inConcurrencyPolicy input, jobRetryLimit := inRetryLimit input,
         jobTimeoutSec := timeoutSec, jobParamsJSON := inParamsJSON input\<rparr>))))"

text \<open>\<open>computeNextRunAt\<close> of this package; \<open>due_job.go\<close> has one of its own.\<close>

definition serviceNextRunAt :: "cron_lib \<Rightarrow> job \<Rightarrow> time \<Rightarrow> goerr + time" where
  "serviceNextRunAt lib job frm =
     (if jobScheduleType job = ScheduleTypeInterval
      then (case jobIntervalSec job of None \<Rightarrow> Inl (Errorf ''intervalSec is required'')
            | Some n \<Rightarrow> Inr (timeAdd frm (secDuration n)))
      else if jobScheduleType job = ScheduleTypeCron
      then (case jobScheduleExpr job of None \<Rightarrow> Inl (Errorf ''scheduleExpr is required'')
            | Some expr \<Rightarrow>
                if expr = [] then Inl (Errorf ''scheduleExpr is required'')
                else case cronNext lib expr of
                  Inl e \<Rightarrow> Inl (Wrapf ''parse cron expression'' e)
                | Inr nxt \<Rightarrow> Inr (nxt (cronLocation lib (jobTimezone job)) frm))
      else Inl (Errorf (''unsupported schedule type: '' @ quoteStr (jobScheduleType job))))"

section \<open>The operations\<close>

definition CreateJob :: "cron_lib \<Rightarrow> timeout_policy \<Rightarrow> job_input \<Rightarrow> job io" where
  "CreateJob lib p input =
     bindIO (liftRes (buildJob p input)) (\<lambda>job.
     bindIO timeNow (\<lambda>now.
       let job = job\<lparr>jobCreatedAt := now, jobUpdatedAt := now\<rparr> in
     bindIO (liftRes (serviceNextRunAt lib job now)) (\<lambda>nextRunAt.
       let job = job\<lparr>jobNextRunAt := Some nextRunAt\<rparr> in
     bindIO (jobsCreate job) (\<lambda>job.
     bindIO NotifyDueJob (\<lambda>_. returnIO job)))))"

text \<open>\<open>UpdateJob\<close> and \<open>TriggerJob\<close> read the job in one statement and write in a later one, with no
  transaction around the two: what follows the read is a definition of its own.\<close>

definition updateWrite :: "cron_lib \<Rightarrow> int \<Rightarrow> job \<Rightarrow> job \<Rightarrow> job io" where
  "updateWrite lib i job existing =
     (let job = job\<lparr>jobID := i, jobCreatedAt := jobCreatedAt existing,
                     jobLastScheduledAt := jobLastScheduledAt existing\<rparr> in
     bindIO timeNow (\<lambda>now.
       let job = job\<lparr>jobUpdatedAt := now\<rparr> in
     bindIO (liftRes (serviceNextRunAt lib job now)) (\<lambda>nextRunAt.
       let job = job\<lparr>jobNextRunAt := Some nextRunAt\<rparr> in
     bindIO (jobsUpdate job) (\<lambda>job.
     bindIO NotifyDueJob (\<lambda>_. returnIO job)))))"

definition UpdateJob :: "cron_lib \<Rightarrow> timeout_policy \<Rightarrow> int \<Rightarrow> job_input \<Rightarrow> job io" where
  "UpdateJob lib p i input =
     bindIO (liftRes (buildJob p input)) (\<lambda>job. bindIO (jobsGet i) (updateWrite lib i job))"

definition DeleteJob :: "int \<Rightarrow> unit io" where
  "DeleteJob i = jobsDelete i"

definition ListJobs :: "job_filter \<Rightarrow> page \<Rightarrow> (job list \<times> int) io" where
  "ListJobs f p = jobsList f p"

definition GetJob :: "int \<Rightarrow> job io" where
  "GetJob i = jobsGet i"

definition triggerWrite :: "string option \<Rightarrow> job \<Rightarrow> run io" where
  "triggerWrite reason job =
     bindIO timeNow (\<lambda>now.
       let run = zeroRun\<lparr>runJobID := jobID job, runScheduledAt := now,
                         runStatus := RunStatusPending, runAttempt := 0\<rparr> in
     bindIO (WithinTx (
       bindIO (runsCreate run) (\<lambda>run.
         let event = zeroEvent\<lparr>evRunID := runID run, evEventType := RunEventTypeCreated,
               evMessage := (case reason of None \<Rightarrow> None | Some r \<Rightarrow> if r = [] then None else Some r)\<rparr> in
         bindIO (eventsCreate event) (\<lambda>_. returnIO run)))) (\<lambda>run.
     bindIO NotifyDispatch (\<lambda>_. returnIO run)))"

definition TriggerJob :: "int \<Rightarrow> string option \<Rightarrow> run io" where
  "TriggerJob jobId reason = bindIO (jobsGet jobId) (triggerWrite reason)"

definition ListJobRuns :: "int \<Rightarrow> run_status option \<Rightarrow> page \<Rightarrow> (run list \<times> int) io" where
  "ListJobRuns jobId status p =
     runsList \<lparr>rfJobID = Some jobId, rfStatus = status, rfFrom = None, rfTo = None\<rparr> p"

section \<open>What buildJob accepts\<close>

definition policyOk :: "timeout_policy \<Rightarrow> bool" where
  "policyOk p \<longleftrightarrow> 0 < tpMaxTimeoutSec p \<and> 0 \<le> tpDefaultTimeoutSec p
     \<and> (tpDefaultTimeoutSec p = 0 \<longrightarrow> tpAllowUnlimitedTimeout p)
     \<and> tpDefaultTimeoutSec p \<le> tpMaxTimeoutSec p"

definition jobOk :: "timeout_policy \<Rightarrow> job \<Rightarrow> bool" where
  "jobOk p j \<longleftrightarrow> jobName j \<noteq> [] \<and> sourceTypeIsValid (jobSourceType j) \<and> jobImageRef j \<noteq> []
     \<and> policyIsValid (jobConcurrencyPolicy j) \<and> jobTimezone j \<noteq> []
     \<and> 0 \<le> jobTimeoutSec j \<and> jobTimeoutSec j \<le> tpMaxTimeoutSec p
     \<and> (jobTimeoutSec j = 0 \<longrightarrow> tpAllowUnlimitedTimeout p)
     \<and> (jobScheduleType j = ScheduleTypeInterval \<and> (\<exists>n>0. jobIntervalSec j = Some n)
          \<and> (jobScheduleExpr j = None \<or> jobScheduleExpr j = Some [])
        \<or> jobScheduleType j = ScheduleTypeCron \<and> (\<exists>e. e \<noteq> [] \<and> jobScheduleExpr j = Some e))"

lemma policyOfConfig_ok: "schedulerOk c \<Longrightarrow> policyOk (policyOfConfig c)"
  by (auto simp: schedulerOk_def policyOk_def policyOfConfig_def NewTimeoutPolicy_def Let_def)

lemma defaultPolicy_ok: "policyOk defaultPolicy"
  by (simp add: policyOk_def defaultPolicy_def NewTimeoutPolicy_def)

lemma resolveTimeoutSec_Inr:
  "policyOk p \<Longrightarrow> resolveTimeoutSec p r = Inr t \<Longrightarrow>
   0 \<le> t \<and> t \<le> tpMaxTimeoutSec p \<and> (t = 0 \<longrightarrow> tpAllowUnlimitedTimeout p)"
  by (auto simp: resolveTimeoutSec_def policyOk_def split: option.splits if_splits)

lemma checkSchedule_Inr:
  "checkSchedule i = Inr u \<longleftrightarrow>
     inScheduleType i = ScheduleTypeInterval \<and> (\<exists>n>0. inIntervalSec i = Some n)
       \<and> (inScheduleExpr i = None \<or> inScheduleExpr i = Some [])
   \<or> inScheduleType i = ScheduleTypeCron \<and> (\<exists>e. e \<noteq> [] \<and> inScheduleExpr i = Some e)"
  by (auto simp: checkSchedule_def split: option.splits)

lemma buildJob_ok:
  assumes "policyOk p" and "buildJob p i = Inr j"
  shows "jobOk p j"
  using assms(2) resolveTimeoutSec_Inr [OF assms(1)]
  by (auto simp: buildJob_def bind_ok_Inr firstErr_Inr Let_def checkSchedule_Inr jobOk_def zeroJob_def
      simp del: firstErr.simps split: if_splits)

lemma buildJob_error:
  assumes "buildJob p i = Inl e"
  shows "\<exists>f m. e = ValidationErr f m"
proof -
  have r: "\<exists>f m. e' = ValidationErr f m" if "resolveTimeoutSec p r = Inl e'" for r e'
    using that by (auto simp: resolveTimeoutSec_def split: option.splits if_splits)
  have c: "\<exists>f m. e' = ValidationErr f m" if "checkSchedule i' = Inl e'" for i' e'
    using that by (auto simp: checkSchedule_def split: option.splits if_splits)
  have g: "\<exists>f m. e' = ValidationErr f m"
    if "firstErr gs = Inl e'" "\<forall>(b, e)\<in>set gs. \<exists>f m. e = ValidationErr f m" for gs e'
    using firstErr_Inl_in [OF that(1)] that(2) by fastforce
  have bi: "bind_ok x f = Inl e' \<longleftrightarrow> x = Inl e' \<or> (\<exists>y. x = Inr y \<and> f y = Inl e')"
    for x :: "goerr + 'x" and f :: "'x \<Rightarrow> goerr + 'y" and e' by (cases x) auto
  from assms show ?thesis
    unfolding buildJob_def bi Let_def by (auto dest!: r c g simp del: firstErr.simps)
qed

section \<open>When the next run is\<close>

lemma serviceNextRunAt_cong:
  "jobScheduleType j = jobScheduleType k \<Longrightarrow> jobIntervalSec j = jobIntervalSec k \<Longrightarrow>
   jobScheduleExpr j = jobScheduleExpr k \<Longrightarrow> jobTimezone j = jobTimezone k \<Longrightarrow>
   serviceNextRunAt lib j t = serviceNextRunAt lib k t"
  by (simp add: serviceNextRunAt_def split: option.split sum.split)

lemma serviceNextRunAt_interval:
  assumes "jobScheduleType j = ScheduleTypeInterval" and "jobIntervalSec j = Some n"
    and "0 \<le> n" and "n \<le> 9223372036"
  shows "serviceNextRunAt lib j frm = Inr (frm + n * second)"
  using assms by (simp add: serviceNextRunAt_def timeAdd_def secDuration_small second_def)

text \<open>The service accepts any positive interval, and the product with a second wraps at 64 bits: the next
  run of a job with an interval of 9223372037 seconds lies 292 years in the past.\<close>

lemma long_interval_wraps:
  assumes "jobScheduleType j = ScheduleTypeInterval" and "jobIntervalSec j = Some 9223372037"
  shows "serviceNextRunAt lib j t = Inr (t - 9223372036709551616)"
  using assms by (simp add: serviceNextRunAt_def timeAdd_def secDuration_def second_def wrap64_mod)

lemma serviceNextRunAt_cron:
  assumes "cronDocumented lib" and "jobScheduleType j = ScheduleTypeCron"
    and "serviceNextRunAt lib j frm = Inr t"
  shows "t = 0 \<or> frm < t"
  using assms by (auto simp: serviceNextRunAt_def cronDocumented_def split: option.splits if_splits sum.splits)

section \<open>The operations keep the constraints\<close>

lemma wf_job_writes [wf_intros]: "keeps dbWf (updateWrite lib i j ex)" "keeps dbWf (triggerWrite reason j)"
  unfolding updateWrite_def triggerWrite_def Let_def by (intro wf_intros)+

lemma wf_job_service [wf_intros]:
  "keeps dbWf (CreateJob lib p inp)" "keeps dbWf (UpdateJob lib p i inp)" "keeps dbWf (DeleteJob i)"
  "keeps dbWf (TriggerJob i reason)" "keeps dbWf (ListJobs f pg)" "keeps dbWf (GetJob i)"
  "keeps dbWf (ListJobRuns i st pg)"
  unfolding CreateJob_def UpdateJob_def DeleteJob_def TriggerJob_def ListJobs_def GetJob_def
    ListJobRuns_def Let_def
  by (intro wf_intros)+

lemma spent_job_writes [spent_intros]:
  "obeys keepsSpent (updateWrite lib i j ex)" "obeys keepsSpent (triggerWrite reason j)"
  unfolding updateWrite_def triggerWrite_def Let_def by (intro spent_intros)+

lemma spent_job_service [spent_intros]:
  "obeys keepsSpent (CreateJob lib p inp)" "obeys keepsSpent (UpdateJob lib p i inp)"
  "obeys keepsSpent (DeleteJob i)" "obeys keepsSpent (TriggerJob i reason)"
  "obeys keepsSpent (ListJobs f pg)" "obeys keepsSpent (GetJob i)" "obeys keepsSpent (ListJobRuns i st pg)"
  unfolding CreateJob_def UpdateJob_def DeleteJob_def TriggerJob_def ListJobs_def GetJob_def
    ListJobRuns_def Let_def
  by (intro spent_intros)+

section \<open>What a successful call wrote\<close>

lemma CreateJob_Inr:
  assumes "CreateJob lib p inp w = (Inr j, w')"
  obtains j0 nxt where "buildJob p inp = Inr j0"
    and "serviceNextRunAt lib j0 (wClock w (wTicks w)) = Inr nxt"
    and "jobNextRunAt j = Some nxt" and "jobID j = dbJobSeq (wDb w) + 1"
    and "jobName j = inName inp" and "jobName j \<notin> jr_name ` set (dbJobs (wDb w))"
    and "wDb w' = (wDb w)\<lparr>dbJobs := dbJobs (wDb w) @ [jobRow j], dbJobSeq := dbJobSeq (wDb w) + 1\<rparr>"
    and "wDueWakeup w'"
proof -
  let ?now = "wClock w (wTicks w)"
  from assms obtain j0 nxt w1 where b: "buildJob p inp = Inr j0"
    and n: "serviceNextRunAt lib (j0\<lparr>jobCreatedAt := ?now, jobUpdatedAt := ?now\<rparr>) ?now = Inr nxt"
    and c: "jobsCreate (j0\<lparr>jobCreatedAt := ?now, jobUpdatedAt := ?now, jobNextRunAt := Some nxt\<rparr>)
        (w\<lparr>wTicks := Suc (wTicks w)\<rparr>) = (Inr j, w1)"
    and w': "w' = w1\<lparr>wDueWakeup := True\<rparr>"
    by (auto simp: CreateJob_def io_Inr Let_def)
  have n0: "serviceNextRunAt lib j0 ?now = Inr nxt"
    using n by (subst (asm) serviceNextRunAt_cong [where k = j0]) simp_all
  have nm: "jobName j0 = inName inp"
    using b by (auto simp: buildJob_def bind_ok_Inr Let_def zeroJob_def simp del: firstErr.simps)
  note cs = jobsCreate_Inr [OF c]
  show thesis
    by (rule that [OF b n0]) (use cs nm w' in \<open>simp_all add: stampedJob_def\<close>)
qed

text \<open>A trigger writes one pending run for the job and its created event, in one transaction.\<close>

lemma TriggerJob_Inr:
  assumes "TriggerJob i reason w = (Inr r, w')"
  obtains e where "runID r = dbRunSeq (wDb w) + 1" and "runStatus r = RunStatusPending"
    and "runAttempt r = 0" and "runJobID r = i" and "evRunID e = runID r"
    and "evEventType e = RunEventTypeCreated" and "evID e = dbEventSeq (wDb w) + 1"
    and "wDb w' = (wDb w)\<lparr>dbRuns := dbRuns (wDb w) @ [runRow r], dbRunSeq := dbRunSeq (wDb w) + 1,
      dbEvents := dbEvents (wDb w) @ [eventRow e], dbEventSeq := dbEventSeq (wDb w) + 1\<rparr>"
    and "wDispatchWakeup w'"
proof -
  from assms obtain job w1 w2 w3 where g: "jobsGet i w = (Inr job, w1)"
    and w2: "w2 = w1\<lparr>wTicks := Suc (wTicks w1)\<rparr>"
    and tx: "WithinTx (bindIO (runsCreate (zeroRun\<lparr>runJobID := jobID job,
        runScheduledAt := wClock w1 (wTicks w1), runStatus := RunStatusPending, runAttempt := 0\<rparr>))
       (\<lambda>run. let event = zeroEvent\<lparr>evRunID := runID run, evEventType := RunEventTypeCreated,
               evMessage := (case reason of None \<Rightarrow> None | Some r \<Rightarrow> if r = [] then None else Some r)\<rparr> in
         bindIO (eventsCreate event) (\<lambda>_. returnIO run))) w2 = (Inr r, w3)"
    and w': "w' = w3\<lparr>wDispatchWakeup := True\<rparr>"
    by (auto simp: TriggerJob_def triggerWrite_def io_Inr Let_def)
  from g have db1: "wDb w1 = wDb w" and jid: "jobID job = i"
    by (auto simp: jobsGet_Inr dest!: scanJob_Inr tFind_Some)
  from tx obtain w4 w5 w6 e where w4: "w4 = w2\<lparr>wCalls := Suc (wCalls w2)\<rparr>"
    and c: "runsCreate (zeroRun\<lparr>runJobID := jobID job, runScheduledAt := wClock w1 (wTicks w1),
        runStatus := RunStatusPending, runAttempt := 0\<rparr>) w4 = (Inr r, w5)"
    and ev: "eventsCreate (zeroEvent\<lparr>evRunID := runID r, evEventType := RunEventTypeCreated,
        evMessage := (case reason of None \<Rightarrow> None | Some r \<Rightarrow> if r = [] then None else Some r)\<rparr>) w5
      = (Inr e, w6)" and d: "wDb w3 = wDb w6"
    by (elim WithinTx_Inr) (auto simp: io_Inr Let_def)
  have d4: "wDb w4 = wDb w" using w4 w2 db1 by simp
  note cs = runsCreate_Inr [OF c, unfolded d4]
  note es = eventsCreate_Inr [OF ev]
  show thesis
  proof (rule that [of e])
    show "runID r = dbRunSeq (wDb w) + 1" by (rule cs(1))
    show "runStatus r = RunStatusPending" "runAttempt r = 0" "runJobID r = i"
      using cs(3) jid by (simp_all add: stampedRun_def)
    show "evRunID e = runID r" "evEventType e = RunEventTypeCreated"
      using es(3) by (simp_all add: stampedEvent_def)
    show "evID e = dbEventSeq (wDb w) + 1" using es(1) cs(2) by simp
    show "wDb w' = (wDb w)\<lparr>dbRuns := dbRuns (wDb w) @ [runRow r], dbRunSeq := dbRunSeq (wDb w) + 1,
      dbEvents := dbEvents (wDb w) @ [eventRow e], dbEventSeq := dbEventSeq (wDb w) + 1\<rparr>"
      using es(2) cs(2) d w' by simp
    show "wDispatchWakeup w'" using w' by simp
  qed
qed

lemma jobsCreate_Inl: "jobsCreate job w = (Inl e, w') \<Longrightarrow> wDb w' = wDb w"
  by (auto simp: jobsCreate_def bindIO_def timeNow_def failIO_def returnIO_def mapErr_def execDb_def Let_def
      split: if_splits prod.splits sum.splits)

lemma CreateJob_Inl:
  assumes "CreateJob lib p inp w = (Inl e, w')"
  shows "wDb w' = wDb w"
proof -
  have n: "NotifyDueJob v \<noteq> (Inl x, y)" for v x y by (simp add: NotifyDueJob_def)
  from assms show ?thesis
    by (auto simp: CreateJob_def bindIO_Inl n liftRes_def timeNow_def returnIO_def Let_def dest!: jobsCreate_Inl)
qed

lemma TriggerJob_Inl:
  assumes "TriggerJob i reason w = (Inl e, w')"
  shows "wDb w' = wDb w"
proof -
  have n: "NotifyDispatch v \<noteq> (Inl x, y)" for v x y by (simp add: NotifyDispatch_def)
  have g: "wDb w1 = wDb w" if "jobsGet i w = (r, w1)" for r w1
    using that by (auto simp: jobsGet_def queryDb_def execDb_def Let_def split: if_splits option.splits sum.splits)
  from assms show ?thesis
    by (auto simp: TriggerJob_def triggerWrite_def bindIO_Inl n timeNow_def returnIO_def Let_def dest!: WithinTx_Inl g)
qed

end
