(* ===== verification/Log_Files.thy ===== *)
theory Log_Files
  imports Model
begin

text \<open>
  Package \<open>internal/log\<close>: where the log and the result of a run are kept, and the reading of a
  part of a log. A file is a sequence of bytes; \<open>os.Open\<close> is the argument \<open>readFile\<close>. The lemmas
  show which part of the file \<open>ReadContent\<close> returns.
\<close>

section \<open>reader.go\<close>

text \<open>\<open>io.ReadFull\<close> and \<open>io.ReadAll\<close> from the position the file was sought to; a position beyond
  the end reads nothing.\<close>

definition ReadContent ::
  "(string \<Rightarrow> goerr + string) \<Rightarrow> string \<Rightarrow> int \<Rightarrow> int \<Rightarrow> int \<Rightarrow> goerr + (string \<times> int \<times> int)" where
  "ReadContent readFile path offset limit tail =
     bind_ok (readFile path) (\<lambda>content.
       let size = int (length content);
           start = (if 0 < tail then (let tail = (if size < tail then size else tail) in size - tail)
                    else offset);
           start = (if start < 0 then 0 else start);
           rest = drop (nat start) content;
           data = (if 0 < limit then take (nat limit) rest else rest)
       in Inr (data, start, int (length data)))"

section \<open>writer.go and result_writer.go\<close>

definition defaultLogPattern :: string where "defaultLogPattern = ''job-%d/run-%d/run.log''"
definition defaultResultPattern :: string where "defaultResultPattern = ''job-%d/run-%d/result.json''"

record path_writer =
  pwRoot :: string
  pwPattern :: string

definition NewWriter :: "string \<Rightarrow> string \<Rightarrow> path_writer" where
  "NewWriter root pattern =
     \<lparr>pwRoot = root, pwPattern = (if pattern = [] then defaultLogPattern else pattern)\<rparr>"

definition NewResultWriter :: "string \<Rightarrow> string \<Rightarrow> path_writer" where
  "NewResultWriter root pattern =
     \<lparr>pwRoot = root, pwPattern = (if pattern = [] then defaultResultPattern else pattern)\<rparr>"

text \<open>\<open>fmt.Sprintf\<close> with integer arguments and a pattern whose only verb is \<open>%d\<close>, with the texts Go
  writes for a missing and an extra argument; a pattern with any other verb gives \<open>None\<close>.\<close>

fun sprintfD :: "string \<Rightarrow> int list \<Rightarrow> string option" where
  "sprintfD [] args =
     (if args = [] then Some []
      else Some (''%!(EXTRA '' @ concat (map (\<lambda>(k, n). (if k = 0 then [] else '', '') @ ''int64='' @ itoa n)
                   (zip [0..<length args] args)) @ '')''))"
| "sprintfD (c # cs) args =
     (if c \<noteq> CHR ''%'' then map_option ((#) c) (sprintfD cs args)
      else case cs of
        [] \<Rightarrow> map_option ((@) ''%!(NOVERB)'') (sprintfD [] args)
      | v # vs \<Rightarrow>
          if v = CHR ''%'' then map_option ((#) (CHR ''%'')) (sprintfD vs args)
          else if v \<noteq> CHR ''d'' then None
          else case args of
            [] \<Rightarrow> map_option ((@) ''%!d(MISSING)'') (sprintfD vs [])
          | n # ns \<Rightarrow> map_option ((@) (itoa n)) (sprintfD vs ns))"

section \<open>Which part of a log is returned\<close>

lemma take_min_length [simp]:
  "take (min (length xs) n) xs = take n xs" "take (min (length xs - k) n) (drop k xs) = take n (drop k xs)"
  by (simp_all add: min_def)

lemma ReadContent_Inr:
  assumes "ReadContent rf path offset limit tail = Inr (data, start, n)" and "rf path = Inr content"
  shows "n = int (length data)" and "0 \<le> start" and "data = take (length data) (drop (nat start) content)"
    and "0 < limit \<Longrightarrow> n \<le> limit"
    and "0 < tail \<Longrightarrow> start + min tail (int (length content)) = int (length content)"
    and "tail \<le> 0 \<Longrightarrow> start = max 0 offset"
  using assms by (auto simp: ReadContent_def Let_def split: if_splits)

lemma ReadContent_whole:
  "rf path = Inr content \<Longrightarrow> ReadContent rf path 0 0 0 = Inr (content, 0, int (length content))"
  by (simp add: ReadContent_def)

text \<open>Reading page after page from where the last one ended gives the whole file.\<close>

lemma ReadContent_pages:
  assumes "rf path = Inr content" and "0 \<le> offset" and "0 < limit"
    and "ReadContent rf path offset limit 0 = Inr (d1, s1, n1)"
    and "ReadContent rf path (offset + n1) 0 0 = Inr (d2, s2, n2)"
    and "offset \<le> int (length content)"
  shows "d1 @ d2 = drop (nat offset) content"
proof -
  have d1: "d1 = take (nat limit) (drop (nat offset) content)" and n1: "n1 = int (length d1)"
    using assms(1-4) by (auto simp: ReadContent_def Let_def)
  have "d2 = drop (nat (offset + n1)) content"
    using assms(1,2,5) n1 by (auto simp: ReadContent_def Let_def split: if_splits)
  also have "nat (offset + n1) = length d1 + nat offset" using assms(2) n1 by (simp add: nat_add_distrib)
  also have "drop (length d1 + nat offset) content = drop (length d1) (drop (nat offset) content)"
    by (simp add: add.commute)
  finally have "d2 = drop (length d1) (drop (nat offset) content)" .
  moreover have "d1 = take (length d1) (drop (nat offset) content)" using d1 by simp
  ultimately show ?thesis by (metis append_take_drop_id)
qed

end
