(* ===== verification/Run_Service.thy ===== *)
theory Run_Service
  imports Event_Repo Log_Files
begin

text \<open>
  \<open>internal/service/run_service.go\<close>: listing, reading and cancelling runs. \<open>CancelRun\<close> reads the
  run and writes its new status in two statements with no transaction around them, so another
  step can come between the two: it is given as its two halves and their composition.
\<close>

definition ListRuns :: "run_filter \<Rightarrow> page \<Rightarrow> (run list \<times> int) io" where
  "ListRuns f p = runsList f p"

definition GetRun :: "int \<Rightarrow> run io" where
  "GetRun i = runsGet i"

definition cancelTarget :: "run_status \<Rightarrow> run_status option" where
  "cancelTarget s =
     (if s = RunStatusPending then Some RunStatusCancelled
      else if s = RunStatusRunning \<or> s = RunStatusCancelling then Some RunStatusCancelling
      else None)"

definition cancelWrite :: "run \<Rightarrow> run io" where
  "cancelWrite run =
     (case cancelTarget (runStatus run) of
        None \<Rightarrow> returnIO run
      | Some st \<Rightarrow>
          let run = run\<lparr>runStatus := st\<rparr> in
          bindIO (UpdateStatus (runID run) (runStatus run) (runStartedAt run) (runFinishedAt run)
                    (runExitCode run) (runErrorMessage run)) (\<lambda>_.
          bindIO timeNow (\<lambda>now. returnIO (run\<lparr>runUpdatedAt := now\<rparr>))))"

definition CancelRun :: "int \<Rightarrow> run io" where
  "CancelRun i = bindIO (runsGet i) cancelWrite"

definition ListRunEvents :: "int \<Rightarrow> run_event list io" where
  "ListRunEvents i = ListByRun i"

definition ReadLogs ::
  "(string \<Rightarrow> goerr + string) \<Rightarrow> int \<Rightarrow> int \<Rightarrow> int \<Rightarrow> int \<Rightarrow> (string \<times> int \<times> int) io" where
  "ReadLogs readFile i offset limit tail =
     bindIO (runsGet i) (\<lambda>run.
       case runLogPath run of
         None \<Rightarrow> failIO (Errorf (''run '' @ itoa i @ '' has no log path recorded''))
       | Some p \<Rightarrow>
           if p = [] then failIO (Errorf (''run '' @ itoa i @ '' has no log path recorded''))
           else liftRes (ReadContent readFile p offset limit tail))"

definition ReadResultPath :: "int \<Rightarrow> string option io" where
  "ReadResultPath i = bindIO (runsGet i) (\<lambda>run. returnIO (runResultPath run))"

section \<open>Cancelling\<close>

lemma cancelTarget_valid: "cancelTarget s = Some t \<Longrightarrow> t = RunStatusCancelled \<or> t = RunStatusCancelling"
  by (auto simp: cancelTarget_def split: if_splits)

lemma cancelTarget_None: "runStatusIsValid s \<Longrightarrow> cancelTarget s = None \<longleftrightarrow> isTerminal s"
  by (auto simp: cancelTarget_def runStatusIsValid_def isTerminal_def)

lemma wf_cancelWrite [wf_intros]: "keeps dbWf (cancelWrite r)"
  unfolding cancelWrite_def Let_def by (intro wf_intros)

lemma spent_cancelWrite [spent_intros]: "obeys keepsSpent (cancelWrite r)"
proof (cases "cancelTarget (runStatus r)")
  case None
  then show ?thesis by (simp add: cancelWrite_def spent_kept.obeys_returnIO)
next
  case (Some st)
  then have "st \<noteq> RunStatusPending" by (auto dest: cancelTarget_valid)
  with Some show ?thesis
    unfolding cancelWrite_def Let_def by (simp del: RunStatusPending_def) (intro spent_intros; simp)
qed

lemma wf_run_service [wf_intros]:
  "keeps dbWf (ListRuns f p)" "keeps dbWf (GetRun i)" "keeps dbWf (CancelRun i)"
  "keeps dbWf (ListRunEvents i)" "keeps dbWf (ReadLogs rf i a b c)" "keeps dbWf (ReadResultPath i)"
  unfolding ListRuns_def GetRun_def CancelRun_def ListRunEvents_def ReadLogs_def ReadResultPath_def
  by (intro wf_intros)+

lemma spent_run_service [spent_intros]:
  "obeys keepsSpent (ListRuns f p)" "obeys keepsSpent (GetRun i)" "obeys keepsSpent (CancelRun i)"
  "obeys keepsSpent (ListRunEvents i)" "obeys keepsSpent (ReadLogs rf i a b c)"
  "obeys keepsSpent (ReadResultPath i)"
  unfolding ListRuns_def GetRun_def CancelRun_def ListRunEvents_def ReadLogs_def ReadResultPath_def
  by (intro spent_intros)+

text \<open>Where nothing comes between the two halves: the status a cancellation leaves.\<close>

lemma CancelRun_Inr:
  assumes "CancelRun i w = (Inr r, w')"
  obtains q where "tFind rr_id i (dbRuns (wDb w)) = Some q" and "runID r = i"
    and "case cancelTarget (rr_status q) of
      None \<Rightarrow> wDb w' = wDb w \<and> runStatus r = rr_status q
    | Some s \<Rightarrow> runStatus r = s \<and> (\<exists>u. wDb w' = (wDb w)\<lparr>dbRuns := tUpdate (\<lambda>x. rr_id x = i)
        (setRunStatus s (encodeNullableTime (runStartedAt r)) (encodeNullableTime (runFinishedAt r))
          (rr_exit_code q) (rr_error_message q) u) (dbRuns (wDb w))\<rparr>)"
proof -
  from assms obtain r0 q where f: "tFind rr_id i (dbRuns (wDb w)) = Some q" and s: "scanRun q = Inr r0"
    and cw: "cancelWrite r0 (w\<lparr>wCalls := Suc (wCalls w)\<rparr>) = (Inr r, w')"
    by (auto simp: CancelRun_def bindIO_Inr runsGet_Inr)
  have q: "rr_id q = i" using tFind_Some [OF f] by simp
  note r0 = scanRun_Inr [OF s]
  show thesis
  proof (cases "cancelTarget (rr_status q)")
    case None
    with cw r0 q have "r = r0" "wDb w' = wDb w" by (auto simp: cancelWrite_def returnIO_def)
    with None f r0 q show thesis by (intro that [of q]) simp_all
  next
    case (Some st)
    with cw r0 q obtain w1 u where up: "UpdateStatus i st (runStartedAt r0) (runFinishedAt r0)
        (rr_exit_code q) (rr_error_message q) (w\<lparr>wCalls := Suc (wCalls w)\<rparr>) = (Inr (), w1)"
      and r: "r = r0\<lparr>runStatus := st, runUpdatedAt := u\<rparr>" and w': "wDb w' = wDb w1"
      by (auto simp: cancelWrite_def Let_def io_Inr)
    show thesis
      by (rule that [of q]) (use f r r0 q w' Some UpdateStatus_Inr(2) [OF up] in auto)
  qed
qed

end
