(* ===== verification/Due_Job.thy ===== *)
theory Due_Job
  imports Sched_Core
begin

text \<open>
  \<open>internal/scheduler/due_job.go\<close>: the scan that turns due jobs into runs. A due job is processed in
  one transaction: under the policy \<open>forbid\<close> the running runs of the job that outlived their timeout
  are finalised, and one that did not makes the new run a skipped one; otherwise the run is pending.
  In every case the schedule of the job advances. The lemmas show what a successful call wrote,
  that a failed one wrote nothing, and that \<open>forbid\<close> never adds a run beside a running one.
\<close>

definition schedulerNextRunAt :: "cron_lib \<Rightarrow> job \<Rightarrow> time \<Rightarrow> goerr + time" where
  "schedulerNextRunAt lib job frm =
     (if jobScheduleType job = ScheduleTypeInterval
      then (case jobIntervalSec job of
              None \<Rightarrow> Inl (Errorf (''invalid intervalSec for job '' @ itoa (jobID job)))
            | Some n \<Rightarrow>
                if n \<le> 0 then Inl (Errorf (''invalid intervalSec for job '' @ itoa (jobID job)))
                else Inr (timeAdd frm (secDuration n)))
      else if jobScheduleType job = ScheduleTypeCron
      then (case jobScheduleExpr job of
              None \<Rightarrow> Inl (Errorf (''missing scheduleExpr for job '' @ itoa (jobID job)))
            | Some expr \<Rightarrow>
                if expr = [] then Inl (Errorf (''missing scheduleExpr for job '' @ itoa (jobID job)))
                else case cronNext lib expr of
                  Inl e \<Rightarrow> Inl (Wrapf (''parse cron expr for job '' @ itoa (jobID job)) e)
                | Inr nxt \<Rightarrow> Inr (nxt (cronLocation lib (jobTimezone job)) frm))
      else Inl (Errorf (''unsupported schedule type '' @ quoteStr (jobScheduleType job))))"

text \<open>The start the code takes for a running run: its own, or its creation when it has none.\<close>

definition startOf :: "run \<Rightarrow> time" where
  "startOf run = (case runStartedAt run of None \<Rightarrow> runCreatedAt run
                  | Some t \<Rightarrow> if t = 0 then runCreatedAt run else t)"

definition isRunningRunStale :: "scheduler \<Rightarrow> run \<Rightarrow> time \<Rightarrow> int \<Rightarrow> bool" where
  "isRunningRunStale s run now timeoutSec =
     (let t = effectiveTimeoutSec s timeoutSec
      in if t \<le> 0 then False
         else if (runStartedAt run = None \<or> runStartedAt run = Some 0) \<and> runCreatedAt run = 0 then False
         else secDuration t \<le> timeSub now (startOf run))"

definition staleMessage :: "int \<Rightarrow> string" where
  "staleMessage t = ''stale running run discarded after '' @ itoa t @ '' seconds without a status update''"

definition finalizeStaleRunningRun :: "scheduler \<Rightarrow> run \<Rightarrow> time \<Rightarrow> int \<Rightarrow> unit io" where
  "finalizeStaleRunningRun s run now timeoutSec =
     (let t = effectiveTimeoutSec s timeoutSec; msg = staleMessage t in
      bindIO (UpdateStatus (runID run) RunStatusTimeout (Some (startOf run)) (Some now) (Some (- 1)) (Some msg)) (\<lambda>_.
      bindIO (eventsCreate (zeroEvent\<lparr>evRunID := runID run, evEventType := RunEventTypeTimeout,
                              evMessage := Some msg\<rparr>)) (\<lambda>_. returnIO ())))"

text \<open>The loop over the running runs: stale ones are finalised, the others are collected.\<close>

fun splitStale :: "scheduler \<Rightarrow> time \<Rightarrow> int \<Rightarrow> run list \<Rightarrow> run list io" where
  "splitStale s now timeoutSec [] = returnIO []"
| "splitStale s now timeoutSec (r # rs) =
     (if isRunningRunStale s r now timeoutSec
      then bindIO (finalizeStaleRunningRun s r now timeoutSec) (\<lambda>_. splitStale s now timeoutSec rs)
      else bindIO (splitStale s now timeoutSec rs) (\<lambda>act. returnIO (r # act)))"

definition skipMessage :: "int \<Rightarrow> time \<Rightarrow> string" where
  "skipMessage i nextRunAt =
     ''scheduled run skipped: concurrency policy forbid and run '' @ itoa i
       @ '' is still running; next run advanced to '' @ formatRFC3339 nextRunAt"

definition createDueRun :: "run \<Rightarrow> event_type \<Rightarrow> string option \<Rightarrow> int \<Rightarrow> time \<Rightarrow> time \<Rightarrow> unit io" where
  "createDueRun run eventType msg jobId nextRunAt scheduledAt =
     bindIO (runsCreate run) (\<lambda>run.
     bindIO (eventsCreate (zeroEvent\<lparr>evRunID := runID run, evEventType := eventType, evMessage := msg\<rparr>)) (\<lambda>_.
       UpdateScheduling jobId (Some nextRunAt) (Some scheduledAt)))"

definition pendingDueRun :: "job \<Rightarrow> time \<Rightarrow> run" where
  "pendingDueRun job scheduledAt = zeroRun\<lparr>runJobID := jobID job, runScheduledAt := scheduledAt,
     runStatus := RunStatusPending, runAttempt := 0\<rparr>"

definition skippedDueRun :: "job \<Rightarrow> time \<Rightarrow> time \<Rightarrow> string \<Rightarrow> run" where
  "skippedDueRun job scheduledAt now msg = zeroRun\<lparr>runJobID := jobID job, runScheduledAt := scheduledAt,
     runFinishedAt := Some now, runStatus := RunStatusSkipped, runAttempt := 0, runErrorMessage := Some msg\<rparr>"

definition dueTx :: "scheduler \<Rightarrow> job \<Rightarrow> time \<Rightarrow> time \<Rightarrow> time \<Rightarrow> unit io" where
  "dueTx s job now nextRunAt scheduledAt =
     bindIO (if jobConcurrencyPolicy job = ConcurrencyPolicyForbid
             then bindIO (runsList \<lparr>rfJobID = Some (jobID job), rfStatus = Some RunStatusRunning,
                            rfFrom = None, rfTo = None\<rparr> \<lparr>pagePage = 1, pageSize = 100\<rparr>) (\<lambda>(running, total).
                    splitStale s now (jobTimeoutSec job) running)
             else returnIO []) (\<lambda>activeRunning.
       case activeRunning of
         [] \<Rightarrow> createDueRun (pendingDueRun job scheduledAt) RunEventTypeCreated None
                 (jobID job) nextRunAt scheduledAt
       | r # _ \<Rightarrow>
           let msg = skipMessage (runID r) nextRunAt in
           createDueRun (skippedDueRun job scheduledAt now msg) RunEventTypeSkipped (Some msg)
             (jobID job) nextRunAt scheduledAt)"

definition processDueJob :: "scheduler \<Rightarrow> cron_lib \<Rightarrow> job \<Rightarrow> time \<Rightarrow> unit io" where
  "processDueJob s lib job now =
     (case jobNextRunAt job of None \<Rightarrow> returnIO ()
      | Some scheduledAt \<Rightarrow>
          bindIO (liftRes (schedulerNextRunAt lib job now)) (\<lambda>nextRunAt.
            WithinTx (dueTx s job now nextRunAt scheduledAt)))"

text \<open>The scan: an error of the listing ends it, an error of one job is printed and the next job is
  processed.\<close>

fun processEach :: "scheduler \<Rightarrow> cron_lib \<Rightarrow> time \<Rightarrow> job list \<Rightarrow> unit io" where
  "processEach s lib now [] = returnIO ()"
| "processEach s lib now (j # js) =
     bindIO (tryIO (processDueJob s lib j now)) (\<lambda>_. processEach s lib now js)"

definition processDueJobs :: "scheduler \<Rightarrow> cron_lib \<Rightarrow> unit io" where
  "processDueJobs s lib =
     bindIO timeNow (\<lambda>now.
     bindIO (tryIO (ListDue now)) (\<lambda>r.
       case r of Inl _ \<Rightarrow> returnIO () | Inr jobs \<Rightarrow> processEach s lib now jobs))"

section \<open>The constraints and the spent runs\<close>

lemma wf_splitStale [wf_intros]: "keeps dbWf (splitStale s now t rs)"
  by (induction rs) (auto simp: finalizeStaleRunningRun_def Let_def intro!: wf_intros)

lemma spent_splitStale [spent_intros]: "obeys keepsSpent (splitStale s now t rs)"
  by (induction rs) (auto simp: finalizeStaleRunningRun_def Let_def intro!: spent_intros)

lemma wf_createDueRun [wf_intros]: "keeps dbWf (createDueRun r t m i a b)"
  unfolding createDueRun_def by (intro wf_intros)

lemma spent_createDueRun [spent_intros]: "obeys keepsSpent (createDueRun r t m i a b)"
  unfolding createDueRun_def by (intro spent_intros)

lemma wf_dueTx [wf_intros]: "keeps dbWf (dueTx s j now n t)"
  unfolding dueTx_def Let_def
  by (intro wf_kept.obeys_bindIO) (auto intro!: wf_intros split: list.split)

lemma spent_dueTx [spent_intros]: "obeys keepsSpent (dueTx s j now n t)"
  unfolding dueTx_def Let_def
  by (intro spent_kept.obeys_bindIO) (auto intro!: spent_intros split: list.split)

lemma wf_processDueJob [wf_intros]: "keeps dbWf (processDueJob s lib j now)"
  unfolding processDueJob_def by (intro wf_intros)

lemma spent_processDueJob [spent_intros]: "obeys keepsSpent (processDueJob s lib j now)"
  unfolding processDueJob_def by (intro spent_intros)

lemma wf_processEach [wf_intros]: "keeps dbWf (processEach s lib now js)"
  by (induction js) (auto intro!: wf_intros)

lemma spent_processEach [spent_intros]: "obeys keepsSpent (processEach s lib now js)"
  by (induction js) (auto intro!: spent_intros)

lemma wf_processDueJobs [wf_intros]: "keeps dbWf (processDueJobs s lib)"
  unfolding processDueJobs_def by (intro wf_intros)

lemma spent_processDueJobs [spent_intros]: "obeys keepsSpent (processDueJobs s lib)"
  unfolding processDueJobs_def by (intro spent_intros)

section \<open>What the loop over the running runs does\<close>

definition timedOut :: "(run_row \<Rightarrow> run_row) \<Rightarrow> int set \<Rightarrow> bool" where
  "timedOut g ids \<longleftrightarrow> (\<forall>a. (rr_id a \<notin> ids \<longrightarrow> g a = a)
     \<and> rr_id (g a) = rr_id a \<and> runKey (g a) = runKey a
     \<and> (rr_id a \<in> ids \<longrightarrow> rr_status (g a) = RunStatusTimeout))"

lemma finalizeStale_Inr:
  assumes "finalizeStaleRunningRun s r now t w = (Inr u, w')"
  obtains g where "timedOut g {runID r}" and "dbRuns (wDb w') = map g (dbRuns (wDb w))"
    and "dbJobs (wDb w') = dbJobs (wDb w)" and "dbRunSeq (wDb w') = dbRunSeq (wDb w)"
proof -
  let ?m = "staleMessage (effectiveTimeoutSec s t)"
  from assms obtain w1 e where u: "UpdateStatus (runID r) RunStatusTimeout (Some (startOf r)) (Some now)
      (Some (- 1)) (Some ?m) w = (Inr (), w1)"
    and e: "eventsCreate (zeroEvent\<lparr>evRunID := runID r, evEventType := RunEventTypeTimeout,
      evMessage := Some ?m\<rparr>) w1 = (Inr e, w')"
    by (auto simp: finalizeStaleRunningRun_def Let_def io_Inr)
  let ?f = "setRunStatus RunStatusTimeout (encodeNullableTime (Some (startOf r)))
    (encodeNullableTime (Some now)) (Some (- 1)) (Some ?m) (encodeTime (wClock w (wTicks w)))"
  show thesis
    by (rule that [of "\<lambda>a. if rr_id a = runID r then ?f a else a"])
      (simp_all add: timedOut_def UpdateStatus_Inr(2) [OF u] eventsCreate_Inr(2) [OF e] tUpdate_def)
qed

lemma timedOut_comp: "timedOut g A \<Longrightarrow> timedOut h B \<Longrightarrow> timedOut (h \<circ> g) (A \<union> B)"
  unfolding timedOut_def o_apply by (metis Un_iff)

lemma splitStale_Inr:
  assumes "splitStale s now t rs w = (Inr act, w')"
  shows "act = filter (\<lambda>r. \<not> isRunningRunStale s r now t) rs
     \<and> dbJobs (wDb w') = dbJobs (wDb w) \<and> dbRunSeq (wDb w') = dbRunSeq (wDb w)
     \<and> (\<exists>g. timedOut g (runID ` set (filter (\<lambda>r. isRunningRunStale s r now t) rs))
          \<and> dbRuns (wDb w') = map g (dbRuns (wDb w)))"
  using assms
proof (induction rs arbitrary: w act)
  case Nil
  moreover have "timedOut id {}" by (simp add: timedOut_def)
  ultimately show ?case by (auto simp: returnIO_def intro!: exI [of _ id])
next
  case (Cons r rs)
  show ?case
  proof (cases "isRunningRunStale s r now t")
    case True
    with Cons.prems obtain w1 where f: "finalizeStaleRunningRun s r now t w = (Inr (), w1)"
      and rest: "splitStale s now t rs w1 = (Inr act, w')" by (auto simp: bindIO_Inr)
    from f obtain g where g: "timedOut g {runID r}" "dbRuns (wDb w1) = map g (dbRuns (wDb w))"
      "dbJobs (wDb w1) = dbJobs (wDb w)" "dbRunSeq (wDb w1) = dbRunSeq (wDb w)"
      by (rule finalizeStale_Inr)
    from Cons.IH [OF rest] obtain h where
      h: "timedOut h (runID ` set (filter (\<lambda>r. isRunningRunStale s r now t) rs))"
        "dbRuns (wDb w') = map h (dbRuns (wDb w1))" by blast
    with timedOut_comp [OF g(1) h(1)] g Cons.IH [OF rest] True show ?thesis
      by (intro conjI exI [of _ "h \<circ> g"]) (simp_all add: comp_def)
  next
    case False
    with Cons.prems obtain act' where "splitStale s now t rs w = (Inr act', w')" "act = r # act'"
      by (auto simp: bindIO_Inr returnIO_def)
    with Cons.IH False show ?thesis by auto
  qed
qed

lemma createDueRun_Inr:
  assumes "createDueRun run et msg i n t w = (Inr u, w')"
  obtains r e where "runID r = dbRunSeq (wDb w) + 1"
    and "runScheduledAt r = runScheduledAt run" and "runStatus r = runStatus run"
    and "runAttempt r = runAttempt run" and "runJobID r = runJobID run"
    and "dbRuns (wDb w') = dbRuns (wDb w) @ [runRow r]"
    and "dbEvents (wDb w') = dbEvents (wDb w) @ [eventRow e]"
    and "evRunID e = runID r" and "evEventType e = et"
    and "\<exists>a. dbJobs (wDb w') = tUpdate (\<lambda>j. jr_id j = i) (\<lambda>j. j\<lparr>jr_next_run_at := Some (encodeTime n),
      jr_last_scheduled_at := Some (encodeTime t), jr_updated_at := a\<rparr>) (dbJobs (wDb w))"
proof -
  from assms obtain r e w1 w2 where r: "runsCreate run w = (Inr r, w1)"
    and e: "eventsCreate (zeroEvent\<lparr>evRunID := runID r, evEventType := et, evMessage := msg\<rparr>) w1 = (Inr e, w2)"
    and u: "UpdateScheduling i (Some n) (Some t) w2 = (Inr (), w')"
    by (auto simp: createDueRun_def bindIO_Inr)
  note rs = runsCreate_Inr [OF r] and es = eventsCreate_Inr [OF e] and us = UpdateScheduling_Inr [OF u]
  show thesis
  proof (rule that [of r e])
    show "runID r = dbRunSeq (wDb w) + 1" by (rule rs(1))
    show "runScheduledAt r = runScheduledAt run" "runStatus r = runStatus run"
      "runAttempt r = runAttempt run" "runJobID r = runJobID run"
      by (subst rs(3), simp add: stampedRun_def)+
    show "dbRuns (wDb w') = dbRuns (wDb w) @ [runRow r]"
      "dbEvents (wDb w') = dbEvents (wDb w) @ [eventRow e]"
      by (simp_all add: us es(2) rs(2))
    show "evRunID e = runID r" "evEventType e = et"
      by (subst es(3), simp add: stampedEvent_def)+
    show "\<exists>a. dbJobs (wDb w') = tUpdate (\<lambda>j. jr_id j = i) (\<lambda>j. j\<lparr>jr_next_run_at := Some (encodeTime n),
      jr_last_scheduled_at := Some (encodeTime t), jr_updated_at := a\<rparr>) (dbJobs (wDb w))"
      by (rule exI) (simp add: us es(2) rs(2) encodeNullableTime_def)
  qed
qed

section \<open>What processing a due job does\<close>

lemma processDueJob_Inl:
  assumes "processDueJob s lib j now w = (Inl e, w')"
  shows "wDb w' = wDb w"
  using assms by (auto simp: processDueJob_def bindIO_Inl liftRes_def returnIO_def
      split: option.splits dest: WithinTx_Inl)

text \<open>The running runs of a job, in the order the listing gives them.\<close>

definition runningOf :: "int \<Rightarrow> db \<Rightarrow> run_row list" where
  "runningOf i d = filter (\<lambda>r. rr_job_id r = i \<and> rr_status r = RunStatusRunning) (dbRuns d)"

lemma processDueJob_Inr:
  assumes "processDueJob s lib j now w = (Inr u, w')" and "jobNextRunAt j = Some t"
  obtains nxt g ids r e where "schedulerNextRunAt lib j now = Inr nxt"
    and "timedOut g ids" and "ids \<subseteq> rr_id ` set (runningOf (jobID j) (wDb w))"
    and "runID r = dbRunSeq (wDb w) + 1" and "runJobID r = jobID j" and "runScheduledAt r = t"
    and "runAttempt r = 0" and "runStatus r = RunStatusPending \<or> runStatus r = RunStatusSkipped"
    and "dbRuns (wDb w') = map g (dbRuns (wDb w)) @ [runRow r]"
    and "eventRow e \<in> set (dbEvents (wDb w'))" and "evRunID e = runID r"
    and "evEventType e = (if runStatus r = RunStatusPending then RunEventTypeCreated else RunEventTypeSkipped)"
    and "\<exists>a. dbJobs (wDb w') = tUpdate (\<lambda>x. jr_id x = jobID j) (\<lambda>x. x\<lparr>jr_next_run_at := Some (encodeTime nxt),
      jr_last_scheduled_at := Some (encodeTime t), jr_updated_at := a\<rparr>) (dbJobs (wDb w))"
    and "jobConcurrencyPolicy j \<noteq> ConcurrencyPolicyForbid \<Longrightarrow> ids = {} \<and> runStatus r = RunStatusPending"
    and "jobConcurrencyPolicy j = ConcurrencyPolicyForbid \<Longrightarrow> runStatus r = RunStatusPending \<Longrightarrow>
      length (runningOf (jobID j) (wDb w)) \<le> 100 \<Longrightarrow> ids = rr_id ` set (runningOf (jobID j) (wDb w))"
proof -
  from assms obtain nxt w1 where nxt: "schedulerNextRunAt lib j now = Inr nxt"
    and tx: "WithinTx (dueTx s j now nxt t) w = (Inr u, w1)" and w': "wDb w' = wDb w1"
    by (auto simp: processDueJob_def io_Inr)
  from tx obtain w2 w3 where w2: "wDb w2 = wDb w" and body: "dueTx s j now nxt t w2 = (Inr u, w3)"
    and w3: "wDb w1 = wDb w3"
    using WithinTx_db [OF tx] by blast
  let ?f = "\<lparr>rfJobID = Some (jobID j), rfStatus = Some RunStatusRunning, rfFrom = None, rfTo = None\<rparr>"
  have match: "runMatches ?f = (\<lambda>r. rr_job_id r = jobID j \<and> rr_status r = RunStatusRunning)"
    by (rule ext) (simp add: runMatches_def)
  let ?run = "runningOf (jobID j) (wDb w)"
  let ?start = "if jobConcurrencyPolicy j = ConcurrencyPolicyForbid
    then bindIO (runsList ?f \<lparr>pagePage = 1, pageSize = 100\<rparr>) (\<lambda>(running, total). splitStale s now (jobTimeoutSec j) running)
    else returnIO []"
  from body obtain act w4 where st: "?start w2 = (Inr act, w4)"
    and rest: "(case act of [] \<Rightarrow> createDueRun (pendingDueRun j t) RunEventTypeCreated None (jobID j) nxt t
       | r # _ \<Rightarrow> let msg = skipMessage (runID r) nxt in
           createDueRun (skippedDueRun j t now msg) RunEventTypeSkipped (Some msg) (jobID j) nxt t) w4 = (Inr u, w3)"
    by (auto simp: dueTx_def bindIO_Inr)
  have "\<exists>g ids. timedOut g ids \<and> dbRuns (wDb w4) = map g (dbRuns (wDb w)) \<and> dbJobs (wDb w4) = dbJobs (wDb w)
     \<and> dbRunSeq (wDb w4) = dbRunSeq (wDb w) \<and> ids \<subseteq> rr_id ` set ?run
     \<and> (jobConcurrencyPolicy j \<noteq> ConcurrencyPolicyForbid \<longrightarrow> ids = {} \<and> act = [])
     \<and> (jobConcurrencyPolicy j = ConcurrencyPolicyForbid \<longrightarrow> act = [] \<longrightarrow> length ?run \<le> 100 \<longrightarrow> ids = rr_id ` set ?run)"
  proof (cases "jobConcurrencyPolicy j = ConcurrencyPolicyForbid")
    case False
    then have "act = []" "w4 = w2" using st by (simp_all add: returnIO_Inr)
    moreover have "timedOut id {}" by (simp add: timedOut_def)
    ultimately show ?thesis using False w2 by (intro exI [of _ id] exI [of _ "{}"]) simp
  next
    case True
    then obtain running total w5 where l: "runsList ?f \<lparr>pagePage = 1, pageSize = 100\<rparr> w2 = (Inr (running, total), w5)"
      and sp: "splitStale s now (jobTimeoutSec j) running w5 = (Inr act, w4)"
      using st by (auto simp: bindIO_Inr)
    let ?all = "rev (sort_key (\<lambda>r. (rr_scheduled_at r, rr_id r)) ?run)"
    from runsList_Inr [OF l] have d5: "wDb w5 = wDb w"
      and sc: "map_res scanRun (take 100 ?all) = Inr running"
      using w2 by (simp_all add: normalize_def sqlLimit_def sqlOffset_def match [simplified] runningOf_def in_int64_def)
    have ids: "runID ` set running = rr_id ` set (take 100 ?all)"
      using scanRuns_ids [OF sc] by (metis list.set_map)
    let ?stale = "filter (\<lambda>r. isRunningRunStale s r now (jobTimeoutSec j)) running"
    have "set ?stale \<subseteq> set running" by auto
    moreover have "set (take 100 ?all) \<subseteq> set ?run" using set_take_subset [of 100 ?all] by simp
    ultimately have sub: "runID ` set ?stale \<subseteq> rr_id ` set ?run" using ids by blast
    have all: "runID ` set ?stale = rr_id ` set ?run" if "act = []" "length ?run \<le> 100"
    proof -
      have "take 100 ?all = ?all" using that(2) by simp
      then have "runID ` set running = rr_id ` set ?run" using ids by simp
      moreover have "filter (\<lambda>r. \<not> isRunningRunStale s r now (jobTimeoutSec j)) running = []"
        using splitStale_Inr [OF sp] that(1) by metis
      then have "?stale = running" by (simp add: filter_empty_conv filter_id_conv)
      ultimately show ?thesis by simp
    qed
    from splitStale_Inr [OF sp] obtain g where "timedOut g (runID ` set ?stale)"
      "dbRuns (wDb w4) = map g (dbRuns (wDb w5))" by blast
    with splitStale_Inr [OF sp] d5 True sub all show ?thesis
      by (intro exI [of _ g] exI [of _ "runID ` set ?stale"]) simp
  qed
  then obtain g ids where g: "timedOut g ids" "dbRuns (wDb w4) = map g (dbRuns (wDb w))"
    "dbJobs (wDb w4) = dbJobs (wDb w)" "dbRunSeq (wDb w4) = dbRunSeq (wDb w)" "ids \<subseteq> rr_id ` set ?run"
    "jobConcurrencyPolicy j \<noteq> ConcurrencyPolicyForbid \<Longrightarrow> ids = {} \<and> act = []"
    "jobConcurrencyPolicy j = ConcurrencyPolicyForbid \<Longrightarrow> act = [] \<Longrightarrow> length ?run \<le> 100 \<Longrightarrow> ids = rr_id ` set ?run"
    by blast
  show thesis
  proof (cases act)
    case Nil
    with rest have "createDueRun (pendingDueRun j t) RunEventTypeCreated None (jobID j) nxt t w4 = (Inr u, w3)" by simp
    then show thesis
    proof (rule createDueRun_Inr, goal_cases)
      case (1 r e)
      then show thesis
        by (intro that [of nxt g ids r e]) (use nxt g w3 w' Nil in \<open>simp_all add: pendingDueRun_def\<close>)
    qed
  next
    case (Cons a as)
    with rest have "createDueRun (skippedDueRun j t now (skipMessage (runID a) nxt)) RunEventTypeSkipped
      (Some (skipMessage (runID a) nxt)) (jobID j) nxt t w4 = (Inr u, w3)" by (simp add: Let_def)
    then show thesis
    proof (rule createDueRun_Inr, goal_cases)
      case (1 r e)
      then show thesis
        by (intro that [of nxt g ids r e]) (use nxt g w3 w' Cons in \<open>simp_all add: skippedDueRun_def\<close>)
    qed
  qed
qed

end
