(* ===== verification/Worker.thy ===== *)
theory Worker
  imports Sched_Core
begin

text \<open>
  \<open>internal/scheduler/worker.go\<close>: what a worker does with one run. It loads the run and its job,
  claims the run in a transaction, has it executed, and records the outcome in a second transaction,
  with the retry run where one is due. The executor is an argument; while it runs anything may
  happen to the world. The lemmas show what the claim and the finalisation write, that an error
  writes nothing, and how far retries go.
\<close>

record execution_result =
  exExitCode :: int
  exLogPath :: string
  exResultPath :: string
  exImageDigest :: "string option"

text \<open>What the worker sees when \<open>Execute\<close> returns: the result and the error, either of which may be
  nil, and \<open>runCtx.Err()\<close>.\<close>

record exec_outcome =
  outResult :: "execution_result option"
  outErr :: "goerr option"
  outCtxErr :: "goerr option"

type_synonym executor = "job \<Rightarrow> run \<Rightarrow> world \<Rightarrow> exec_outcome \<times> world"

definition noopExecutor :: executor where
  "noopExecutor job run w =
     (\<lparr>outResult = Some \<lparr>exExitCode = 0, exLogPath = [], exResultPath = [], exImageDigest = None\<rparr>,
       outErr = None, outCtxErr = None\<rparr>, w)"

definition runEvent :: "int \<Rightarrow> event_type \<Rightarrow> string \<Rightarrow> run_event" where
  "runEvent i t msg = zeroEvent\<lparr>evRunID := i, evEventType := t, evMessage := Some msg\<rparr>"

definition buildRetryRun :: "job \<Rightarrow> run \<Rightarrow> (run \<times> run_event) option" where
  "buildRetryRun job currentRun =
     (if jobRetryLimit job \<le> 0 then None
      else if jobRetryLimit job \<le> runAttempt currentRun then None
      else Some (zeroRun\<lparr>runJobID := jobID job, runScheduledAt := runScheduledAt currentRun,
                         runStatus := RunStatusPending, runAttempt := runAttempt currentRun + 1\<rparr>,
                 zeroEvent\<lparr>evEventType := RunEventTypeCreated,
                   evMessage := Some (''retry scheduled from run '' @ itoa (runID currentRun)
                     @ '' attempt '' @ itoa (runAttempt currentRun))\<rparr>))"

section \<open>Loading and claiming\<close>

definition workerLoad :: "int \<Rightarrow> (run \<times> job) io" where
  "workerLoad i =
     bindIO (runsGet i) (\<lambda>run. bindIO (jobsGet (runJobID run)) (\<lambda>job. returnIO (run, job)))"

datatype claim = ShouldStop | NotClaimed | Claimed

definition claimTx :: "int \<Rightarrow> time \<Rightarrow> claim io" where
  "claimTx i startedAt =
     bindIO (runsGet i) (\<lambda>freshRun.
       if runStatus freshRun = RunStatusCancelled then returnIO ShouldStop
       else if runStatus freshRun = RunStatusCancelling
       then bindIO timeNow (\<lambda>finishedAt.
            bindIO (UpdateStatus i RunStatusCancelled (runStartedAt freshRun) (Some finishedAt)
                      (runExitCode freshRun) (runErrorMessage freshRun)) (\<lambda>_.
            bindIO (eventsCreate (runEvent i RunEventTypeCancelled ''run cancelled before execution'')) (\<lambda>_.
              returnIO ShouldStop)))
       else if runStatus freshRun = RunStatusPending
       then bindIO (ClaimPending i startedAt) (\<lambda>ok.
              if \<not> ok then returnIO NotClaimed
              else bindIO (eventsCreate (runEvent i RunEventTypeStarted ''run started'')) (\<lambda>_.
                     returnIO Claimed))
       else returnIO NotClaimed)"

text \<open>The claim with what surrounds it: the error is logged and the worker returns; a run not
  claimed wakes the dispatch loop.\<close>

definition workerClaim :: "int \<Rightarrow> run \<Rightarrow> run option io" where
  "workerClaim i run =
     bindIO timeNow (\<lambda>startedAt.
     bindIO (tryIO (WithinTx (claimTx i startedAt))) (\<lambda>r.
       case r of Inl _ \<Rightarrow> returnIO None
       | Inr Claimed \<Rightarrow> returnIO (Some (run\<lparr>runStartedAt := Some startedAt\<rparr>))
       | Inr _ \<Rightarrow> bindIO NotifyDispatch (\<lambda>_. returnIO None)))"

section \<open>Recording the outcome\<close>

definition abortTx :: "int \<Rightarrow> run \<Rightarrow> time \<Rightarrow> unit io" where
  "abortTx i run finishedAt =
     bindIO (UpdateStatus i RunStatusCancelled (runStartedAt run) (Some finishedAt)
               (runExitCode run) (runErrorMessage run)) (\<lambda>_.
     bindIO (eventsCreate (runEvent i RunEventTypeCancelled ''context cancelled'')) (\<lambda>_. returnIO ()))"

definition workerAbort :: "int \<Rightarrow> run \<Rightarrow> unit io" where
  "workerAbort i run =
     bindIO timeNow (\<lambda>finishedAt.
     bindIO (tryIO (WithinTx (abortTx i run finishedAt))) (\<lambda>_. NotifyDispatch))"

definition ctxIs :: "exec_outcome \<Rightarrow> goerr \<Rightarrow> bool" where
  "ctxIs out e = (case outCtxErr out of None \<Rightarrow> False | Some c \<Rightarrow> errorsIs c e)"

definition createRetry :: "job \<Rightarrow> run \<Rightarrow> unit io" where
  "createRetry job run =
     (case buildRetryRun job run of None \<Rightarrow> returnIO ()
      | Some (retryRun, retryEvent) \<Rightarrow>
          bindIO (runsCreate retryRun) (\<lambda>retryRun.
          bindIO (eventsCreate (retryEvent\<lparr>evRunID := runID retryRun\<rparr>)) (\<lambda>_. returnIO ())))"

definition resultExitCode :: "exec_outcome \<Rightarrow> int" where
  "resultExitCode out = (case outResult out of None \<Rightarrow> - 1 | Some r \<Rightarrow> exExitCode r)"

definition recordStatus ::
  "int \<Rightarrow> run \<Rightarrow> time \<Rightarrow> run_status \<Rightarrow> int option \<Rightarrow> string option \<Rightarrow> event_type \<Rightarrow> string \<Rightarrow> unit io" where
  "recordStatus i run finishedAt status exitCode errorMessage eventType msg =
     bindIO (UpdateStatus i status (runStartedAt run) (Some finishedAt) exitCode errorMessage) (\<lambda>_.
     bindIO (eventsCreate (runEvent i eventType msg)) (\<lambda>_. returnIO ()))"

definition finishTx :: "int \<Rightarrow> job \<Rightarrow> run \<Rightarrow> exec_outcome \<Rightarrow> time \<Rightarrow> unit io" where
  "finishTx i job run out finishedAt =
     bindIO (if outResult out \<noteq> None then UpdateLogArtifacts i (runLogPath run) (runResultPath run)
             else returnIO ()) (\<lambda>_.
       case outErr out of
         None \<Rightarrow> recordStatus i run finishedAt RunStatusSuccess (Some 0) None
                   RunEventTypeCompleted ''run completed''
       | Some execErr \<Rightarrow>
           if ctxIs out DeadlineExceeded
           then bindIO (recordStatus i run finishedAt RunStatusTimeout (Some (resultExitCode out))
                          (Some ''job timeout'') RunEventTypeTimeout ''job timeout'')
                  (\<lambda>_. createRetry job run)
           else if ctxIs out Canceled
           then recordStatus i run finishedAt RunStatusCancelled None (Some ''context cancelled'')
                  RunEventTypeCancelled ''context cancelled''
           else bindIO (recordStatus i run finishedAt RunStatusFailed (Some (resultExitCode out))
                          (Some (errorText execErr)) RunEventTypeFailed (errorText execErr))
                  (\<lambda>_. createRetry job run))"

definition withArtifacts :: "exec_outcome \<Rightarrow> run \<Rightarrow> run" where
  "withArtifacts out run =
     (case outResult out of None \<Rightarrow> run
      | Some r \<Rightarrow>
          let run = (if exLogPath r \<noteq> [] then run\<lparr>runLogPath := Some (exLogPath r)\<rparr> else run)
          in if exResultPath r \<noteq> [] then run\<lparr>runResultPath := Some (exResultPath r)\<rparr> else run)"

definition workerFinish :: "int \<Rightarrow> job \<Rightarrow> run \<Rightarrow> exec_outcome \<Rightarrow> unit io" where
  "workerFinish i job run out =
     bindIO timeNow (\<lambda>finishedAt.
     bindIO (tryIO (WithinTx (finishTx i job (withArtifacts out run) out finishedAt))) (\<lambda>_. NotifyDispatch))"

section \<open>The worker\<close>

text \<open>\<open>ctxDone\<close> is the context of the scheduler at the check after the claim.\<close>

definition runWorker :: "scheduler \<Rightarrow> executor \<Rightarrow> bool \<Rightarrow> int \<Rightarrow> unit io" where
  "runWorker s exec ctxDone i =
     bindIO (tryIO (workerLoad i)) (\<lambda>l.
       case l of Inl _ \<Rightarrow> returnIO ()
       | Inr (run, job) \<Rightarrow>
           bindIO (workerClaim i run) (\<lambda>c.
             case c of None \<Rightarrow> returnIO ()
             | Some run \<Rightarrow>
                 if ctxDone then workerAbort i run
                 else let job = job\<lparr>jobTimeoutSec := effectiveTimeoutSec s (jobTimeoutSec job)\<rparr> in
                   bindIO (\<lambda>w. case exec job run w of (out, w') \<Rightarrow> (Inr out, w')) (\<lambda>out.
                     workerFinish i job run out)))"

section \<open>The constraints and the spent runs\<close>

lemma wf_worker_parts [wf_intros]:
  "keeps dbWf (workerLoad i)" "keeps dbWf (claimTx i t)" "keeps dbWf (abortTx i r t)"
  "keeps dbWf (createRetry j r)" "keeps dbWf (recordStatus i r t st c m et msg)"
  unfolding workerLoad_def claimTx_def abortTx_def createRetry_def recordStatus_def
  by (intro wf_intros)+

lemma spent_worker_parts [spent_intros]:
  "obeys keepsSpent (workerLoad i)" "obeys keepsSpent (claimTx i t)" "obeys keepsSpent (abortTx i r t)"
  "obeys keepsSpent (createRetry j r)"
  "st \<noteq> RunStatusPending \<Longrightarrow> obeys keepsSpent (recordStatus i r t st c m et msg)"
  unfolding workerLoad_def claimTx_def abortTx_def createRetry_def recordStatus_def
  by (intro spent_intros; simp)+

lemma wf_finishTx [wf_intros]: "keeps dbWf (finishTx i j r out t)"
  unfolding finishTx_def by (intro wf_intros)

lemma spent_finishTx [spent_intros]: "obeys keepsSpent (finishTx i j r out t)"
  unfolding finishTx_def by (intro spent_intros; simp)

lemma wf_workerClaim [wf_intros]: "keeps dbWf (workerClaim i r)"
  unfolding workerClaim_def
  by (intro wf_kept.obeys_bindIO) (auto intro!: wf_intros split: sum.split claim.split)

lemma spent_workerClaim [spent_intros]: "obeys keepsSpent (workerClaim i r)"
  unfolding workerClaim_def
  by (intro spent_kept.obeys_bindIO) (auto intro!: spent_intros split: sum.split claim.split)

lemma wf_worker_ends [wf_intros]: "keeps dbWf (workerAbort i r)" "keeps dbWf (workerFinish i j r out)"
  unfolding workerAbort_def workerFinish_def by (intro wf_intros)+

lemma spent_worker_ends [spent_intros]:
  "obeys keepsSpent (workerAbort i r)" "obeys keepsSpent (workerFinish i j r out)"
  unfolding workerAbort_def workerFinish_def by (intro spent_intros)+

section \<open>What the claim writes\<close>

lemma claimTx_Claimed:
  assumes "claimTx i t w = (Inr Claimed, w')"
  obtains u e where "claimRow i (encodeTime t) u (wDb w) = (Inr 1, (wDb w)\<lparr>dbRuns := dbRuns (wDb w')\<rparr>)"
    and "wDb w' = (wDb w)\<lparr>dbRuns := dbRuns (wDb w'), dbEvents := dbEvents (wDb w) @ [eventRow e],
      dbEventSeq := dbEventSeq (wDb w) + 1\<rparr>"
    and "evRunID e = i" and "evEventType e = RunEventTypeStarted"
proof -
  from assms obtain fresh w1 w2 e where g: "runsGet i w = (Inr fresh, w1)"
    and c: "ClaimPending i t w1 = (Inr True, w2)"
    and e: "eventsCreate (runEvent i RunEventTypeStarted ''run started'') w2 = (Inr e, w')"
    by (auto simp: claimTx_def io_Inr split: if_splits)
  from g have d1: "wDb w1 = wDb w" by (auto simp: runsGet_Inr)
  from ClaimPending_Inr [OF c] obtain u where cl: "claimRow i (encodeTime t) u (wDb w) = (Inr 1, wDb w2)"
    unfolding d1 by auto
  then obtain rs where w2: "wDb w2 = (wDb w)\<lparr>dbRuns := rs\<rparr>" unfolding claimRow_Inr by blast
  note es = eventsCreate_Inr [OF e]
  show thesis
    by (rule that [of u e])
      (use cl w2 es(2) es(3) in \<open>simp_all add: stampedEvent_def runEvent_def\<close>)
qed

lemma workerClaim_Some:
  assumes "workerClaim i run w = (Inr (Some run'), w')"
  obtains u e where "run' = run\<lparr>runStartedAt := Some (wClock w (wTicks w))\<rparr>"
    and "claimRow i (encodeTime (wClock w (wTicks w))) u (wDb w) = (Inr 1, (wDb w)\<lparr>dbRuns := dbRuns (wDb w')\<rparr>)"
    and "wDb w' = (wDb w)\<lparr>dbRuns := dbRuns (wDb w'), dbEvents := dbEvents (wDb w) @ [eventRow e],
      dbEventSeq := dbEventSeq (wDb w) + 1\<rparr>"
    and "evRunID e = i" and "evEventType e = RunEventTypeStarted"
proof -
  let ?t = "wClock w (wTicks w)"
  from assms obtain x w1 where x: "WithinTx (claimTx i ?t) (w\<lparr>wTicks := Suc (wTicks w)\<rparr>) = (x, w1)"
    and rest: "(case x of Inl _ \<Rightarrow> returnIO None
       | Inr Claimed \<Rightarrow> returnIO (Some (run\<lparr>runStartedAt := Some ?t\<rparr>))
       | Inr _ \<Rightarrow> bindIO NotifyDispatch (\<lambda>_. returnIO None)) w1 = (Inr (Some run'), w')"
    by (auto simp: workerClaim_def bindIO_Inr tryIO_Inr timeNow_Inr)
  from rest have "x = Inr Claimed" and run': "run' = run\<lparr>runStartedAt := Some ?t\<rparr>" and d: "wDb w' = wDb w1"
    by (auto simp: io_Inr split: sum.splits claim.splits)
  with x have tx: "WithinTx (claimTx i ?t) (w\<lparr>wTicks := Suc (wTicks w)\<rparr>) = (Inr Claimed, w1)" by simp
  from WithinTx_db [OF tx] obtain w2 w3 where w2: "wDb w2 = wDb w"
    and c: "claimTx i ?t w2 = (Inr Claimed, w3)" and w3: "wDb w1 = wDb w3" by auto
  from c show thesis
  proof (rule claimTx_Claimed, goal_cases)
    case (1 u e)
    then show thesis using that [of u e] run' w2 w3 d by simp
  qed
qed

lemma workerClaim_claimSucceeds:
  assumes "workerClaim i run w = (Inr (Some run'), w')" and "dbWf (wDb w)"
  shows "claimSucceeds (wDb w) i ((wDb w)\<lparr>dbRuns := dbRuns (wDb w')\<rparr>)"
  using assms by (auto simp: claimSucceeds_def elim!: workerClaim_Some)

section \<open>What the finalisation writes\<close>

text \<open>The status, exit code, message and event an outcome stands for.\<close>

definition finalStatus :: "exec_outcome \<Rightarrow> run_status" where
  "finalStatus out = (case outErr out of None \<Rightarrow> RunStatusSuccess
     | Some _ \<Rightarrow> if ctxIs out DeadlineExceeded then RunStatusTimeout
                 else if ctxIs out Canceled then RunStatusCancelled else RunStatusFailed)"

definition finalExitCode :: "exec_outcome \<Rightarrow> int option" where
  "finalExitCode out = (case outErr out of None \<Rightarrow> Some 0
     | Some _ \<Rightarrow> if \<not> ctxIs out DeadlineExceeded \<and> ctxIs out Canceled then None
                 else Some (resultExitCode out))"

definition retries :: "exec_outcome \<Rightarrow> bool" where
  "retries out \<longleftrightarrow> finalStatus out = RunStatusTimeout \<or> finalStatus out = RunStatusFailed"

lemma finalStatus_terminal: "isTerminal (finalStatus out)"
  by (simp add: finalStatus_def split: option.split)

lemma buildRetryRun_Some:
  "buildRetryRun job run = Some (r, e) \<longleftrightarrow> 0 < jobRetryLimit job \<and> runAttempt run < jobRetryLimit job
     \<and> r = zeroRun\<lparr>runJobID := jobID job, runScheduledAt := runScheduledAt run,
                   runStatus := RunStatusPending, runAttempt := runAttempt run + 1\<rparr>
     \<and> e = zeroEvent\<lparr>evEventType := RunEventTypeCreated,
                   evMessage := Some (''retry scheduled from run '' @ itoa (runID run)
                     @ '' attempt '' @ itoa (runAttempt run))\<rparr>"
  by (auto simp: buildRetryRun_def)

lemma createRetry_Inr:
  assumes "createRetry job run w = (Inr u, w')"
  shows "if 0 < jobRetryLimit job \<and> runAttempt run < jobRetryLimit job
    then \<exists>r e. wDb w' = (wDb w)\<lparr>dbRuns := dbRuns (wDb w) @ [runRow r], dbRunSeq := dbRunSeq (wDb w) + 1,
        dbEvents := dbEvents (wDb w) @ [eventRow e], dbEventSeq := dbEventSeq (wDb w) + 1\<rparr>
      \<and> runID r = dbRunSeq (wDb w) + 1 \<and> runJobID r = jobID job \<and> runStatus r = RunStatusPending
      \<and> runScheduledAt r = runScheduledAt run \<and> runAttempt r = runAttempt run + 1
      \<and> evRunID e = runID r \<and> evEventType e = RunEventTypeCreated
    else wDb w' = wDb w"
proof (cases "buildRetryRun job run")
  case None
  then show ?thesis using assms by (auto simp: createRetry_def returnIO_def buildRetryRun_def split: if_splits)
next
  case (Some p)
  obtain r0 e0 where b: "buildRetryRun job run = Some (r0, e0)" using Some by (cases p) auto
  from assms b obtain r e w1 where r: "runsCreate r0 w = (Inr r, w1)"
    and e: "eventsCreate (e0\<lparr>evRunID := runID r\<rparr>) w1 = (Inr e, w')"
    by (auto simp: createRetry_def io_Inr)
  note rs = runsCreate_Inr [OF r] and es = eventsCreate_Inr [OF e]
  from b [unfolded buildRetryRun_Some] have lim: "0 < jobRetryLimit job \<and> runAttempt run < jobRetryLimit job"
    and r0: "r0 = zeroRun\<lparr>runJobID := jobID job, runScheduledAt := runScheduledAt run,
        runStatus := RunStatusPending, runAttempt := runAttempt run + 1\<rparr>"
    and e0: "evEventType e0 = RunEventTypeCreated" by simp_all
  have "wDb w' = (wDb w)\<lparr>dbRuns := dbRuns (wDb w) @ [runRow r], dbRunSeq := dbRunSeq (wDb w) + 1,
      dbEvents := dbEvents (wDb w) @ [eventRow e], dbEventSeq := dbEventSeq (wDb w) + 1\<rparr>"
    using rs(2) es(2) by simp
  moreover have "runID r = dbRunSeq (wDb w) + 1" by (rule rs(1))
  moreover have "runJobID r = jobID job" "runStatus r = RunStatusPending"
    "runScheduledAt r = runScheduledAt run" "runAttempt r = runAttempt run + 1"
    by (simp_all add: rs(3) r0 stampedRun_def)
  moreover have "evRunID e = runID r" "evEventType e = RunEventTypeCreated"
    by (simp_all add: es(3) e0 stampedEvent_def)
  ultimately show ?thesis unfolding if_P [OF lim] by blast
qed

text \<open>A rewriting of the row with id \<open>i\<close> that keeps its key and sets the outcome.\<close>

definition records :: "(run_row \<Rightarrow> run_row) \<Rightarrow> int \<Rightarrow> run_status \<Rightarrow> int option \<Rightarrow> time \<Rightarrow> bool" where
  "records g i st code finishedAt \<longleftrightarrow> (\<forall>a. (rr_id a \<noteq> i \<longrightarrow> g a = a)
     \<and> rr_id (g a) = rr_id a \<and> runKey (g a) = runKey a
     \<and> (rr_id a = i \<longrightarrow> rr_status (g a) = st \<and> rr_exit_code (g a) = code
          \<and> rr_finished_at (g a) = Some (encodeTime finishedAt)))"

lemma recordStatus_Inr:
  assumes "recordStatus i run t st code msg et text w = (Inr u, w')"
  obtains g e where "records g i st code t"
    and "wDb w' = (wDb w)\<lparr>dbRuns := map g (dbRuns (wDb w)), dbEvents := dbEvents (wDb w) @ [eventRow e],
      dbEventSeq := dbEventSeq (wDb w) + 1\<rparr>"
    and "evRunID e = i" and "evEventType e = et"
proof -
  from assms obtain w1 e where up: "UpdateStatus i st (runStartedAt run) (Some t) code msg w = (Inr (), w1)"
    and e: "eventsCreate (runEvent i et text) w1 = (Inr e, w')"
    by (auto simp: recordStatus_def io_Inr)
  note us = UpdateStatus_Inr(2) [OF up] and es = eventsCreate_Inr [OF e]
  let ?f = "setRunStatus st (encodeNullableTime (runStartedAt run)) (encodeNullableTime (Some t)) code msg
    (encodeTime (wClock w (wTicks w)))"
  show thesis
    by (rule that [of "\<lambda>a. if rr_id a = i then ?f a else a" e])
      (use us es(2,3) in \<open>simp_all add: records_def tUpdate_def stampedEvent_def runEvent_def encodeNullableTime_def\<close>)
qed

lemma finishTx_Inr:
  assumes "finishTx i job run out t w = (Inr u, w')"
  obtains g rs where "records g i (finalStatus out) (finalExitCode out) t"
    and "dbRuns (wDb w') = map g (dbRuns (wDb w)) @ rs"
    and "dbJobs (wDb w') = dbJobs (wDb w)"
    and "retries out \<and> 0 < jobRetryLimit job \<and> runAttempt run < jobRetryLimit job \<Longrightarrow>
      \<exists>r. rs = [runRow r] \<and> runID r = dbRunSeq (wDb w) + 1 \<and> runJobID r = jobID job
        \<and> runStatus r = RunStatusPending \<and> runScheduledAt r = runScheduledAt run
        \<and> runAttempt r = runAttempt run + 1"
    and "\<not> (retries out \<and> 0 < jobRetryLimit job \<and> runAttempt run < jobRetryLimit job) \<Longrightarrow> rs = []"
proof -
  from assms obtain w1 where art: "(if outResult out \<noteq> None then UpdateLogArtifacts i (runLogPath run) (runResultPath run)
             else returnIO ()) w = (Inr (), w1)"
    and fin: "(case outErr out of
         None \<Rightarrow> recordStatus i run t RunStatusSuccess (Some 0) None RunEventTypeCompleted ''run completed''
       | Some execErr \<Rightarrow>
           if ctxIs out DeadlineExceeded
           then bindIO (recordStatus i run t RunStatusTimeout (Some (resultExitCode out))
                          (Some ''job timeout'') RunEventTypeTimeout ''job timeout'')
                  (\<lambda>_. createRetry job run)
           else if ctxIs out Canceled
           then recordStatus i run t RunStatusCancelled None (Some ''context cancelled'')
                  RunEventTypeCancelled ''context cancelled''
           else bindIO (recordStatus i run t RunStatusFailed (Some (resultExitCode out))
                          (Some (errorText execErr)) RunEventTypeFailed (errorText execErr))
                  (\<lambda>_. createRetry job run)) w1 = (Inr (), w')"
    by (auto simp: finishTx_def bindIO_Inr)
  from fin obtain st code msg et tx w2 where
    rec: "recordStatus i run t st code msg et tx w1 = (Inr (), w2)"
    and st: "st = finalStatus out" and code: "code = finalExitCode out"
    and ret: "if retries out then createRetry job run w2 = (Inr (), w') else w' = w2"
    by (auto simp: finalStatus_def finalExitCode_def retries_def bindIO_Inr split: option.splits if_splits)
  obtain h where h: "\<And>a. (rr_id a \<noteq> i \<longrightarrow> h a = a) \<and> rr_id (h a) = rr_id a \<and> runKey (h a) = runKey a"
    and w1: "wDb w1 = (wDb w)\<lparr>dbRuns := map h (dbRuns (wDb w))\<rparr>"
  proof (cases "outResult out")
    case None
    with art that [of id] show thesis by (simp add: returnIO_def)
  next
    case (Some r)
    with art have "UpdateLogArtifacts i (runLogPath run) (runResultPath run) w = (Inr (), w1)" by simp
    from UpdateLogArtifacts_Inr [OF this] show thesis
      by (intro that [of "\<lambda>a. if rr_id a = i then a\<lparr>rr_log_path := runLogPath run,
            rr_result_path := runResultPath run, rr_updated_at := encodeTime (wClock w (wTicks w))\<rparr> else a"])
        (simp_all add: tUpdate_def runKey_def)
  qed
  obtain g e where g: "records g i st code t"
    and w2: "wDb w2 = (wDb w1)\<lparr>dbRuns := map g (dbRuns (wDb w1)), dbEvents := dbEvents (wDb w1) @ [eventRow e],
      dbEventSeq := dbEventSeq (wDb w1) + 1\<rparr>"
    by (rule recordStatus_Inr [OF rec])
  have gh: "records (g \<circ> h) i (finalStatus out) (finalExitCode out) t"
    using g h unfolding records_def st code o_apply by metis
  show thesis
  proof (cases "retries out \<and> 0 < jobRetryLimit job \<and> runAttempt run < jobRetryLimit job")
    case True
    with ret have "createRetry job run w2 = (Inr (), w')" by simp
    from createRetry_Inr [OF this] True obtain r where
      "dbRuns (wDb w') = dbRuns (wDb w2) @ [runRow r]" "dbJobs (wDb w') = dbJobs (wDb w2)"
      "runID r = dbRunSeq (wDb w2) + 1" "runJobID r = jobID job" "runStatus r = RunStatusPending"
      "runScheduledAt r = runScheduledAt run" "runAttempt r = runAttempt run + 1" by auto
    with True w1 w2 show thesis by (intro that [OF gh, of "[runRow r]"]) auto
  next
    case False
    then have "wDb w' = wDb w2" using ret by (auto split: if_splits dest: createRetry_Inr)
    with False w1 w2 show thesis by (intro that [OF gh, of "[]"]) auto
  qed
qed

text \<open>The finalisation of a worker: it happens whole or not at all.\<close>

lemma workerFinish_cases:
  assumes "workerFinish i job run out w = (Inr u, w')"
  shows "wDb w' = wDb w \<or> (\<exists>w1 w2. wDb w1 = wDb w \<and> wDb w' = wDb w2
    \<and> finishTx i job (withArtifacts out run) out (wClock w (wTicks w)) w1 = (Inr (), w2))"
proof -
  let ?tx = "finishTx i job (withArtifacts out run) out (wClock w (wTicks w))"
  from assms obtain r w1 where tx: "WithinTx ?tx (w\<lparr>wTicks := Suc (wTicks w)\<rparr>) = (r, w1)"
    and d: "wDb w' = wDb w1"
    by (auto simp: workerFinish_def io_Inr)
  show ?thesis
  proof (cases r)
    case (Inl e)
    with WithinTx_Inl tx d show ?thesis by fastforce
  next
    case (Inr u')
    with WithinTx_db tx d show ?thesis by fastforce
  qed
qed

end
