(* ===== verification/Dispatch.thy ===== *)
theory Dispatch
  imports Worker
begin

text \<open>
  \<open>internal/scheduler/dispatch.go\<close> and the worker tokens of \<open>scheduler.go\<close>. The channel
  \<open>workerTokens\<close> holds one element per running worker and blocks when it is full. The dispatch
  loop lists as many pending runs as there are free tokens and starts a worker for each, until
  no token or no pending run is left. The interface \<open>token_pool\<close> says what the scheduler needs of
  the channel; the lemmas bound the workers and show which runs the loop starts.
\<close>

section \<open>Tokens\<close>

record pool =
  poolCap :: nat
  poolUsed :: nat

text \<open>A send to the channel: \<open>None\<close> where it blocks, or where the context is done.\<close>

definition acquireWorkerToken :: "bool \<Rightarrow> pool \<Rightarrow> pool option" where
  "acquireWorkerToken ctxDone p =
     (if ctxDone then None
      else if poolUsed p < poolCap p then Some (p\<lparr>poolUsed := poolUsed p + 1\<rparr>) else None)"

definition releaseWorkerToken :: "pool \<Rightarrow> pool" where
  "releaseWorkerToken p = (if 0 < poolUsed p then p\<lparr>poolUsed := poolUsed p - 1\<rparr> else p)"

text \<open>The laws of a pool of tokens, and what follows for its holders: a holder that releases its
  token once keeps the number of tokens in use equal to the number of holders.\<close>

locale token_pool =
  fixes acquire :: "'s \<Rightarrow> 's option" and release :: "'s \<Rightarrow> 's"
    and used :: "'s \<Rightarrow> nat" and cap :: "'s \<Rightarrow> nat"
  assumes acquire_room: "acquire s = Some t \<Longrightarrow> used s < cap s"
    and acquire_used: "acquire s = Some t \<Longrightarrow> used t = Suc (used s) \<and> cap t = cap s"
    and release_used: "used (release s) = used s - 1 \<and> cap (release s) = cap s"
begin

text \<open>\<open>holders s n t m\<close>: from \<open>s\<close> with \<open>n\<close> holders to \<open>t\<close> with \<open>m\<close>, by acquiring and releasing.\<close>

inductive holders :: "'s \<Rightarrow> nat \<Rightarrow> 's \<Rightarrow> nat \<Rightarrow> bool" where
  h_refl: "holders s n s n"
| h_acquire: "holders s n t m \<Longrightarrow> acquire t = Some u \<Longrightarrow> holders s n u (Suc m)"
| h_release: "holders s n t (Suc m) \<Longrightarrow> holders s n (release t) m"

lemma holders_used: "holders s n t m \<Longrightarrow> used s = n \<Longrightarrow> used t = m \<and> cap t = cap s"
  by (induction rule: holders.induct) (auto dest: acquire_used simp: release_used)

lemma holders_bound: "holders s n t m \<Longrightarrow> used s = n \<Longrightarrow> n \<le> cap s \<Longrightarrow> m \<le> cap s"
proof (induction rule: holders.induct)
  case (h_acquire s n t m u)
  then show ?case using holders_used [OF h_acquire.hyps(1)] acquire_room [OF h_acquire.hyps(2)] by simp
qed auto

end

interpretation workerTokens: token_pool "acquireWorkerToken done" releaseWorkerToken poolUsed poolCap
  for "done"
  by unfold_locales (auto simp: acquireWorkerToken_def releaseWorkerToken_def split: if_splits)

section \<open>The dispatch loop\<close>

text \<open>Starting workers for the runs of one listing; a token that is refused ends the call. The
  result is the pool, the ids workers were started for, and whether the loop goes on.\<close>

fun spawnAll :: "bool \<Rightarrow> run list \<Rightarrow> pool \<Rightarrow> pool \<times> int list \<times> bool" where
  "spawnAll ctxDone [] p = (p, [], True)"
| "spawnAll ctxDone (r # rs) p =
     (case acquireWorkerToken ctxDone p of
        None \<Rightarrow> (p, [], False)
      | Some p' \<Rightarrow> (case spawnAll ctxDone rs p' of (q, is, go) \<Rightarrow> (q, runID r # is, go)))"

text \<open>\<open>processDispatch\<close> where the workers it starts have not yet run: every turn takes a token, so
  one turn more than there are tokens reaches the end. Their interleaving is in theory System.\<close>

definition dispatchTurn :: "bool \<Rightarrow> pool \<Rightarrow> (pool \<Rightarrow> (pool \<times> int list) io) \<Rightarrow> (pool \<times> int list) io" where
  "dispatchTurn ctxDone p loop =
     (let available = int (poolCap p) - int (poolUsed p) in
      if available \<le> 0 then returnIO (p, [])
      else bindIO (tryIO (ListPending available)) (\<lambda>l.
        case l of
          Inl _ \<Rightarrow> returnIO (p, [])
        | Inr pending \<Rightarrow>
            if pending = [] then returnIO (p, [])
            else case spawnAll ctxDone pending p of (q, is, go) \<Rightarrow>
              if \<not> go then returnIO (q, is)
              else bindIO (loop q) (\<lambda>(q', is'). returnIO (q', is @ is'))))"

fun dispatchTurns :: "nat \<Rightarrow> bool \<Rightarrow> pool \<Rightarrow> (pool \<times> int list) io" where
  "dispatchTurns 0 ctxDone p = returnIO (p, [])"
| "dispatchTurns (Suc fuel) ctxDone p = dispatchTurn ctxDone p (dispatchTurns fuel ctxDone)"

definition processDispatch :: "bool \<Rightarrow> pool \<Rightarrow> (pool \<times> int list) io" where
  "processDispatch ctxDone p = dispatchTurns (Suc (poolCap p)) ctxDone p"

text \<open>\<open>markRunDispatch\<close>, which no caller uses.\<close>

definition markRunDispatch :: "int \<Rightarrow> unit io" where
  "markRunDispatch i =
     bindIO timeNow (\<lambda>now.
     bindIO (UpdateStatus i RunStatusRunning (Some now) None None None) (\<lambda>_.
     bindIO (eventsCreate (runEvent i RunEventTypeDispatched ''run dispatched'')) (\<lambda>_. returnIO ())))"

section \<open>What the loop starts\<close>

lemma spawnAll_holders:
  "spawnAll d rs p = (q, is, go) \<Longrightarrow> workerTokens.holders d p n q (n + length is)"
proof (induction rs arbitrary: p n q "is")
  case Nil
  then show ?case by (auto intro: workerTokens.h_refl)
next
  case (Cons r rs)
  show ?case
  proof (cases "acquireWorkerToken d p")
    case None
    with Cons.prems show ?thesis by (auto intro: workerTokens.h_refl)
  next
    case (Some p')
    with Cons.prems obtain js where js: "spawnAll d rs p' = (q, js, go)" "is = runID r # js"
      by (auto split: prod.splits)
    have trans: "workerTokens.holders d b m c k \<Longrightarrow> workerTokens.holders d a j b m \<Longrightarrow>
        workerTokens.holders d a j c k" for a b c j m k
      by (induction rule: workerTokens.holders.induct) (auto intro: workerTokens.holders.intros)
    from workerTokens.h_acquire [OF workerTokens.h_refl Some]
    have "workerTokens.holders d p n p' (Suc n)" .
    with Cons.IH [OF js(1), of "Suc n"] js(2) show ?thesis by (auto dest: trans)
  qed
qed

lemma spawnAll_used:
  "spawnAll d rs p = (q, is, go) \<Longrightarrow> poolUsed q = poolUsed p + length is \<and> poolCap q = poolCap p"
  using workerTokens.holders_used [OF spawnAll_holders] by blast

lemma spawnAll_ids: "spawnAll d rs p = (q, is, go) \<Longrightarrow> set is \<subseteq> runID ` set rs"
proof (induction rs arbitrary: p q "is")
  case (Cons r rs)
  show ?case
  proof (cases "acquireWorkerToken d p")
    case (Some p')
    with Cons.prems obtain js where js: "spawnAll d rs p' = (q, js, go)" "is = runID r # js"
      by (auto split: prod.splits)
    from Cons.IH [OF js(1)] js(2) show ?thesis by auto
  qed (use Cons.prems in simp)
qed simp

lemma spawnAll_bound:
  "spawnAll d rs p = (q, is, go) \<Longrightarrow> poolUsed p \<le> poolCap p \<Longrightarrow> poolUsed q \<le> poolCap q"
  using workerTokens.holders_bound [OF spawnAll_holders [where n = "poolUsed p"]] spawnAll_used
  by (metis (no_types, lifting))

text \<open>Where there is room for all of them and the context is not done, every listed run gets a worker.\<close>

lemma spawnAll_all:
  "poolUsed p + length rs \<le> poolCap p \<Longrightarrow>
   spawnAll False rs p = (p\<lparr>poolUsed := poolUsed p + length rs\<rparr>, map runID rs, True)"
  by (induction rs arbitrary: p) (simp_all add: acquireWorkerToken_def)

lemma dispatchTurns_bound:
  "dispatchTurns fuel d p w = (Inr (q, is), w') \<Longrightarrow> poolUsed p \<le> poolCap p \<Longrightarrow>
   poolUsed q = poolUsed p + length is \<and> poolCap q = poolCap p \<and> poolUsed q \<le> poolCap q \<and> wDb w' = wDb w"
proof (induction fuel arbitrary: p q "is" w)
  case 0
  then show ?case by (simp add: returnIO_def)
next
  case (Suc fuel)
  let ?av = "int (poolCap p) - int (poolUsed p)"
  show ?case
  proof (cases "?av \<le> 0")
    case True
    with Suc.prems show ?thesis by (simp add: dispatchTurn_def returnIO_def)
  next
    case False
    from Suc.prems(1) False obtain l w1 where l: "ListPending ?av w = (l, w1)"
      and rest: "(case l of Inl _ \<Rightarrow> returnIO (p, [])
        | Inr pending \<Rightarrow> if pending = [] then returnIO (p, [])
            else case spawnAll d pending p of (q, is, go) \<Rightarrow>
              if \<not> go then returnIO (q, is)
              else bindIO (dispatchTurns fuel d q) (\<lambda>(q', is'). returnIO (q', is @ is'))) w1
          = (Inr (q, is), w')"
      by (auto simp: dispatchTurn_def bindIO_Inr tryIO_Inr Let_def)
    have d1: "wDb w1 = wDb w"
      using l by (auto simp: ListPending_def Let_def bindIO_def mapErr_def queryDb_def execDb_def liftRes_def
          split: prod.splits sum.splits if_splits)
    show ?thesis
    proof (cases "\<exists>pending. l = Inr pending \<and> pending \<noteq> []")
      case False
      with rest d1 Suc.prems(2) show ?thesis by (auto simp: returnIO_def split: sum.splits if_splits)
    next
      case True
      then obtain pending where pe: "l = Inr pending" "pending \<noteq> []" by blast
      obtain q1 is1 go where sp: "spawnAll d pending p = (q1, is1, go)" by (metis prod_cases3)
      note b = spawnAll_used [OF sp] spawnAll_bound [OF sp Suc.prems(2)]
      show ?thesis
      proof (cases go)
        case False
        with rest pe sp b d1 show ?thesis by (auto simp: returnIO_def)
      next
        case True
        with rest pe sp obtain q2 is2 where
          "dispatchTurns fuel d q1 w1 = (Inr (q2, is2), w')" "q = q2" "is = is1 @ is2"
          by (auto simp: bindIO_Inr returnIO_def)
        with Suc.IH [of q1 w1 q2 is2] b d1 show ?thesis by simp
      qed
    qed
  qed
qed

text \<open>The fuel is enough: with more turns than free tokens, another turn changes nothing.\<close>

lemma spawnAll_progress:
  "spawnAll d rs p = (q, is, True) \<Longrightarrow> rs \<noteq> [] \<Longrightarrow> is \<noteq> []"
  by (cases rs) (auto split: option.splits prod.splits)

lemma dispatchTurn_cong:
  assumes "\<And>pending q is. spawnAll d pending p = (q, is, True) \<Longrightarrow> pending \<noteq> [] \<Longrightarrow>
    poolUsed p < poolCap p \<Longrightarrow> k q = k' q"
  shows "dispatchTurn d p k = dispatchTurn d p k'"
proof (cases "poolUsed p < poolCap p")
  case True
  have "(if pending = [] then returnIO (p, [])
            else case spawnAll d pending p of (q, is, go) \<Rightarrow>
              if \<not> go then returnIO (q, is)
              else bindIO (k q) (\<lambda>(q', is'). returnIO (q', is @ is')))
      = (if pending = [] then returnIO (p, [])
            else case spawnAll d pending p of (q, is, go) \<Rightarrow>
              if \<not> go then returnIO (q, is)
              else bindIO (k' q) (\<lambda>(q', is'). returnIO (q', is @ is')))" for pending
    by (auto dest!: assms [OF _ _ True] split: prod.split)
  then show ?thesis by (simp only: dispatchTurn_def)
qed (simp add: dispatchTurn_def)

lemma dispatchTurns_fuel:
  "poolCap p - poolUsed p < fuel \<Longrightarrow> dispatchTurns (Suc fuel) d p = dispatchTurns fuel d p"
proof (induction fuel arbitrary: p)
  case (Suc fuel)
  have "dispatchTurn d p (dispatchTurns (Suc fuel) d) = dispatchTurn d p (dispatchTurns fuel d)"
  proof (rule dispatchTurn_cong)
    fix pending q "is"
    assume sp: "spawnAll d pending p = (q, is, True)" "pending \<noteq> []" and room: "poolUsed p < poolCap p"
    have "is \<noteq> []" by (rule spawnAll_progress [OF sp])
    with spawnAll_used [OF sp(1)] Suc.prems room have "poolCap q - poolUsed q < fuel"
      by (cases "is") auto
    then show "dispatchTurns (Suc fuel) d q = dispatchTurns fuel d q" by (rule Suc.IH)
  qed
  then show ?case by (simp only: dispatchTurns.simps(2))
qed simp

lemma dispatchTurns_enough: "dispatchTurns (Suc (poolCap p) + k) d p = processDispatch d p"
proof (induction k)
  case (Suc k)
  have "dispatchTurns (Suc (Suc (poolCap p) + k)) d p = dispatchTurns (Suc (poolCap p) + k) d p"
    by (rule dispatchTurns_fuel) simp
  with Suc show ?case by (simp only: add_Suc_right)
qed (simp add: processDispatch_def)

text \<open>A call of the loop never returns an error: those of the listings are printed.\<close>

lemma dispatchTurns_Inr: "\<exists>q is w'. dispatchTurns fuel d p w = (Inr (q, is), w')"
proof (induction fuel arbitrary: p w)
  case 0
  then show ?case by (simp add: returnIO_def)
next
  case (Suc fuel)
  obtain l w1 where l: "ListPending (int (poolCap p) - int (poolUsed p)) w = (l, w1)" by force
  show ?case
  proof (cases l)
    case (Inl e)
    with l show ?thesis by (simp add: dispatchTurn_def Let_def bindIO_def tryIO_def returnIO_def)
  next
    case (Inr pending)
    obtain q js go where sp: "spawnAll d pending p = (q, js, go)" by (metis prod_cases3)
    obtain q' js' w2 where "dispatchTurns fuel d q w1 = (Inr (q', js'), w2)" using Suc.IH by blast
    with l Inr sp show ?thesis by (simp add: dispatchTurn_def Let_def bindIO_def tryIO_def returnIO_def)
  qed
qed

lemma processDispatch_Inr: "\<exists>q is w'. processDispatch d p w = (Inr (q, is), w')"
  unfolding processDispatch_def by (rule dispatchTurns_Inr)

end
