(* ===== verification/System.thy ===== *)
theory System
  imports World_Rel Job_Service Run_Service Due_Job Dispatch "HOL-Library.Multiset"
begin

text \<open>
  The program as a whole: the API, the due-job scan, the dispatch loop, the workers and the pruning
  of rows run at the same time over one database. A step is one statement or one transaction of
  one of them, since the store has one connection: a request that writes does so in a statement of its own,
  after what it has read and built; a worker is in one of five phases; and the two loops keep what they
  listed. Whatever only reads may come between any two steps. The context of the
  scheduler may be done at any time. Two histories are kept for the statements: the runs whose
  claim succeeded and the runs handed to the executor. The invariant gives the two guarantees
  of the scheduler: no run is executed twice, and no more than the configured number of workers
  are alive.
\<close>

section \<open>Requests in two halves\<close>

datatype request =
    CreateReq job_input
  | UpdateReq int job_input
  | DeleteReq int
  | TriggerReq int "string option"
  | CancelReq int

text \<open>What a request has in hand when it comes to write.\<close>

datatype underway =
    Creating job_input
  | Updating int job job
  | Deleting int
  | Triggering "string option" job
  | Cancelling run

fun beginRequest :: "timeout_policy \<Rightarrow> request \<Rightarrow> underway io" where
  "beginRequest p (CreateReq inp) = returnIO (Creating inp)"
| "beginRequest p (UpdateReq i inp) =
     bindIO (liftRes (buildJob p inp)) (\<lambda>job. bindIO (jobsGet i) (\<lambda>ex. returnIO (Updating i job ex)))"
| "beginRequest p (DeleteReq i) = returnIO (Deleting i)"
| "beginRequest p (TriggerReq i reason) = bindIO (jobsGet i) (\<lambda>job. returnIO (Triggering reason job))"
| "beginRequest p (CancelReq i) = bindIO (runsGet i) (\<lambda>run. returnIO (Cancelling run))"

definition ignoring :: "'a io \<Rightarrow> unit io" where
  "ignoring m = bindIO m (\<lambda>_. returnIO ())"

fun endRequest :: "cron_lib \<Rightarrow> timeout_policy \<Rightarrow> underway \<Rightarrow> unit io" where
  "endRequest lib p (Creating inp) = ignoring (CreateJob lib p inp)"
| "endRequest lib p (Updating i job ex) = ignoring (updateWrite lib i job ex)"
| "endRequest lib p (Deleting i) = DeleteJob i"
| "endRequest lib p (Triggering reason job) = ignoring (triggerWrite reason job)"
| "endRequest lib p (Cancelling run) = ignoring (cancelWrite run)"

text \<open>The two halves, with nothing in between, are the operation of the service.\<close>

fun runRequest :: "cron_lib \<Rightarrow> timeout_policy \<Rightarrow> request \<Rightarrow> unit io" where
  "runRequest lib p (CreateReq inp) = ignoring (CreateJob lib p inp)"
| "runRequest lib p (UpdateReq i inp) = ignoring (UpdateJob lib p i inp)"
| "runRequest lib p (DeleteReq i) = DeleteJob i"
| "runRequest lib p (TriggerReq i reason) = ignoring (TriggerJob i reason)"
| "runRequest lib p (CancelReq i) = ignoring (CancelRun i)"

lemma runRequest_halves: "runRequest lib p rq = bindIO (beginRequest p rq) (endRequest lib p)"
  by (cases rq)
    (auto simp: UpdateJob_def TriggerJob_def CancelRun_def ignoring_def bindIO_def returnIO_def fun_eq_iff
      split: prod.split sum.split)

section \<open>The states and the steps\<close>

datatype worker =
    Started int
  | HasRun int run
  | Loaded int run job
  | HasClaim int run job
  | Executing int run job

record sys =
  sysWorld :: world
  sysPool :: pool
  sysWorkers :: "worker list"
  sysUnderway :: "underway list"
  sysDue :: "job list"
  sysDueNow :: time
  sysPending :: "run list"
  sysClaims :: "int list"
  sysExecuted :: "int list"

definition initial :: "nat \<Rightarrow> sys \<Rightarrow> bool" where
  "initial n \<sigma> \<longleftrightarrow> dbWf (wDb (sysWorld \<sigma>)) \<and> sysPool \<sigma> = \<lparr>poolCap = n, poolUsed = 0\<rparr>
     \<and> sysWorkers \<sigma> = [] \<and> sysUnderway \<sigma> = [] \<and> sysDue \<sigma> = [] \<and> sysPending \<sigma> = []
     \<and> sysClaims \<sigma> = [] \<and> sysExecuted \<sigma> = []"

text \<open>A worker that ends: it leaves the list and releases its token.\<close>

definition workerEnds :: "worker list \<Rightarrow> worker list \<Rightarrow> world \<Rightarrow> sys \<Rightarrow> sys" where
  "workerEnds xs ys w \<sigma> = \<sigma>\<lparr>sysWorld := w, sysWorkers := xs @ ys,
     sysPool := releaseWorkerToken (sysPool \<sigma>)\<rparr>"

inductive step :: "scheduler \<Rightarrow> cron_lib \<Rightarrow> timeout_policy \<Rightarrow> sys \<Rightarrow> sys \<Rightarrow> bool"
  for s lib p where
  elsewhere: "reading (sysWorld \<sigma>) w \<Longrightarrow> step s lib p \<sigma> (\<sigma>\<lparr>sysWorld := w\<rparr>)"
| request_begins: "beginRequest p rq (sysWorld \<sigma>) = (Inr u, w) \<Longrightarrow>
    step s lib p \<sigma> (\<sigma>\<lparr>sysWorld := w, sysUnderway := u # sysUnderway \<sigma>\<rparr>)"
| request_ends: "sysUnderway \<sigma> = xs @ u # ys \<Longrightarrow> endRequest lib p u (sysWorld \<sigma>) = (r, w) \<Longrightarrow>
    step s lib p \<sigma> (\<sigma>\<lparr>sysWorld := w, sysUnderway := xs @ ys\<rparr>)"
| due_list: "sysDue \<sigma> = [] \<Longrightarrow> bindIO timeNow (\<lambda>now. bindIO (ListDue now) (\<lambda>js. returnIO (now, js))) (sysWorld \<sigma>)
      = (Inr (now, js), w) \<Longrightarrow>
    step s lib p \<sigma> (\<sigma>\<lparr>sysWorld := w, sysDue := js, sysDueNow := now\<rparr>)"
| due_job: "sysDue \<sigma> = j # js \<Longrightarrow> processDueJob s lib j (sysDueNow \<sigma>) (sysWorld \<sigma>) = (r, w) \<Longrightarrow>
    step s lib p \<sigma> (\<sigma>\<lparr>sysWorld := w, sysDue := js\<rparr>)"
| dispatch_list: "sysPending \<sigma> = [] \<Longrightarrow> poolUsed (sysPool \<sigma>) < poolCap (sysPool \<sigma>) \<Longrightarrow>
    ListPending (int (poolCap (sysPool \<sigma>)) - int (poolUsed (sysPool \<sigma>))) (sysWorld \<sigma>) = (Inr rs, w) \<Longrightarrow>
    step s lib p \<sigma> (\<sigma>\<lparr>sysWorld := w, sysPending := rs\<rparr>)"
| dispatch_spawn: "sysPending \<sigma> = run # rs \<Longrightarrow> acquireWorkerToken False (sysPool \<sigma>) = Some q \<Longrightarrow>
    step s lib p \<sigma> (\<sigma>\<lparr>sysPending := rs, sysPool := q, sysWorkers := sysWorkers \<sigma> @ [Started (runID run)]\<rparr>)"
| dispatch_stop: "step s lib p \<sigma> (\<sigma>\<lparr>sysPending := []\<rparr>)"
| load_run: "sysWorkers \<sigma> = xs @ Started i # ys \<Longrightarrow> runsGet i (sysWorld \<sigma>) = (Inr run, w) \<Longrightarrow>
    step s lib p \<sigma> (\<sigma>\<lparr>sysWorld := w, sysWorkers := xs @ HasRun i run # ys\<rparr>)"
| load_run_fails: "sysWorkers \<sigma> = xs @ Started i # ys \<Longrightarrow> runsGet i (sysWorld \<sigma>) = (Inl e, w) \<Longrightarrow>
    step s lib p \<sigma> (workerEnds xs ys w \<sigma>)"
| load_job: "sysWorkers \<sigma> = xs @ HasRun i run # ys \<Longrightarrow> jobsGet (runJobID run) (sysWorld \<sigma>) = (Inr job, w) \<Longrightarrow>
    step s lib p \<sigma> (\<sigma>\<lparr>sysWorld := w, sysWorkers := xs @ Loaded i run job # ys\<rparr>)"
| load_job_fails: "sysWorkers \<sigma> = xs @ HasRun i run # ys \<Longrightarrow> jobsGet (runJobID run) (sysWorld \<sigma>) = (Inl e, w) \<Longrightarrow>
    step s lib p \<sigma> (workerEnds xs ys w \<sigma>)"
| claim: "sysWorkers \<sigma> = xs @ Loaded i run job # ys \<Longrightarrow> workerClaim i run (sysWorld \<sigma>) = (Inr (Some run'), w) \<Longrightarrow>
    step s lib p \<sigma> (\<sigma>\<lparr>sysWorld := w, sysWorkers := xs @ HasClaim i run' job # ys, sysClaims := sysClaims \<sigma> @ [i]\<rparr>)"
| claim_refused: "sysWorkers \<sigma> = xs @ Loaded i run job # ys \<Longrightarrow> workerClaim i run (sysWorld \<sigma>) = (r, w) \<Longrightarrow>
    \<forall>run'. r \<noteq> Inr (Some run') \<Longrightarrow> step s lib p \<sigma> (workerEnds xs ys w \<sigma>)"
| abort: "sysWorkers \<sigma> = xs @ HasClaim i run job # ys \<Longrightarrow> workerAbort i run (sysWorld \<sigma>) = (r, w) \<Longrightarrow>
    step s lib p \<sigma> (workerEnds xs ys w \<sigma>)"
| execute: "sysWorkers \<sigma> = xs @ HasClaim i run job # ys \<Longrightarrow>
    step s lib p \<sigma> (\<sigma>\<lparr>sysWorkers := xs @ Executing i run
        (job\<lparr>jobTimeoutSec := effectiveTimeoutSec s (jobTimeoutSec job)\<rparr>) # ys,
      sysExecuted := sysExecuted \<sigma> @ [i]\<rparr>)"
| finish: "sysWorkers \<sigma> = xs @ Executing i run job # ys \<Longrightarrow> workerFinish i job run out (sysWorld \<sigma>) = (r, w) \<Longrightarrow>
    step s lib p \<sigma> (workerEnds xs ys w \<sigma>)"
| prune_rows: "DeleteTerminalBefore t (sysWorld \<sigma>) = (r, w) \<Longrightarrow> step s lib p \<sigma> (\<sigma>\<lparr>sysWorld := w\<rparr>)"

inductive reachable :: "scheduler \<Rightarrow> cron_lib \<Rightarrow> timeout_policy \<Rightarrow> sys \<Rightarrow> sys \<Rightarrow> bool"
  for s lib p \<sigma>0 where
  start: "reachable s lib p \<sigma>0 \<sigma>0"
| more: "reachable s lib p \<sigma>0 \<sigma> \<Longrightarrow> step s lib p \<sigma> \<tau> \<Longrightarrow> reachable s lib p \<sigma>0 \<tau>"

section \<open>Paths\<close>

lemma reachable_step: "step s lib p \<sigma> \<tau> \<Longrightarrow> reachable s lib p \<sigma> \<tau>"
  by (rule reachable.more [OF reachable.start])

lemma reachable_trans:
  "reachable s lib p \<tau> \<upsilon> \<Longrightarrow> reachable s lib p \<sigma> \<tau> \<Longrightarrow> reachable s lib p \<sigma> \<upsilon>"
  by (induction rule: reachable.induct) (auto intro: reachable.more)

text \<open>The two reads of a worker are its loading.\<close>

lemma reachable_load:
  assumes "sysWorkers \<sigma> = xs @ Started i # ys" and "workerLoad i (sysWorld \<sigma>) = (Inr (run, job), w)"
  shows "reachable s lib p \<sigma> (\<sigma>\<lparr>sysWorld := w, sysWorkers := xs @ Loaded i run job # ys\<rparr>)"
proof -
  from assms(2) obtain w1 where 1: "runsGet i (sysWorld \<sigma>) = (Inr run, w1)"
    and 2: "jobsGet (runJobID run) w1 = (Inr job, w)" by (auto simp: workerLoad_def io_Inr)
  let ?\<sigma>1 = "\<sigma>\<lparr>sysWorld := w1, sysWorkers := xs @ HasRun i run # ys\<rparr>"
  have "step s lib p \<sigma> ?\<sigma>1" by (rule step.load_run [OF assms(1) 1])
  moreover have "step s lib p ?\<sigma>1 (?\<sigma>1\<lparr>sysWorld := w, sysWorkers := xs @ Loaded i run job # ys\<rparr>)"
    by (rule step.load_job) (simp_all add: 2)
  ultimately show ?thesis by (auto dest: reachable_step intro: reachable.more)
qed

lemma reachable_load_fails:
  assumes "sysWorkers \<sigma> = xs @ Started i # ys" and "workerLoad i (sysWorld \<sigma>) = (Inl e, w)"
  shows "reachable s lib p \<sigma> (workerEnds xs ys w \<sigma>)"
proof (cases "runsGet i (sysWorld \<sigma>)")
  case (Pair r w1)
  show ?thesis
  proof (cases r)
    case (Inl e')
    with Pair assms(2) have "runsGet i (sysWorld \<sigma>) = (Inl e, w)" by (simp add: workerLoad_def bindIO_def)
    then show ?thesis by (rule reachable_step [OF step.load_run_fails [OF assms(1)]])
  next
    case (Inr run)
    with Pair assms(2) have 2: "jobsGet (runJobID run) w1 = (Inl e, w)"
      by (simp add: workerLoad_def bindIO_def returnIO_def split: prod.splits sum.splits)
    let ?\<sigma>1 = "\<sigma>\<lparr>sysWorld := w1, sysWorkers := xs @ HasRun i run # ys\<rparr>"
    have "step s lib p \<sigma> ?\<sigma>1" using Pair Inr by (intro step.load_run [OF assms(1)]) simp
    moreover have "step s lib p ?\<sigma>1 (workerEnds xs ys w ?\<sigma>1)"
      using 2 by (intro step.load_job_fails [where e = e]) simp_all
    ultimately show ?thesis by (auto simp: workerEnds_def dest: reachable_step intro: reachable.more)
  qed
qed

section \<open>The invariant\<close>

fun claimOf :: "worker \<Rightarrow> int list" where
  "claimOf (HasClaim i run job) = [i]"
| "claimOf _ = []"

definition sysInv :: "sys \<Rightarrow> sys \<Rightarrow> bool" where
  "sysInv \<sigma>0 \<sigma> \<longleftrightarrow> dbWf (wDb (sysWorld \<sigma>))
     \<and> workerTokens.holders False (sysPool \<sigma>0) 0 (sysPool \<sigma>) (length (sysWorkers \<sigma>))
     \<and> run_claims.history (wDb (sysWorld \<sigma>0)) (sysClaims \<sigma>) (wDb (sysWorld \<sigma>))
     \<and> mset (sysExecuted \<sigma>) + mset (concat (map claimOf (sysWorkers \<sigma>))) \<subseteq># mset (sysClaims \<sigma>)"

lemma inv_initial: "initial n \<sigma> \<Longrightarrow> sysInv \<sigma> \<sigma>"
  by (simp add: initial_def sysInv_def workerTokens.h_refl run_claims.hist_nil)

text \<open>A step of the world that is no claim.\<close>

lemma inv_world:
  assumes "sysInv \<sigma>0 \<sigma>" and "keeps dbWf m" and "obeys keepsSpent m" and "m (sysWorld \<sigma>) = (r, w)"
    and "sysWorld \<tau> = w" and "sysClaims \<tau> = sysClaims \<sigma>"
    and "workerTokens.holders False (sysPool \<sigma>0) 0 (sysPool \<tau>) (length (sysWorkers \<tau>))"
    and "mset (sysExecuted \<tau>) + mset (concat (map claimOf (sysWorkers \<tau>))) \<subseteq># mset (sysClaims \<sigma>)"
  shows "sysInv \<sigma>0 \<tau>"
proof -
  have "wDb (snd (m (sysWorld \<sigma>))) = wDb w" using assms(4) by simp
  with assms(2,3) have "dbWf (wDb (sysWorld \<sigma>)) \<longrightarrow> dbWf (wDb w)" "keepsSpent (wDb (sysWorld \<sigma>)) (wDb w)"
    by (metis obeys_def)+
  with assms(1,5-8) show ?thesis by (auto simp: sysInv_def intro: run_claims.history_other_snoc)
qed

lemma inv_same:
  assumes "sysInv \<sigma>0 \<sigma>" and "keeps dbWf m" and "obeys keepsSpent m" and "m (sysWorld \<sigma>) = (r, w)"
    and "sysWorld \<tau> = w" and "sysClaims \<tau> = sysClaims \<sigma>" and "sysPool \<tau> = sysPool \<sigma>"
    and "sysWorkers \<tau> = sysWorkers \<sigma>" and "sysExecuted \<tau> = sysExecuted \<sigma>"
  shows "sysInv \<sigma>0 \<tau>"
  by (rule inv_world [OF assms(1-6)]) (use assms(1,7-9) in \<open>auto simp: sysInv_def\<close>)

lemma inv_ends:
  assumes "sysInv \<sigma>0 \<sigma>" and "sysWorkers \<sigma> = xs @ x # ys" and "keeps dbWf m" and "obeys keepsSpent m"
    and "m (sysWorld \<sigma>) = (r, w)"
  shows "sysInv \<sigma>0 (workerEnds xs ys w \<sigma>)"
proof (rule inv_world [OF assms(1,3-5)])
  have "workerTokens.holders False (sysPool \<sigma>0) 0 (sysPool \<sigma>) (Suc (length (xs @ ys)))"
    using assms(1,2) by (simp add: sysInv_def)
  then show "workerTokens.holders False (sysPool \<sigma>0) 0 (sysPool (workerEnds xs ys w \<sigma>))
      (length (sysWorkers (workerEnds xs ys w \<sigma>)))"
    by (auto simp: workerEnds_def intro: workerTokens.h_release)
  have "mset (sysExecuted \<sigma>) + mset (concat (map claimOf (xs @ ys)))
      \<subseteq># mset (sysExecuted \<sigma>) + mset (concat (map claimOf (xs @ x # ys)))" by simp
  also have "\<dots> \<subseteq># mset (sysClaims \<sigma>)" using assms(1,2) by (simp add: sysInv_def)
  finally show "mset (sysExecuted (workerEnds xs ys w \<sigma>)) + mset (concat (map claimOf (sysWorkers (workerEnds xs ys w \<sigma>))))
      \<subseteq># mset (sysClaims \<sigma>)" by (simp add: workerEnds_def)
qed (simp_all add: workerEnds_def)

lemma wf_halves [wf_intros]: "keeps dbWf (beginRequest p rq)" "keeps dbWf (endRequest lib p u)"
  by (cases rq; auto intro!: wf_intros) (cases u; auto simp: ignoring_def intro!: wf_intros)

lemma spent_halves [spent_intros]: "obeys keepsSpent (beginRequest p rq)" "obeys keepsSpent (endRequest lib p u)"
  by (cases rq; auto intro!: spent_intros) (cases u; auto simp: ignoring_def intro!: spent_intros)

lemma inv_read:
  assumes "sysInv \<sigma>0 \<sigma>" and "reading (sysWorld \<sigma>) w"
  shows "sysInv \<sigma>0 (\<sigma>\<lparr>sysWorld := w\<rparr>)"
  using assms by (simp add: sysInv_def reading_def)

lemma inv_claim:
  assumes I: "sysInv \<sigma>0 \<sigma>" and ws: "sysWorkers \<sigma> = xs @ Loaded i run job # ys"
    and cl: "workerClaim i run (sysWorld \<sigma>) = (Inr (Some run'), w)"
  shows "sysInv \<sigma>0 (\<sigma>\<lparr>sysWorld := w, sysWorkers := xs @ HasClaim i run' job # ys, sysClaims := sysClaims \<sigma> @ [i]\<rparr>)"
proof -
  let ?d = "wDb (sysWorld \<sigma>)"
  have wf: "dbWf ?d" using I by (simp add: sysInv_def)
  have "dbWf (wDb (snd (workerClaim i run (sysWorld \<sigma>))))"
    using wf_workerClaim wf unfolding obeys_def by blast
  then have wf': "dbWf (wDb w)" using cl by simp
  note c = workerClaim_claimSucceeds [OF cl wf]
  have "keepsSpent (?d\<lparr>dbRuns := dbRuns (wDb w)\<rparr>) (wDb w)"
  proof -
    from cl obtain e where "wDb w = ?d\<lparr>dbRuns := dbRuns (wDb w), dbEvents := dbEvents ?d @ [eventRow e],
        dbEventSeq := dbEventSeq ?d + 1\<rparr>" by (rule workerClaim_Some) blast
    then have "dbRunSeq (wDb w) = dbRunSeq ?d" by (metis db.ext_inject db.surjective db.update_convs(2,3,6))
    then show ?thesis by (simp add: keepsSpent_def spent_def)
  qed
  then have "run_claims.history (wDb (sysWorld \<sigma>0)) (sysClaims \<sigma> @ [i]) (wDb w)"
    using I c by (meson sysInv_def run_claims.history_claim_snoc run_claims.history_other_snoc)
  with I ws wf' show ?thesis by (simp add: sysInv_def)
qed

lemma inv_step:
  assumes "step s lib p \<sigma> \<tau>" and "sysInv \<sigma>0 \<sigma>"
  shows "sysInv \<sigma>0 \<tau>"
  using assms
proof (cases rule: step.cases)
  case (elsewhere w)
  then show ?thesis using inv_read [OF assms(2)] by simp
next
  case (request_begins rq u w)
  then show ?thesis using inv_same [OF assms(2) wf_halves(1) spent_halves(1)] by simp
next
  case (request_ends xs u ys r w)
  then show ?thesis using inv_same [OF assms(2) wf_halves(2) spent_halves(2)] by simp
next
  case (due_list now js w)
  have "keeps dbWf (bindIO timeNow (\<lambda>now. bindIO (ListDue now) (\<lambda>js. returnIO (now, js))))"
    "obeys keepsSpent (bindIO timeNow (\<lambda>now. bindIO (ListDue now) (\<lambda>js. returnIO (now, js))))"
    by (intro wf_intros, intro spent_intros)
  from inv_same [OF assms(2) this due_list(3)] due_list(1) show ?thesis by simp
next
  case (due_job j js r w)
  then show ?thesis using inv_same [OF assms(2) wf_processDueJob spent_processDueJob] by simp
next
  case (dispatch_list rs w)
  then show ?thesis using inv_same [OF assms(2) wf_run_queries(3) spent_methods(12)] by simp
next
  case (dispatch_spawn run rs q)
  then show ?thesis using assms(2) by (auto simp: sysInv_def intro: workerTokens.h_acquire)
next
  case dispatch_stop
  then show ?thesis using assms(2) by (simp add: sysInv_def)
next
  case (load_run xs i ys run w)
  show ?thesis
    by (rule inv_world [OF assms(2) wf_run_queries(1) spent_methods(9) load_run(3)])
      (use load_run assms(2) in \<open>simp_all add: sysInv_def\<close>)
next
  case (load_run_fails xs i ys e w)
  then show ?thesis using inv_ends [OF assms(2) _ wf_run_queries(1) spent_methods(9)] by simp
next
  case (load_job xs i run ys job w)
  show ?thesis
    by (rule inv_world [OF assms(2) wf_job_service(6) spent_job_service(6), unfolded GetJob_def, OF load_job(3)])
      (use load_job assms(2) in \<open>simp_all add: sysInv_def\<close>)
next
  case (load_job_fails xs i run ys e w)
  then show ?thesis
    using inv_ends [OF assms(2) _ wf_job_service(6) spent_job_service(6), unfolded GetJob_def] by simp
next
  case (claim xs i run job ys run' w)
  then show ?thesis using inv_claim [OF assms(2)] by simp
next
  case (claim_refused xs i run job ys r w)
  then show ?thesis using inv_ends [OF assms(2) _ wf_workerClaim spent_workerClaim] by simp
next
  case (abort xs i run job ys r w)
  then show ?thesis using inv_ends [OF assms(2) _ wf_worker_ends(1) spent_worker_ends(1)] by simp
next
  case (execute xs i run job ys)
  then show ?thesis using assms(2) by (simp add: sysInv_def)
next
  case (finish xs i run job ys out r w)
  then show ?thesis using inv_ends [OF assms(2) _ wf_worker_ends(2) spent_worker_ends(2)] by simp
next
  case (prune_rows t r w)
  then show ?thesis using inv_same [OF assms(2) wf_DeleteTerminalBefore spent_methods(14)] by simp
qed

lemma reachable_inv: "reachable s lib p \<sigma>0 \<sigma> \<Longrightarrow> initial n \<sigma>0 \<Longrightarrow> sysInv \<sigma>0 \<sigma>"
  by (induction rule: reachable.induct) (auto intro: inv_initial inv_step)

lemma distinct_mset_subset: "distinct ys \<Longrightarrow> mset xs \<subseteq># mset ys \<Longrightarrow> distinct xs"
proof -
  assume d: "distinct ys" and sub: "mset xs \<subseteq># mset ys"
  have "count (mset xs) a = (if a \<in> set xs then 1 else 0)" for a
  proof -
    have le: "count (mset xs) a \<le> 1"
      using mset_subset_eq_count [OF sub, of a] d [unfolded distinct_count_atmost_1, rule_format, of a]
      by (cases "a \<in> set ys") (simp_all only: if_True if_False)
    show ?thesis
    proof (cases "a \<in> set xs")
      case True
      then have "count (mset xs) a \<noteq> 0" by (simp add: count_mset_0_iff)
      with le have "count (mset xs) a = 1" by linarith
      with True show ?thesis by simp
    next
      case False
      then show ?thesis by simp
    qed
  qed
  then show "distinct xs" by (simp add: distinct_count_atmost_1)
qed

lemma reachable_executed_distinct:
  assumes "reachable s lib p \<sigma>0 \<sigma>" and "initial n \<sigma>0"
  shows "distinct (sysExecuted \<sigma>)"
proof -
  have I: "sysInv \<sigma>0 \<sigma>" by (rule reachable_inv [OF assms])
  then have "distinct (sysClaims \<sigma>)" unfolding sysInv_def by (meson run_claims.history_distinct)
  moreover have "mset (sysExecuted \<sigma>) \<subseteq># mset (sysClaims \<sigma>)"
    using I unfolding sysInv_def by (meson mset_subset_eq_add_left subset_mset.order_trans)
  ultimately show ?thesis by (rule distinct_mset_subset)
qed

lemma reachable_workers_bound:
  assumes "reachable s lib p \<sigma>0 \<sigma>" and "initial n \<sigma>0"
  shows "length (sysWorkers \<sigma>) \<le> n"
proof -
  have "workerTokens.holders False (sysPool \<sigma>0) 0 (sysPool \<sigma>) (length (sysWorkers \<sigma>))"
    using reachable_inv [OF assms] by (simp add: sysInv_def)
  then show ?thesis
    using workerTokens.holders_bound assms(2) by (fastforce simp: initial_def)
qed

end
