(* ===== verification/Example.thy ===== *)
theory Example
  imports System
begin

text \<open>
  A small concrete state for the witnesses of the properties: one job, named backup, that runs every
  minute under the policy \<open>forbid\<close> with one retry, and some of its runs. The clock gains a second
  per reading and no call to the driver fails. The lemmas evaluate operations on it and follow
  one run from its listing by the dispatch loop to its execution.
\<close>

definition exJobRow :: job_row where
  "exJobRow = \<lparr>jr_id = 1, jr_name = ''backup'', jr_description = None, jr_enabled = 1,
     jr_source_type = ''local'', jr_image_ref = ''jobs/backup:1'', jr_image_digest = None,
     jr_schedule_type = ''interval'', jr_schedule_expr = None, jr_interval_sec = Some 60,
     jr_timezone = ''UTC'', jr_concurrency_policy = ''forbid'', jr_timeout_sec = 3600,
     jr_retry_limit = 1, jr_next_run_at = Some ''2024-01-01T00:01:00Z'',
     jr_last_scheduled_at = None, jr_params_json = None,
     jr_created_at = ''2024-01-01T00:00:00Z'', jr_updated_at = ''2024-01-01T00:00:00Z''\<rparr>"

definition exJob :: job where
  "exJob = \<lparr>jobID = 1, jobName = ''backup'', jobDescription = None, jobEnabled = True,
     jobSourceType = ''local'', jobImageRef = ''jobs/backup:1'', jobImageDigest = None,
     jobScheduleType = ''interval'', jobScheduleExpr = None, jobIntervalSec = Some 60,
     jobTimezone = ''UTC'', jobConcurrencyPolicy = ''forbid'', jobTimeoutSec = 3600,
     jobRetryLimit = 1, jobNextRunAt = Some 63839664060000000000,
     jobLastScheduledAt = None, jobParamsJSON = None,
     jobCreatedAt = 63839664000000000000, jobUpdatedAt = 63839664000000000000\<rparr>"

definition exRunRow :: "string \<Rightarrow> run_row" where
  "exRunRow st = \<lparr>rr_id = 1, rr_job_id = 1, rr_scheduled_at = ''2024-01-01T00:00:02Z'',
     rr_started_at = None, rr_finished_at = None, rr_status = st, rr_attempt = 0,
     rr_exit_code = None, rr_error_message = None, rr_log_path = None, rr_result_path = None,
     rr_created_at = ''2024-01-01T00:00:03Z'', rr_updated_at = ''2024-01-01T00:00:03Z''\<rparr>"

definition exRun :: "string \<Rightarrow> run" where
  "exRun st = \<lparr>runID = 1, runJobID = 1, runScheduledAt = 63839664002000000000,
     runStartedAt = None, runFinishedAt = None, runStatus = st, runAttempt = 0, runExitCode = None,
     runErrorMessage = None, runLogPath = None, runResultPath = None,
     runCreatedAt = 63839664003000000000, runUpdatedAt = 63839664003000000000\<rparr>"

definition exWorld :: "run_row list \<Rightarrow> world" where
  "exWorld rs = \<lparr>wDb = \<lparr>dbJobs = [exJobRow], dbRuns = rs, dbEvents = [], dbJobSeq = 1,
       dbRunSeq = 1, dbEventSeq = 0\<rparr>,
     wClock = (\<lambda>n. 63839664065000000000 + int n * 1000000000), wTicks = 0,
     wFault = (\<lambda>_. False), wCalls = 0, wDueWakeup = False, wDispatchWakeup = False\<rparr>"

definition exSched :: scheduler where
  "exSched = \<lparr>dueJobInterval = 2000000000, dispatchInterval = 1000000000, maxConcurrentRuns = 2,
     defaultTimeoutSec = 3600, maxTimeoutSec = 86400, allowUnlimited = False, retentionEnabled = True,
     retentionInterval = 3600000000000, workerTokensCap = 2\<rparr>"

definition exSys :: "run_row list \<Rightarrow> sys" where
  "exSys rs = \<lparr>sysWorld = exWorld rs, sysPool = \<lparr>poolCap = 2, poolUsed = 0\<rparr>, sysWorkers = [],
     sysUnderway = [], sysDue = [], sysDueNow = 0, sysPending = [], sysClaims = [], sysExecuted = []\<rparr>"

lemmas io_eval = bindIO_def mapErr_def tryIO_def returnIO_def failIO_def liftRes_def timeNow_def
  execDb_def queryDb_def WithinTx_def NotifyDispatch_def NotifyDueJob_def

section \<open>The rows decode\<close>

lemma exJob_decodes: "scanJob exJobRow = Inr exJob"
proof -
  have "decodeTime ''2024-01-01T00:00:00Z'' = Inr 63839664000000000000"
    "decodeTime ''2024-01-01T00:01:00Z'' = Inr 63839664060000000000" by code_simp+
  then show ?thesis by (simp add: scanJob_def exJobRow_def exJob_def decodeNullableTime_def)
qed

lemma exJobRow_next: "jr_next_run_at exJobRow = Some (encodeTime 63839664060000000000)"
  unfolding exJobRow_def encodeTime_def by code_simp

lemma exRun_decodes: "scanRun (exRunRow st) = Inr (exRun st)"
proof -
  have "decodeTime ''2024-01-01T00:00:02Z'' = Inr 63839664002000000000"
    "decodeTime ''2024-01-01T00:00:03Z'' = Inr 63839664003000000000" by code_simp+
  then show ?thesis by (simp add: scanRun_def exRunRow_def exRun_def decodeNullableTime_def)
qed

lemma exWorld_wf: "runStatusIsValid st \<Longrightarrow> dbWf (wDb (exWorld [exRunRow st]))" "dbWf (wDb (exWorld []))"
  by (simp_all add: exWorld_def dbWf_def jobsWf_def runsWf_def eventsWf_def exJobRow_def exRunRow_def
      runKey_def sourceTypeIsValid_def scheduleTypeIsValid_def policyIsValid_def)

lemma exSys_initial: "runStatusIsValid st \<Longrightarrow> initial 2 (exSys [exRunRow st])"
  by (simp add: initial_def exSys_def exWorld_wf)

section \<open>From the listing to the execution of a run\<close>

lemma exWorld_ListPending:
  "ListPending 2 (exWorld [exRunRow ''pending'']) = (Inr [exRun ''pending''], (exWorld [exRunRow ''pending''])\<lparr>wCalls := 1\<rparr>)"
  using exRun_decodes [of "''pending''"]
  by (simp add: ListPending_def io_eval exWorld_def selectPending_def sqlLimit_def)
    (simp add: exRunRow_def)

lemma exWorld_workerLoad:
  assumes "w = (exWorld [exRunRow st])\<lparr>wCalls := n\<rparr>"
  shows "workerLoad 1 w = (Inr (exRun st, exJob), w\<lparr>wCalls := n + 2\<rparr>)"
proof -
  have "tFind rr_id 1 [exRunRow st] = Some (exRunRow st)" "tFind jr_id 1 [exJobRow] = Some exJobRow"
    by (simp_all add: tFind_def exRunRow_def exJobRow_def)
  moreover have "runJobID (exRun st) = 1" by (simp add: exRun_def)
  ultimately show ?thesis
    using assms by (simp add: workerLoad_def runsGet_def jobsGet_def io_eval exWorld_def exRun_decodes exJob_decodes)
qed

lemma exWorld_claim:
  assumes "w = (exWorld [exRunRow ''pending''])\<lparr>wCalls := n\<rparr>"
  shows "\<exists>run' w'. workerClaim 1 (exRun ''pending'') w = (Inr (Some run'), w')"
proof -
  have "tFind rr_id 1 [exRunRow ''pending''] = Some (exRunRow ''pending'')"
    by (simp add: tFind_def exRunRow_def)
  moreover have "rr_id (exRunRow ''pending'') = 1" "rr_status (exRunRow ''pending'') = ''pending''"
    by (simp_all add: exRunRow_def)
  ultimately show ?thesis
    using assms by (simp add: workerClaim_def claimTx_def runsGet_def ClaimPending_def claimRow_def
        eventsCreate_def insertEvent_def runEvent_def zeroEvent_def io_eval exWorld_def exRun_decodes
        exRun_def tUpdate_def eventRow_def)
qed

lemma exSys_executes:
  "\<exists>\<sigma>. reachable exSched everyMinute defaultPolicy (exSys [exRunRow ''pending'']) \<sigma>
     \<and> sysExecuted \<sigma> = [1] \<and> length (sysWorkers \<sigma>) = 1"
proof -
  let ?s = exSched and ?l = everyMinute and ?p = defaultPolicy
  let ?w0 = "exWorld [exRunRow ''pending'']"
  let ?\<sigma>0 = "exSys [exRunRow ''pending'']"
  let ?w1 = "?w0\<lparr>wCalls := 1\<rparr>" and ?w2 = "?w0\<lparr>wCalls := 3\<rparr>"
  let ?\<sigma>1 = "?\<sigma>0\<lparr>sysWorld := ?w1, sysPending := [exRun ''pending'']\<rparr>"
  have 1: "step ?s ?l ?p ?\<sigma>0 ?\<sigma>1"
    by (rule step.dispatch_list) (use exWorld_ListPending in \<open>simp_all add: exSys_def\<close>)
  let ?\<sigma>2 = "?\<sigma>1\<lparr>sysPending := [], sysPool := \<lparr>poolCap = 2, poolUsed = 1\<rparr>, sysWorkers := [Started 1]\<rparr>"
  have 2: "step ?s ?l ?p ?\<sigma>1 ?\<sigma>2"
    using step.dispatch_spawn [of ?\<sigma>1 "exRun ''pending''" "[]" "\<lparr>poolCap = 2, poolUsed = 1\<rparr>" ?s ?l ?p]
    by (simp add: exSys_def exRun_def acquireWorkerToken_def)
  let ?\<sigma>3 = "?\<sigma>2\<lparr>sysWorld := ?w2, sysWorkers := [Loaded 1 (exRun ''pending'') exJob]\<rparr>"
  have 3: "reachable ?s ?l ?p ?\<sigma>2 ?\<sigma>3"
    using reachable_load [of ?\<sigma>2 "[]" 1 "[]" "exRun ''pending''" exJob ?w2 ?s ?l ?p]
      exWorld_workerLoad [of ?w1 1 "''pending''"] by simp
  obtain run' w' where c: "workerClaim 1 (exRun ''pending'') ?w2 = (Inr (Some run'), w')"
    using exWorld_claim by blast
  let ?\<sigma>4 = "?\<sigma>3\<lparr>sysWorld := w', sysWorkers := [HasClaim 1 run' exJob], sysClaims := [1]\<rparr>"
  have 4: "step ?s ?l ?p ?\<sigma>3 ?\<sigma>4"
    using step.claim [of ?\<sigma>3 "[]" 1 "exRun ''pending''" exJob "[]" run' w' ?s ?l ?p] c
    by (simp add: exSys_def)
  let ?\<sigma>5 = "?\<sigma>4\<lparr>sysWorkers := [Executing 1 run' (exJob\<lparr>jobTimeoutSec := effectiveTimeoutSec ?s (jobTimeoutSec exJob)\<rparr>)],
    sysExecuted := [1]\<rparr>"
  have 5: "step ?s ?l ?p ?\<sigma>4 ?\<sigma>5"
    using step.execute [of ?\<sigma>4 "[]" 1 run' exJob "[]" ?s ?l ?p] by (simp add: exSys_def)
  have "reachable ?s ?l ?p ?\<sigma>0 ?\<sigma>5"
    by (rule reachable.more [OF reachable.more [OF reachable_trans [OF 3 reachable.more
          [OF reachable_step [OF 1] 2]] 4] 5])
  moreover have "sysExecuted ?\<sigma>5 = [1]" "length (sysWorkers ?\<sigma>5) = 1" by simp_all
  ultimately show ?thesis by blast
qed

section \<open>A due job\<close>

lemma exWorld_due:
  "fst (processDueJob exSched everyMinute exJob 63839664065000000000 (exWorld [])) = Inr ()"
  and exWorld_due_status:
  "map rr_status (dbRuns (wDb (snd (processDueJob exSched everyMinute exJob 63839664065000000000 (exWorld [])))))
    = [''pending'']"
  by (simp_all add: processDueJob_def schedulerNextRunAt_def dueTx_def createDueRun_def runsList_def
      runsCreate_def eventsCreate_def UpdateScheduling_def insertRun_def insertEvent_def
      updateJobScheduling_def pendingDueRun_def zeroRun_def zeroEvent_def io_eval exWorld_def exJob_def
      exJobRow_def runRow_def eventRow_def normalize_def sqlLimit_def sqlOffset_def)

section \<open>The end of a run\<close>

definition exSuccess :: exec_outcome where
  "exSuccess = \<lparr>outResult = Some \<lparr>exExitCode = 0, exLogPath = ''/logs/1'', exResultPath = ''/results/1'',
     exImageDigest = None\<rparr>, outErr = None, outCtxErr = None\<rparr>"

lemma exWorld_finish:
  "fst (workerFinish 1 exJob (exRun ''pending'') exSuccess (exWorld [exRunRow ''running''])) = Inr ()"
  "wDb (snd (workerFinish 1 exJob (exRun ''pending'') exSuccess (exWorld [exRunRow ''running'']))) \<noteq> wDb (exWorld [exRunRow ''running''])"
  "fst (workerFinish 1 exJob (exRun ''pending'') exSuccess (exWorld [exRunRow ''cancelling''])) = Inr ()"
  "wDb (snd (workerFinish 1 exJob (exRun ''pending'') exSuccess (exWorld [exRunRow ''cancelling'']))) \<noteq> wDb (exWorld [exRunRow ''cancelling''])"
  by (simp_all add: workerFinish_def finishTx_def recordStatus_def UpdateStatus_def updateRunStatusRow_def
      UpdateLogArtifacts_def updateLogArtifactsRow_def withArtifacts_def exSuccess_def eventsCreate_def
      insertEvent_def runEvent_def zeroEvent_def io_eval exWorld_def exRunRow_def exRun_def tUpdate_def)

text \<open>The run is still there after both writes.\<close>

lemma exWorld_kept:
  "\<exists>q. q \<in> set (dbRuns (wDb (snd (workerFinish 1 exJob (exRun ''pending'') exSuccess (exWorld [exRunRow ''cancelling'']))))) \<and> rr_id q = 1"
  "\<exists>q. q \<in> set (dbRuns (wDb (snd (cancelWrite (exRun ''pending'') (exWorld [exRunRow ''running'']))))) \<and> rr_id q = 1"
  by (simp_all add: workerFinish_def finishTx_def recordStatus_def UpdateStatus_def updateRunStatusRow_def
      UpdateLogArtifacts_def updateLogArtifactsRow_def withArtifacts_def exSuccess_def eventsCreate_def
      insertEvent_def runEvent_def zeroEvent_def cancelWrite_def cancelTarget_def
      io_eval exWorld_def exRunRow_def exRun_def tUpdate_def setRunStatus_def)

section \<open>Requests and configuration\<close>

definition exInput :: "string \<Rightarrow> job_input" where
  "exInput name = \<lparr>inName = name, inDescription = None, inEnabled = True, inSourceType = ''local'',
     inImageRef = ''jobs/report:1'', inImageDigest = None, inScheduleType = ''cron'',
     inScheduleExpr = Some ''* * * * *'', inIntervalSec = None, inParamsJSON = None,
     inConcurrencyPolicy = ''allow'', inRetryLimit = 0, inTimeoutSec = Some 60, inTimezone = []\<rparr>"

definition exConfig :: config where
  "exConfig = \<lparr>
     Server = \<lparr>Port = 8080, Host = ''0.0.0.0''\<rparr>,
     StoreCfg = \<lparr>SQLitePath = ''/data/app.db'', LogRoot = ''/data/logs'', ArtifactRoot = ''/data/artifacts'',
       LogPathPattern = ''job-%d/run-%d/run.log'', ResultPathPattern = ''job-%d/run-%d/result.json''\<rparr>,
     SchedulerCfg = \<lparr>DueJobScanIntervalSec = 2, DispatchScanIntervalSec = 1, MaxConcurrentRuns = 3,
       DefaultTimeoutSec = 3600, MaxTimeoutSec = 86400, AllowUnlimitedTimeout = False\<rparr>,
     ImageCfg = \<lparr>AllowedSources = [''local'', ''remote''], DefaultSource = ''local'',
       PullPolicy = ''if_not_present'', AllowedPrefixes = [''jobs/''],
       Remote = \<lparr>Endpoint = ''http://registry:5000'', Insecure = True\<rparr>\<rparr>,
     ExecutorCfg = \<lparr>NetworkMode = ''bridge'', ReadOnlyRootFS = True, MemoryLimitMB = 512,
       CPULimit = Decimal False 15 (- 1), CleanupContainers = True, StopGracePeriodSec = 10,
       OrphanRecoveryOnStartup = True\<rparr>,
     RetentionCfg = \<lparr>RetEnabled = True, PruneIntervalSec = 3600, RunHistoryDays = 30, SuccessLogDays = 7,
       FailedLogDays = 30, ArtifactDays = 14, MaxLogBytesPerRun = 10485760,
       MaxTotalStorageBytes = 10737418240\<rparr>\<rparr>"

lemma exConfig_valid: "Validate exConfig = Inr ()"
proof -
  have "toLower ''if_not_present'' = ''if_not_present''" "toLower (trimSpace ''bridge'') = ''bridge''"
    by code_simp+
  then show ?thesis
    unfolding Validate_iff by (simp add: configOk_def serverOk_def storeOk_def schedulerOk_def imageOk_def
        executorOk_def retentionOk_def validSource_def validPullPolicy_def exConfig_def)
qed

section \<open>A dispatch before its workers have claimed\<close>

text \<open>The loop lists again before the worker it started has claimed its run, and starts a second one
  for the same run; the claim decides between them.\<close>

lemma exWorld_dispatch:
  "\<exists>w'. processDispatch False \<lparr>poolCap = 2, poolUsed = 0\<rparr> (exWorld [exRunRow ''pending''])
     = (Inr (\<lparr>poolCap = 2, poolUsed = 2\<rparr>, [1, 1]), w')"
proof -
  have l: "ListPending k ((exWorld [exRunRow ''pending''])\<lparr>wCalls := n\<rparr>)
      = (Inr [exRun ''pending''], (exWorld [exRunRow ''pending''])\<lparr>wCalls := Suc n\<rparr>)" if "0 < k" for k n
    using exRun_decodes [of "''pending''"] that
    by (cases "nat k") (simp_all add: ListPending_def io_eval exWorld_def selectPending_def sqlLimit_def exRunRow_def)
  have w0: "(exWorld [exRunRow ''pending''])\<lparr>wCalls := 0\<rparr> = exWorld [exRunRow ''pending'']"
    by (simp add: exWorld_def)
  have id: "runID (exRun ''pending'') = 1" by (simp add: exRun_def)
  show ?thesis
    using l [of 2 0, unfolded w0] l [of 1 1]
    by (simp add: processDispatch_def numeral_2_eq_2 dispatchTurn_def bindIO_def tryIO_def returnIO_def
        acquireWorkerToken_def id)
qed

end
