(* ===== verification/Go_Text.thy ===== *)
theory Go_Text
  imports Model
begin

text \<open>
  More of Go's library on byte strings: \<open>strings.Cut\<close> and \<open>SplitN\<close> at one byte, \<open>strings.Fields\<close>,
  the line scanner of \<open>bufio\<close>, and \<open>url.PathEscape\<close>. The lemmas show that cutting and joining are
  inverse and what the pieces can contain.
\<close>

section \<open>Cutting\<close>

definition cutChar :: "char \<Rightarrow> string \<Rightarrow> (string \<times> string) option" where
  "cutChar c s = (case indexChar c s of None \<Rightarrow> None | Some i \<Rightarrow> Some (take i s, drop (Suc i) s))"

lemma indexChar_Some: "indexChar c s = Some i \<Longrightarrow> i < length s \<and> s ! i = c \<and> c \<notin> set (take i s)"
  by (induction s arbitrary: i) (auto split: if_splits)

lemma indexChar_None: "indexChar c s = None \<longleftrightarrow> c \<notin> set s"
  by (induction s) auto

lemma indexChar_append [simp]: "c \<notin> set a \<Longrightarrow> indexChar c (a @ c # b) = Some (length a)"
  by (induction a) auto

lemma lastIndexChar_append [simp]: "c \<notin> set b \<Longrightarrow> lastIndexChar c (a @ c # b) = Some (length a)"
proof (induction a)
  case Nil
  then have "lastIndexChar c b = None" by (simp add: lastIndexChar_None)
  then show ?case by simp
qed simp

lemma cutChar_None: "cutChar c s = None \<longleftrightarrow> c \<notin> set s"
  by (auto simp: cutChar_def indexChar_None split: option.split) (metis indexChar_None option.distinct(1))

lemma cutChar_Some: "cutChar c s = Some (a, b) \<longleftrightarrow> s = a @ c # b \<and> c \<notin> set a"
proof
  assume "cutChar c s = Some (a, b)"
  then obtain i where i: "indexChar c s = Some i" "a = take i s" "b = drop (Suc i) s"
    by (auto simp: cutChar_def split: option.splits)
  from indexChar_Some [OF i(1)] i(2,3) show "s = a @ c # b \<and> c \<notin> set a"
    by (metis id_take_nth_drop)
next
  assume "s = a @ c # b \<and> c \<notin> set a"
  then show "cutChar c s = Some (a, b)" by (simp add: cutChar_def)
qed

section \<open>Fields and lines\<close>

text \<open>\<open>strings.Fields\<close>: the maximal runs of bytes that are not white space.\<close>

function fieldsOf :: "string \<Rightarrow> string list" where
  "fieldsOf s =
     (let t = dropWhile isSpace s in
      if t = [] then [] else takeWhile (\<lambda>c. \<not> isSpace c) t # fieldsOf (dropWhile (\<lambda>c. \<not> isSpace c) t))"
  by auto
termination
proof (relation "measure length")
  fix s t :: string
  assume t: "t = dropWhile isSpace s" "t \<noteq> []"
  then have "\<not> isSpace (hd t)" by (simp add: hd_dropWhile)
  with t(2) have "length (dropWhile (\<lambda>c. \<not> isSpace c) t) < length t"
    by (cases t) (auto simp: less_Suc_eq_le length_dropWhile_le)
  moreover have "length t \<le> length s" unfolding t(1) by (rule length_dropWhile_le)
  ultimately show "(dropWhile (\<lambda>c. \<not> isSpace c) t, s) \<in> measure length" by simp
qed simp

declare fieldsOf.simps [simp del]

lemma fieldsOf_eq:
  "dropWhile isSpace s = [] \<Longrightarrow> fieldsOf s = []"
  "dropWhile isSpace s \<noteq> [] \<Longrightarrow> fieldsOf s = takeWhile (\<lambda>c. \<not> isSpace c) (dropWhile isSpace s)
     # fieldsOf (dropWhile (\<lambda>c. \<not> isSpace c) (dropWhile isSpace s))"
  by (subst fieldsOf.simps, simp add: Let_def)+

lemma fieldsOf_set: "f \<in> set (fieldsOf s) \<Longrightarrow> f \<noteq> [] \<and> list_all (\<lambda>c. \<not> isSpace c) f"
proof (induction s rule: fieldsOf.induct)
  case (1 s)
  let ?t = "dropWhile isSpace s"
  show ?case
  proof (cases "?t = []")
    case True
    with 1(2) show ?thesis by (simp add: fieldsOf_eq)
  next
    case False
    then have "\<not> isSpace (hd ?t)" by (rule hd_dropWhile)
    with False have ne: "takeWhile (\<lambda>c. \<not> isSpace c) ?t \<noteq> []" by (cases ?t) simp_all
    have "list_all (\<lambda>c. \<not> isSpace c) (takeWhile (\<lambda>c. \<not> isSpace c) ?t)"
      unfolding list_all_iff by (blast dest: set_takeWhileD)
    with 1 False ne show ?thesis by (auto simp: fieldsOf_eq(2))
  qed
qed

text \<open>\<open>bufio.Scanner\<close> with \<open>ScanLines\<close>: the lines without their ends; a line that does not fit the
  scanner's 65536 bytes ends the scan with an error.\<close>

definition dropCR :: "string \<Rightarrow> string" where
  "dropCR l = (if l \<noteq> [] \<and> last l = char_of (13::nat) then butlast l else l)"

definition rawLines :: "string \<Rightarrow> string list" where
  "rawLines s = (let ls = splitChar (char_of (10::nat)) s in if last ls = [] then butlast ls else ls)"

definition scanLines :: "string \<Rightarrow> goerr + string list" where
  "scanLines s =
     (if \<exists>l\<in>set (rawLines s). 65536 \<le> length l then Inl (Errorf ''bufio.Scanner: token too long'')
      else Inr (map dropCR (rawLines s)))"

section \<open>Escaping\<close>

definition isAlnum :: "char \<Rightarrow> bool" where
  "isAlnum c \<longleftrightarrow> (let n = (of_char c :: nat) in
     (48 \<le> n \<and> n \<le> 57) \<or> (65 \<le> n \<and> n \<le> 90) \<or> (97 \<le> n \<and> n \<le> 122))"

definition upperHex :: "nat \<Rightarrow> char" where
  "upperHex d = (if d < 10 then char_of (48 + d) else char_of (55 + d))"

definition pathEscape :: "string \<Rightarrow> string" where
  "pathEscape s = concat (map (\<lambda>c.
     if isAlnum c \<or> c \<in> set ''-_.~$&+:=@'' then [c]
     else (let n = of_char c in [CHR ''%'', upperHex (n div 16), upperHex (n mod 16)])) s)"

text \<open>An escaped segment is one segment: it holds no slash.\<close>

lemma upperHex_no_slash: "d < 16 \<Longrightarrow> CHR ''/'' \<noteq> upperHex d"
  by (auto simp: upperHex_def split: if_splits dest!: arg_cong [where f = "of_char :: char \<Rightarrow> nat"])

lemma pathEscape_no_slash: "CHR ''/'' \<notin> set (pathEscape s)"
proof -
  have hex: "CHR ''/'' \<noteq> upperHex d" if "d < 16" for d using that by (rule upperHex_no_slash)
  have "(of_char c :: nat) div 16 < 16" for c :: char
    using nat_of_char_less_256 [of c] by (simp add: less_mult_imp_div_less)
  then show ?thesis by (auto simp: pathEscape_def Let_def isAlnum_def hex)
qed

end
