(* ===== verification/Go_Path.thy ===== *)
theory Go_Path
  imports Go_Text
begin

text \<open>
  Package \<open>path/filepath\<close> on Unix, as far as the program uses it: \<open>Clean\<close>, \<open>Join\<close>, \<open>Abs\<close>, \<open>Rel\<close> and
  \<open>Dir\<close>. All of them are lexical. A path is its text; the functions work on its elements, the
  pieces between slashes. The lemmas show that a cleaned rooted path has no element that leads
  out of where it stands, and what \<open>Rel\<close> says of two such paths.
\<close>

section \<open>Elements\<close>

definition rooted :: "string \<Rightarrow> bool" where
  "rooted p \<longleftrightarrow> p \<noteq> [] \<and> hd p = CHR ''/''"

definition pathElems :: "string \<Rightarrow> string list" where
  "pathElems p = filter (\<lambda>e. e \<noteq> [] \<and> e \<noteq> ''.'') (splitChar (CHR ''/'') p)"

fun joinSlash :: "string list \<Rightarrow> string" where
  "joinSlash [] = []"
| "joinSlash [e] = e"
| "joinSlash (e # f # es) = e @ CHR ''/'' # joinSlash (f # es)"

text \<open>Resolving the elements from left to right; the accumulator is reversed.\<close>

fun resolveElems :: "bool \<Rightarrow> string list \<Rightarrow> string list \<Rightarrow> string list" where
  "resolveElems r acc [] = rev acc"
| "resolveElems r acc (e # es) =
     (if e = ''..''
      then (case acc of
              a # as \<Rightarrow> if a \<noteq> ''..'' then resolveElems r as es else resolveElems r (e # acc) es
            | [] \<Rightarrow> if r then resolveElems r [] es else resolveElems r [e] es)
      else resolveElems r (e # acc) es)"

definition cleanElems :: "string \<Rightarrow> string list" where
  "cleanElems p = resolveElems (rooted p) [] (pathElems p)"

definition render :: "bool \<Rightarrow> string list \<Rightarrow> string" where
  "render r es = (if r then CHR ''/'' # joinSlash es else if es = [] then ''.'' else joinSlash es)"

definition Clean :: "string \<Rightarrow> string" where
  "Clean p = render (rooted p) (cleanElems p)"

text \<open>\<open>Join\<close> of two elements; empty ones are ignored.\<close>

definition Join2 :: "string \<Rightarrow> string \<Rightarrow> string" where
  "Join2 a b = (if a = [] \<and> b = [] then [] else if a = [] then Clean b else if b = [] then Clean a
                else Clean (a @ CHR ''/'' # b))"

text \<open>\<open>Abs\<close> where \<open>wd\<close> is what \<open>os.Getwd\<close> returns, a rooted path.\<close>

definition Abs :: "string \<Rightarrow> string \<Rightarrow> string" where
  "Abs wd p = (if rooted p then Clean p else Join2 wd p)"

fun dropCommon :: "string list \<Rightarrow> string list \<Rightarrow> string list \<times> string list" where
  "dropCommon (b # bs) (t # ts) = (if b = t then dropCommon bs ts else (b # bs, t # ts))"
| "dropCommon bs ts = (bs, ts)"

text \<open>\<open>Rel\<close> of two rooted paths: as many \<open>..\<close> as elements of the base are left, then the rest of the
  target.\<close>

definition Rel :: "string \<Rightarrow> string \<Rightarrow> string" where
  "Rel base targ =
     (case dropCommon (cleanElems base) (cleanElems targ) of (bs, ts) \<Rightarrow>
        if bs = [] \<and> ts = [] then ''.'' else joinSlash (map (\<lambda>_. ''..'') bs @ ts))"

text \<open>\<open>Dir\<close>: everything up to the last slash, cleaned.\<close>

definition Dir :: "string \<Rightarrow> string" where
  "Dir p = (case lastIndexChar (CHR ''/'') p of None \<Rightarrow> ''.'' | Some i \<Rightarrow> Clean (take (Suc i) p))"

section \<open>Cleaned paths\<close>

text \<open>An element proper: not empty, neither dot nor double dot, and without a slash.\<close>

definition proper :: "string \<Rightarrow> bool" where
  "proper e \<longleftrightarrow> e \<noteq> [] \<and> e \<noteq> ''.'' \<and> e \<noteq> ''..'' \<and> CHR ''/'' \<notin> set e"

lemma splitChar_no_sep: "e \<in> set (splitChar c s) \<Longrightarrow> c \<notin> set e"
  by (induction s arbitrary: e) (auto split: list.splits if_splits)

lemma splitChar_append:
  "c \<notin> set e \<Longrightarrow> splitChar c (e @ c # s) = e # splitChar c s"
  by (induction e) auto

lemma splitChar_whole: "c \<notin> set e \<Longrightarrow> splitChar c e = [e]"
  by (induction e) auto

lemma splitChar_joinSlash:
  "list_all proper es \<Longrightarrow> es \<noteq> [] \<Longrightarrow> splitChar (CHR ''/'') (joinSlash es) = es"
proof (induction es rule: joinSlash.induct)
  case (2 e)
  then show ?case by (simp add: proper_def splitChar_whole)
next
  case (3 e f es)
  then show ?case by (simp add: proper_def splitChar_append)
qed simp

lemma pathElems_joinSlash: "list_all proper es \<Longrightarrow> pathElems (joinSlash es) = es"
  by (cases "es = []") (auto simp: pathElems_def splitChar_joinSlash proper_def list_all_iff filter_id_conv)

lemma pathElems_slash [simp]: "pathElems (CHR ''/'' # p) = pathElems p"
  by (simp add: pathElems_def)

lemma pathElems_render: "list_all proper es \<Longrightarrow> pathElems (render True es) = es"
  by (simp add: render_def pathElems_joinSlash)

lemma resolveElems_proper:
  "list_all proper (rev acc) \<Longrightarrow> (\<And>e. e \<in> set es \<Longrightarrow> e = ''..'' \<or> proper e)
   \<Longrightarrow> list_all proper (resolveElems True acc es)"
proof (induction True acc es rule: resolveElems.induct)
  case (2 acc e es)
  show ?case
  proof (cases "e = ''..''")
    case True
    with 2 show ?thesis by (cases acc) (auto simp: proper_def)
  next
    case False
    with 2 show ?thesis by auto
  qed
qed simp

lemma pathElems_shape: "e \<in> set (pathElems p) \<Longrightarrow> e = ''..'' \<or> proper e"
  by (auto simp: pathElems_def proper_def dest: splitChar_no_sep)

lemma cleanElems_proper: "rooted p \<Longrightarrow> list_all proper (cleanElems p)"
  unfolding cleanElems_def by (simp add: resolveElems_proper pathElems_shape)

lemma resolveElems_id:
  "list_all proper es \<Longrightarrow> resolveElems r acc es = rev acc @ es"
  by (induction r acc es rule: resolveElems.induct) (auto simp: proper_def)

lemma rooted_render [simp]: "rooted (render True es)"
  by (simp add: rooted_def render_def)

lemma cleanElems_render: "list_all proper es \<Longrightarrow> cleanElems (render True es) = es"
  by (simp add: cleanElems_def pathElems_render resolveElems_id)

lemma Clean_rooted: "rooted p \<Longrightarrow> rooted (Clean p) \<and> cleanElems (Clean p) = cleanElems p"
  using cleanElems_render [OF cleanElems_proper [of p]] by (simp add: Clean_def)

lemma Clean_idem: "rooted p \<Longrightarrow> Clean (Clean p) = Clean p"
  using Clean_rooted [of p] by (subst Clean_def) (simp add: Clean_def [of p])

lemma Abs_rooted: "rooted wd \<Longrightarrow> p \<noteq> [] \<Longrightarrow> rooted (Abs wd p)"
proof -
  assume "rooted wd" "p \<noteq> []"
  then have "rooted (wd @ CHR ''/'' # p)" "wd \<noteq> []" by (auto simp: rooted_def)
  with \<open>p \<noteq> []\<close> Clean_rooted show ?thesis by (auto simp: Abs_def Join2_def)
qed

section \<open>Relative paths\<close>

lemma dropCommon_split:
  "dropCommon bs ts = (bs', ts') \<Longrightarrow> \<exists>c. bs = c @ bs' \<and> ts = c @ ts'"
proof (induction bs ts rule: dropCommon.induct)
  case (1 b bs t ts)
  then show ?case by (cases "b = t") (auto intro: exI [of _ "t # _"])
qed auto

lemma joinSlash_dotdot:
  "joinSlash (''..'' # es) = ''..'' \<or> hasPrefix (joinSlash (''..'' # es)) ''../''"
  by (cases es) (simp_all add: hasPrefix_def)

text \<open>Where \<open>Rel\<close> neither is nor starts with a double dot, the target lies below the base.\<close>

lemma Rel_below:
  assumes "Rel base targ \<noteq> ''..''" and "\<not> hasPrefix (Rel base targ) ''../''"
  shows "\<exists>es. cleanElems targ = cleanElems base @ es"
proof -
  obtain bs ts where d: "dropCommon (cleanElems base) (cleanElems targ) = (bs, ts)" by fastforce
  have "bs = []"
  proof (rule ccontr)
    assume "bs \<noteq> []"
    then obtain b bs' where "bs = b # bs'" by (cases bs) auto
    then have "Rel base targ = joinSlash (''..'' # map (\<lambda>_. ''..'') bs' @ ts)" by (simp add: Rel_def d)
    with assms joinSlash_dotdot show False by metis
  qed
  with dropCommon_split [OF d] show ?thesis by auto
qed

lemma Rel_above:
  assumes "cleanElems targ = cleanElems base @ es" and "list_all proper es"
  shows "Rel base targ \<noteq> ''..'' \<and> \<not> hasPrefix (Rel base targ) ''../''"
proof -
  have "dropCommon bs (bs @ es) = ([], es)" for bs by (induction bs) (cases es; simp)+
  then have r: "Rel base targ = (if es = [] then ''.'' else joinSlash es)" by (simp add: Rel_def assms(1))
  show ?thesis
  proof (cases es)
    case Nil
    then show ?thesis by (simp add: r hasPrefix_def)
  next
    case (Cons e es')
    with assms(2) have e: "proper e" by simp
    have no: "e @ x \<noteq> ''../'' @ y" if "x = [] \<or> (\<exists>z. x = CHR ''/'' # z)" for x y
    proof
      assume eq: "e @ x = ''../'' @ y"
      consider "e = []" | a where "e = [a]" | a b where "e = [a, b]" | a b c f where "e = a # b # c # f"
        by (cases e; cases "tl e"; cases "tl (tl e)") auto
      then show False using eq e that by cases (auto simp: proper_def)
    qed
    have "joinSlash es \<noteq> ''..''"
    proof (cases es')
      case Nil
      with Cons e show ?thesis by (simp add: proper_def)
    next
      case (Cons f fs)
      show ?thesis
      proof
        assume "joinSlash es = ''..''"
        then have "CHR ''/'' \<in> set ''..''" unfolding \<open>es = e # es'\<close> Cons by (metis in_set_conv_decomp joinSlash.simps(3))
        then show False by simp
      qed
    qed
    moreover have "\<not> hasPrefix (joinSlash es) ''../''"
    proof
      assume "hasPrefix (joinSlash es) ''../''"
      then obtain y where "joinSlash es = ''../'' @ y" by (auto simp: hasPrefix_iff)
      then show False using no [of "[]" y] no [of "CHR ''/'' # joinSlash es'" y] Cons
        by (cases es') auto
    qed
    ultimately show ?thesis using Cons by (simp add: r)
  qed
qed

section \<open>Joining a root and a relative path\<close>

lemma splitChar_append_sep: "splitChar c (a @ c # b) = splitChar c a @ splitChar c b"
proof (induction a)
  case Nil
  then show ?case by simp
next
  case (Cons x a)
  show ?case
  proof (cases "splitChar c a")
    case Nil
    then show ?thesis by simp
  next
    case (Cons w ws)
    with \<open>splitChar c (a @ c # b) = _\<close> show ?thesis by simp
  qed
qed

lemma pathElems_append: "pathElems (a @ CHR ''/'' # b) = pathElems a @ pathElems b"
  by (simp add: pathElems_def splitChar_append_sep)

lemma resolveElems_append:
  "list_all proper es \<Longrightarrow> resolveElems r acc (xs @ es) = resolveElems r acc xs @ es"
proof (induction r acc xs rule: resolveElems.induct)
  case (1 r acc)
  then show ?case by (simp add: resolveElems_id)
next
  case (2 r acc e xs)
  then show ?case by (auto split: list.split)
qed

lemma cleanElems_Join2:
  assumes "rooted root" and "list_all proper es" and "es \<noteq> []"
  shows "rooted (Join2 root (joinSlash es)) \<and> cleanElems (Join2 root (joinSlash es)) = cleanElems root @ es"
proof -
  from assms(2,3) have "joinSlash es \<noteq> []" by (cases es rule: joinSlash.cases) (auto simp: proper_def)
  moreover from assms(1) have root: "root \<noteq> []" by (auto simp: rooted_def)
  ultimately have j: "Join2 root (joinSlash es) = Clean (root @ CHR ''/'' # joinSlash es)" by (simp add: Join2_def)
  have r: "rooted (root @ CHR ''/'' # joinSlash es)" using assms(1) root by (simp add: rooted_def)
  have "cleanElems (root @ CHR ''/'' # joinSlash es) = cleanElems root @ es"
    using assms r by (simp add: cleanElems_def pathElems_append pathElems_joinSlash resolveElems_append)
  with Clean_rooted [OF r] show ?thesis by (simp add: j)
qed

end
