(* ===== verification/Retention.thy ===== *)
theory Retention
  imports Run_Repo Config Go_Path
begin

text \<open>
  \<open>internal/retention/pruner.go\<close>: the pruner removes the logs and artifacts of finished runs that are
  old, cuts logs that are long, deletes old runs, and keeps the files below a total size. The disk
  is a table of absolute paths with size, kind and modification time; calls to it may be denied.
  The lemmas show that nothing is touched that is not recorded by a finished run and below its
  root, and that the limit on the total removes the oldest files and no more than needed.
\<close>

section \<open>The disk\<close>

record file_info =
  fiSize :: int
  fiIsDir :: bool
  fiModTime :: time

datatype file_op = StatOp | RemoveOp | TruncateOp | WalkOp

record disk =
  dkFiles :: "(string \<times> file_info) list"
  dkDenied :: "file_op \<Rightarrow> string \<Rightarrow> goerr option"

text \<open>\<open>os.Stat\<close>: an error other than not-exist, or the entry where there is one.\<close>

definition statFile :: "string \<Rightarrow> disk \<Rightarrow> goerr + file_info option" where
  "statFile p d = (case dkDenied d StatOp p of Some e \<Rightarrow> Inl e | None \<Rightarrow> Inr (map_of (dkFiles d) p))"

text \<open>\<open>os.Remove\<close> with the not-exist error, which every caller passes over, as success.\<close>

definition removeFile :: "string \<Rightarrow> disk \<Rightarrow> (goerr + unit) \<times> disk" where
  "removeFile p d =
     (case dkDenied d RemoveOp p of Some e \<Rightarrow> (Inl e, d)
      | None \<Rightarrow> (Inr (), d\<lparr>dkFiles := filter (\<lambda>(q, _). q \<noteq> p) (dkFiles d)\<rparr>))"

definition truncateFile :: "string \<Rightarrow> int \<Rightarrow> disk \<Rightarrow> (goerr + unit) \<times> disk" where
  "truncateFile p n d =
     (case dkDenied d TruncateOp p of Some e \<Rightarrow> (Inl e, d)
      | None \<Rightarrow> (Inr (), d\<lparr>dkFiles := map (\<lambda>(q, i). (q, if q = p then i\<lparr>fiSize := n\<rparr> else i)) (dkFiles d)\<rparr>))"

section \<open>Managed paths\<close>

text \<open>\<open>wd\<close> is the working directory, \<open>None\<close> where it cannot be had.\<close>

definition absPath :: "string option \<Rightarrow> string \<Rightarrow> string option" where
  "absPath wd p = (if rooted p then Some (Clean p) else map_option (\<lambda>w. Abs w p) wd)"

definition cleanManagedPath :: "string option \<Rightarrow> string \<Rightarrow> string \<Rightarrow> string option" where
  "cleanManagedPath wd root path =
     (if root = [] \<or> path = [] then None
      else case absPath wd root of None \<Rightarrow> None
      | Some absRoot \<Rightarrow> (case absPath wd path of None \<Rightarrow> None
        | Some absP \<Rightarrow>
            let rel = Rel absRoot absP
            in if rel = ''..'' \<or> hasPrefix rel ''../'' then None else Some absP))"

definition removeManagedFile ::
  "string option \<Rightarrow> string \<Rightarrow> string option \<Rightarrow> disk \<Rightarrow> (goerr + bool \<times> int) \<times> disk" where
  "removeManagedFile wd root path d =
     (case path of None \<Rightarrow> (Inr (False, 0), d)
      | Some p \<Rightarrow>
          if p = [] then (Inr (False, 0), d)
          else case cleanManagedPath wd root p of None \<Rightarrow> (Inr (False, 0), d)
          | Some clean \<Rightarrow>
              (case statFile clean d of
                 Inl e \<Rightarrow> (Inl (Wrapf (''stat file '' @ quoteStr clean) e), d)
               | Inr None \<Rightarrow> (Inr (False, 0), d)
               | Inr (Some info) \<Rightarrow>
                   if fiIsDir info then (Inr (False, 0), d)
                   else case removeFile clean d of
                     (Inl e, d') \<Rightarrow> (Inl (Wrapf (''remove file '' @ quoteStr clean) e), d')
                   | (Inr _, d') \<Rightarrow> (Inr (True, fiSize info), d')))"

definition truncateManagedFile ::
  "string option \<Rightarrow> string \<Rightarrow> string \<Rightarrow> int \<Rightarrow> disk \<Rightarrow> (goerr + bool \<times> int) \<times> disk" where
  "truncateManagedFile wd root path maxBytes d =
     (case cleanManagedPath wd root path of None \<Rightarrow> (Inr (False, 0), d)
      | Some clean \<Rightarrow>
          (case statFile clean d of
             Inl e \<Rightarrow> (Inl (Wrapf (''stat log file '' @ quoteStr clean) e), d)
           | Inr None \<Rightarrow> (Inr (False, 0), d)
           | Inr (Some info) \<Rightarrow>
               if fiIsDir info \<or> fiSize info \<le> maxBytes then (Inr (False, 0), d)
               else case truncateFile clean maxBytes d of
                 (Inl e, d') \<Rightarrow> (Inl (Wrapf (''truncate log file '' @ quoteStr clean) e), d')
               | (Inr _, d') \<Rightarrow> (Inr (True, fiSize info - maxBytes), d')))"

section \<open>Operations on the world and the disk\<close>

type_synonym 'a pio = "world \<times> disk \<Rightarrow> (goerr + 'a) \<times> world \<times> disk"

definition returnP :: "'a \<Rightarrow> 'a pio" where "returnP x = (\<lambda>s. (Inr x, s))"
definition failP :: "goerr \<Rightarrow> 'a pio" where "failP e = (\<lambda>s. (Inl e, s))"

definition bindP :: "'a pio \<Rightarrow> ('a \<Rightarrow> 'b pio) \<Rightarrow> 'b pio" where
  "bindP m f = (\<lambda>s. case m s of (Inl e, s') \<Rightarrow> (Inl e, s') | (Inr x, s') \<Rightarrow> f x s')"

definition onWorld :: "'a io \<Rightarrow> 'a pio" where
  "onWorld m = (\<lambda>(w, d). case m w of (r, w') \<Rightarrow> (r, w', d))"

definition onDisk :: "(disk \<Rightarrow> (goerr + 'a) \<times> disk) \<Rightarrow> 'a pio" where
  "onDisk m = (\<lambda>(w, d). case m d of (r, d') \<Rightarrow> (r, w, d'))"

section \<open>The files of one run\<close>

definition olderThan :: "time option \<Rightarrow> int \<Rightarrow> time \<Rightarrow> bool" where
  "olderThan t days now =
     (case t of None \<Rightarrow> False | Some t \<Rightarrow> if days \<le> 0 then False else t < minusDays now days)"

text \<open>\<open>cond && days > 0 && olderThan(t, days, p.now())\<close>: the clock is read only where the rest holds.\<close>

definition agedP :: "bool \<Rightarrow> int \<Rightarrow> time option \<Rightarrow> bool pio" where
  "agedP cond days t =
     (if cond \<and> 0 < days then bindP (onWorld timeNow) (\<lambda>now. returnP (olderThan t days now))
      else returnP False)"

record file_counts =
  fcLogs :: int
  fcArtifacts :: int
  fcTruncated :: int

definition whenP :: "bool \<Rightarrow> (disk \<Rightarrow> (goerr + bool \<times> int) \<times> disk) \<Rightarrow> (bool \<times> int) pio" where
  "whenP b m = (if b then onDisk m else returnP (False, 0))"

definition pruneRunFiles :: "config \<Rightarrow> string option \<Rightarrow> run \<Rightarrow> (file_counts \<times> int) pio" where
  "pruneRunFiles cfg wd run =
     (let ret = RetentionCfg cfg; st = StoreCfg cfg in
      bindP (agedP (runStatus run = RunStatusSuccess) (SuccessLogDays ret) (runFinishedAt run)) (\<lambda>a1.
      bindP (whenP a1 (removeManagedFile wd (LogRoot st) (runLogPath run))) (\<lambda>(d1, n1).
      bindP (agedP (runStatus run \<noteq> RunStatusSuccess) (FailedLogDays ret) (runFinishedAt run)) (\<lambda>a2.
      bindP (whenP a2 (removeManagedFile wd (LogRoot st) (runLogPath run))) (\<lambda>(d2, n2).
      bindP (agedP True (ArtifactDays ret) (runFinishedAt run)) (\<lambda>a3.
      bindP (whenP a3 (removeManagedFile wd (ArtifactRoot st) (runResultPath run))) (\<lambda>(d3, n3).
      bindP (case runLogPath run of None \<Rightarrow> returnP (False, 0)
             | Some p \<Rightarrow> whenP (0 < MaxLogBytesPerRun ret)
                 (truncateManagedFile wd (LogRoot st) p (MaxLogBytesPerRun ret))) (\<lambda>(d4, n4).
      returnP (\<lparr>fcLogs = of_bool d1 + of_bool d2, fcArtifacts = of_bool d3, fcTruncated = of_bool d4\<rparr>,
               n1 + n2 + n3 + n4)))))))))"

definition removeAllRunFiles :: "config \<Rightarrow> string option \<Rightarrow> run \<Rightarrow> (file_counts \<times> int) pio" where
  "removeAllRunFiles cfg wd run =
     bindP (onDisk (removeManagedFile wd (LogRoot (StoreCfg cfg)) (runLogPath run))) (\<lambda>(d1, n1).
     bindP (onDisk (removeManagedFile wd (ArtifactRoot (StoreCfg cfg)) (runResultPath run))) (\<lambda>(d2, n2).
     returnP (\<lparr>fcLogs = of_bool d1, fcArtifacts = of_bool d2, fcTruncated = 0\<rparr>, n1 + n2)))"

section \<open>The total size\<close>

text \<open>The files of the managed roots, in the order the pruner removes them: oldest first, then by path.\<close>

datatype file_entry = FileEntry (fePath: string) (feSize: int) (feModTime: time)

definition feKey :: "file_entry \<Rightarrow> time \<times> string \<times> int" where
  "feKey f = (feModTime f, fePath f, feSize f)"

lemma feKey_inj: "feKey f = feKey g \<Longrightarrow> f = g"
  by (cases f; cases g) (simp add: feKey_def)

instantiation file_entry :: linorder
begin

definition less_eq_file_entry :: "file_entry \<Rightarrow> file_entry \<Rightarrow> bool" where
  "f \<le> g \<longleftrightarrow> feKey f \<le> feKey g"

definition less_file_entry :: "file_entry \<Rightarrow> file_entry \<Rightarrow> bool" where
  "f < g \<longleftrightarrow> feKey f < feKey g"

instance
  by standard (auto simp: less_eq_file_entry_def less_file_entry_def intro: feKey_inj order_trans)

end

definition statManagedRunFile :: "string option \<Rightarrow> string \<Rightarrow> string option \<Rightarrow> disk \<Rightarrow> file_entry list" where
  "statManagedRunFile wd root path d =
     (case path of None \<Rightarrow> []
      | Some p \<Rightarrow> (case cleanManagedPath wd root p of None \<Rightarrow> []
        | Some clean \<Rightarrow> (case statFile clean d of
            Inr (Some info) \<Rightarrow> if fiIsDir info then [] else [FileEntry clean (fiSize info) (fiModTime info)]
          | _ \<Rightarrow> [])))"

definition terminalRunFiles :: "string option \<Rightarrow> store_config \<Rightarrow> run list \<Rightarrow> disk \<Rightarrow> file_entry list" where
  "terminalRunFiles wd st runs d =
     concat (map (\<lambda>r. statManagedRunFile wd (LogRoot st) (runLogPath r) d
       @ statManagedRunFile wd (ArtifactRoot st) (runResultPath r) d) runs)"

text \<open>\<open>filepath.WalkDir\<close> over a root: the sizes of what is not a directory below it.\<close>

definition belowPath :: "string \<Rightarrow> string \<Rightarrow> bool" where
  "belowPath root p \<longleftrightarrow> take (length (cleanElems root)) (cleanElems p) = cleanElems root"

definition treeSize :: "string \<Rightarrow> disk \<Rightarrow> int" where
  "treeSize root d =
     sum_list (map (\<lambda>(_, i). fiSize i) (filter (\<lambda>(p, i). belowPath root p \<and> \<not> fiIsDir i) (dkFiles d)))"

fun managedStorageBytes :: "string option \<Rightarrow> string list \<Rightarrow> disk \<Rightarrow> goerr + int" where
  "managedStorageBytes wd [] d = Inr 0"
| "managedStorageBytes wd (root # roots) d =
     (if root = [] then managedStorageBytes wd roots d
      else case dkDenied d WalkOp root of
        Some e \<Rightarrow> Inl (Wrapf (''walk storage root '' @ quoteStr root) e)
      | None \<Rightarrow> map_ok ((+) (case absPath wd root of None \<Rightarrow> 0 | Some r \<Rightarrow> treeSize r d))
                  (managedStorageBytes wd roots d))"

text \<open>\<open>ctx k\<close> is what \<open>ctx.Err()\<close> returns at the \<open>k\<close>-th check of the loop.\<close>

fun removeOldest ::
  "(nat \<Rightarrow> goerr option) \<Rightarrow> nat \<Rightarrow> int \<Rightarrow> int \<Rightarrow> int \<Rightarrow> file_entry list \<Rightarrow> disk \<Rightarrow> (goerr + int) \<times> disk" where
  "removeOldest ctx k maxBytes tot freed [] d = (Inr freed, d)"
| "removeOldest ctx k maxBytes tot freed (f # fs) d =
     (case ctx k of Some e \<Rightarrow> (Inl e, d)
      | None \<Rightarrow>
          if tot \<le> maxBytes then (Inr freed, d)
          else case removeFile (fePath f) d of
            (Inl e, d') \<Rightarrow> (Inl (Wrapf (''remove storage file '' @ quoteStr (fePath f)) e), d')
          | (Inr _, d') \<Rightarrow> removeOldest ctx (Suc k) maxBytes (tot - feSize f) (freed + feSize f) fs d')"

definition enforceTotalStorage ::
  "config \<Rightarrow> string option \<Rightarrow> (nat \<Rightarrow> goerr option) \<Rightarrow> int \<Rightarrow> run list \<Rightarrow> disk \<Rightarrow> (goerr + int) \<times> disk" where
  "enforceTotalStorage cfg wd ctx maxBytes runs d =
     (case managedStorageBytes wd [LogRoot (StoreCfg cfg), ArtifactRoot (StoreCfg cfg)] d of
        Inl e \<Rightarrow> (Inl e, d)
      | Inr tot \<Rightarrow>
          if tot \<le> maxBytes then (Inr 0, d)
          else removeOldest ctx 0 maxBytes tot 0 (sort (terminalRunFiles wd (StoreCfg cfg) runs d)) d)"

section \<open>Run\<close>

record report =
  rpDeletedRuns :: int
  rpDeletedLogFiles :: int
  rpDeletedArtifacts :: int
  rpTruncatedLogFiles :: int
  rpFreedBytes :: int

definition emptyReport :: report where
  "emptyReport = \<lparr>rpDeletedRuns = 0, rpDeletedLogFiles = 0, rpDeletedArtifacts = 0,
     rpTruncatedLogFiles = 0, rpFreedBytes = 0\<rparr>"

definition addCounts :: "report \<Rightarrow> file_counts \<Rightarrow> int \<Rightarrow> report" where
  "addCounts rp c n = rp\<lparr>rpDeletedLogFiles := rpDeletedLogFiles rp + fcLogs c,
     rpDeletedArtifacts := rpDeletedArtifacts rp + fcArtifacts c,
     rpTruncatedLogFiles := rpTruncatedLogFiles rp + fcTruncated c, rpFreedBytes := rpFreedBytes rp + n\<rparr>"

fun pruneEach :: "config \<Rightarrow> string option \<Rightarrow> (nat \<Rightarrow> goerr option) \<Rightarrow> nat \<Rightarrow> report \<Rightarrow> run list \<Rightarrow> report pio" where
  "pruneEach cfg wd ctx k rp [] = returnP rp"
| "pruneEach cfg wd ctx k rp (r # rs) =
     (case ctx k of Some e \<Rightarrow> failP e
      | None \<Rightarrow> bindP (pruneRunFiles cfg wd r) (\<lambda>(c, n). pruneEach cfg wd ctx (Suc k) (addCounts rp c n) rs))"

fun removeHistory :: "config \<Rightarrow> string option \<Rightarrow> time \<Rightarrow> report \<Rightarrow> run list \<Rightarrow> report pio" where
  "removeHistory cfg wd cutoff rp [] = returnP rp"
| "removeHistory cfg wd cutoff rp (r # rs) =
     (if case runFinishedAt r of None \<Rightarrow> True | Some t \<Rightarrow> \<not> t < cutoff
      then removeHistory cfg wd cutoff rp rs
      else bindP (removeAllRunFiles cfg wd r) (\<lambda>(c, n). removeHistory cfg wd cutoff (addCounts rp c n) rs))"

definition pruneHistory :: "config \<Rightarrow> string option \<Rightarrow> report \<Rightarrow> run list \<Rightarrow> report pio" where
  "pruneHistory cfg wd rp runs =
     (if 0 < RunHistoryDays (RetentionCfg cfg)
      then bindP (onWorld timeNow) (\<lambda>now.
           let cutoff = minusDays now (RunHistoryDays (RetentionCfg cfg)) in
           bindP (removeHistory cfg wd cutoff rp runs) (\<lambda>rp.
           bindP (onWorld (DeleteTerminalBefore cutoff)) (\<lambda>n. returnP (rp\<lparr>rpDeletedRuns := n\<rparr>))))
      else returnP rp)"

text \<open>What the pruner does after it has listed the finished runs.\<close>

definition pruneListed :: "config \<Rightarrow> string option \<Rightarrow> (nat \<Rightarrow> goerr option) \<Rightarrow> (nat \<Rightarrow> goerr option) \<Rightarrow> run list \<Rightarrow> report pio" where
  "pruneListed cfg wd ctx ctx' runs =
     bindP (pruneEach cfg wd ctx 0 emptyReport runs) (\<lambda>rp.
     bindP (pruneHistory cfg wd rp runs) (\<lambda>rp.
       if 0 < MaxTotalStorageBytes (RetentionCfg cfg)
       then bindP (onDisk (enforceTotalStorage cfg wd ctx' (MaxTotalStorageBytes (RetentionCfg cfg)) runs)) (\<lambda>freed.
            returnP (rp\<lparr>rpFreedBytes := rpFreedBytes rp + freed\<rparr>))
       else returnP rp))"

definition prunerRun ::
  "config \<Rightarrow> string option \<Rightarrow> (nat \<Rightarrow> goerr option) \<Rightarrow> (nat \<Rightarrow> goerr option) \<Rightarrow> report pio" where
  "prunerRun cfg wd ctx ctx' =
     (if \<not> RetEnabled (RetentionCfg cfg) then returnP emptyReport
      else bindP (onWorld timeNow) (\<lambda>now.
        bindP (onWorld (ListTerminalBefore now \<lparr>pagePage = 1, pageSize = 100000\<rparr>)) (\<lambda>(runs, tot).
        pruneListed cfg wd ctx ctx' runs)))"

section \<open>Managed paths lie below their root\<close>

lemma absPath_rooted:
  assumes "absPath wd p = Some a" and "\<And>w. wd = Some w \<Longrightarrow> rooted w" and "p \<noteq> []"
  shows "rooted a" and "list_all proper (cleanElems a)"
proof -
  show "rooted a"
    using assms Clean_rooted [of p] Abs_rooted [of _ p] by (auto simp: absPath_def split: if_splits)
  then show "list_all proper (cleanElems a)" by (rule cleanElems_proper)
qed

lemma belowPath_iff: "belowPath root p \<longleftrightarrow> (\<exists>es. cleanElems p = cleanElems root @ es)"
  unfolding belowPath_def by (metis append_eq_conv_conj append_take_drop_id)

lemma cleanManagedPath_iff:
  assumes "\<And>w. wd = Some w \<Longrightarrow> rooted w"
  shows "cleanManagedPath wd root path = Some p \<longleftrightarrow> root \<noteq> [] \<and> path \<noteq> [] \<and> absPath wd path = Some p
    \<and> (\<exists>r. absPath wd root = Some r \<and> belowPath r p)"
proof (cases "root = [] \<or> path = [] \<or> absPath wd path = None \<or> absPath wd root = None")
  case True
  then show ?thesis by (auto simp: cleanManagedPath_def split: option.splits)
next
  case False
  then obtain a r where a: "absPath wd path = Some a" and r: "absPath wd root = Some r"
    and ne: "root \<noteq> []" "path \<noteq> []" by auto
  have "(Rel r a = ''..'' \<or> hasPrefix (Rel r a) ''../'') \<longleftrightarrow> \<not> belowPath r a"
  proof
    assume up: "Rel r a = ''..'' \<or> hasPrefix (Rel r a) ''../''"
    show "\<not> belowPath r a"
    proof
      assume "belowPath r a"
      then obtain es where es: "cleanElems a = cleanElems r @ es" by (auto simp: belowPath_iff)
      from absPath_rooted(2) [OF a assms ne(2)] es have "list_all proper es" by simp
      from Rel_above [OF es this] up show False by blast
    qed
  next
    assume "\<not> belowPath r a"
    then show "Rel r a = ''..'' \<or> hasPrefix (Rel r a) ''../''" using Rel_below [of r a] by (auto simp: belowPath_iff)
  qed
  with a r ne show ?thesis by (auto simp: cleanManagedPath_def Let_def)
qed

section \<open>What the pruner touches\<close>

text \<open>A relation between database and disk before and after that every step obeys, as for the store.\<close>

definition pobeys :: "(db \<times> disk \<Rightarrow> db \<times> disk \<Rightarrow> bool) \<Rightarrow> 'a pio \<Rightarrow> bool" where
  "pobeys R m \<longleftrightarrow> (\<forall>w d r w' d'. m (w, d) = (r, w', d') \<longrightarrow> R (wDb w, d) (wDb w', d'))"

locale state_preorder =
  fixes R :: "db \<times> disk \<Rightarrow> db \<times> disk \<Rightarrow> bool"
  assumes refl: "R s s" and trans: "R s t \<Longrightarrow> R t u \<Longrightarrow> R s u"
begin

lemma pobeys_returnP: "pobeys R (returnP x)" and pobeys_failP: "pobeys R (failP e)"
  by (simp_all add: pobeys_def returnP_def failP_def refl)

lemma pobeys_bindP:
  assumes "pobeys R m" and "\<And>x. pobeys R (f x)"
  shows "pobeys R (bindP m f)"
  unfolding pobeys_def
proof (intro allI impI)
  fix w d r w' d'
  assume b: "bindP m f (w, d) = (r, w', d')"
  obtain r1 w1 d1 where m: "m (w, d) = (r1, w1, d1)" by (cases "m (w, d)") auto
  with assms(1) have R1: "R (wDb w, d) (wDb w1, d1)" by (auto simp: pobeys_def)
  show "R (wDb w, d) (wDb w', d')"
  proof (cases r1)
    case (Inl e)
    with b m R1 show ?thesis by (simp add: bindP_def)
  next
    case (Inr x)
    with b m have "f x (w1, d1) = (r, w', d')" by (simp add: bindP_def)
    with assms(2) [of x] have "R (wDb w1, d1) (wDb w', d')" by (auto simp: pobeys_def)
    with R1 show ?thesis by (rule trans)
  qed
qed

lemma pobeys_onWorld: "obeys (\<lambda>a b. \<forall>d. R (a, d) (b, d)) m \<Longrightarrow> pobeys R (onWorld m)"
  by (auto simp: pobeys_def onWorld_def obeys_def split: prod.splits) (metis snd_conv)

lemma pobeys_onDisk: "(\<And>d r d' a. m d = (r, d') \<Longrightarrow> R (a, d) (a, d')) \<Longrightarrow> pobeys R (onDisk m)"
  by (auto simp: pobeys_def onDisk_def split: prod.splits)

lemma pobeys_whenP: "pobeys R (onDisk m) \<Longrightarrow> pobeys R (whenP b m)"
  by (simp add: whenP_def pobeys_returnP)

lemma pobeys_agedP: "pobeys R (onWorld timeNow) \<Longrightarrow> pobeys R (agedP c n t)"
  by (auto simp: agedP_def intro: pobeys_bindP pobeys_returnP)

end

definition touchesOnly :: "string set \<Rightarrow> db \<times> disk \<Rightarrow> db \<times> disk \<Rightarrow> bool" where
  "touchesOnly S s t \<longleftrightarrow> (\<forall>p. p \<notin> S \<longrightarrow> map_of (dkFiles (snd t)) p = map_of (dkFiles (snd s)) p)"

interpretation touching: state_preorder "touchesOnly S" for S
  by unfold_locales (auto simp: touchesOnly_def)

lemma map_of_filter_neq: "q \<noteq> p \<Longrightarrow> map_of (filter (\<lambda>(x, _). x \<noteq> p) xs) q = map_of xs q"
  by (induction xs) auto

lemma map_of_map_other: "q \<noteq> p \<Longrightarrow> map_of (map (\<lambda>(x, i). (x, if x = p then g i else i)) xs) q = map_of xs q"
  by (induction xs) auto

lemma removeFile_touches: "removeFile p d = (r, d') \<Longrightarrow> p \<in> S \<Longrightarrow> touchesOnly S (a, d) (b, d')"
  by (auto simp: removeFile_def touchesOnly_def intro!: map_of_filter_neq split: option.splits)

lemma truncateFile_touches: "truncateFile p n d = (r, d') \<Longrightarrow> p \<in> S \<Longrightarrow> touchesOnly S (a, d) (b, d')"
  by (auto simp: truncateFile_def touchesOnly_def split: option.splits
      intro!: map_of_map_other [where g = "\<lambda>i. i\<lparr>fiSize := n\<rparr>"])

lemma removeManagedFile_touches:
  assumes "removeManagedFile wd root path d = (r, d')"
    and "\<And>p q. path = Some q \<Longrightarrow> cleanManagedPath wd root q = Some p \<Longrightarrow> p \<in> S"
  shows "touchesOnly S (a, d) (a, d')"
  using assms touching.refl [of S "(a, d)"] removeFile_touches [of _ d _ _ S a a]
  by (fastforce simp: removeManagedFile_def split: option.splits sum.splits if_splits prod.splits)

lemma truncateManagedFile_touches:
  assumes "truncateManagedFile wd root q n d = (r, d')"
    and "\<And>p. cleanManagedPath wd root q = Some p \<Longrightarrow> p \<in> S"
  shows "touchesOnly S (a, d) (a, d')"
  using assms touching.refl [of S "(a, d)"] truncateFile_touches [of _ n d _ _ S a a]
  by (fastforce simp: truncateManagedFile_def split: option.splits sum.splits if_splits prod.splits)

text \<open>The paths a list of runs records, below their roots.\<close>

definition managedOf :: "config \<Rightarrow> string option \<Rightarrow> run list \<Rightarrow> string set" where
  "managedOf cfg wd runs =
     {p. \<exists>r\<in>set runs. \<exists>q. (runLogPath r = Some q \<and> cleanManagedPath wd (LogRoot (StoreCfg cfg)) q = Some p)
        \<or> (runResultPath r = Some q \<and> cleanManagedPath wd (ArtifactRoot (StoreCfg cfg)) q = Some p)}"

lemma managedOf_log:
  "r \<in> set runs \<Longrightarrow> runLogPath r = Some q \<Longrightarrow> cleanManagedPath wd (LogRoot (StoreCfg cfg)) q = Some p
   \<Longrightarrow> p \<in> managedOf cfg wd runs"
  and managedOf_result:
  "r \<in> set runs \<Longrightarrow> runResultPath r = Some q \<Longrightarrow> cleanManagedPath wd (ArtifactRoot (StoreCfg cfg)) q = Some p
   \<Longrightarrow> p \<in> managedOf cfg wd runs"
  by (auto simp: managedOf_def)

lemma touching_world: "pobeys (touchesOnly S) (onWorld m)"
  by (auto simp: pobeys_def onWorld_def touchesOnly_def split: prod.splits)

lemma touching_log:
  "r \<in> set runs \<Longrightarrow> pobeys (touchesOnly (managedOf cfg wd runs)) (onDisk (removeManagedFile wd (LogRoot (StoreCfg cfg)) (runLogPath r)))"
  by (rule touching.pobeys_onDisk) (erule removeManagedFile_touches, rule managedOf_log)

lemma touching_result:
  "r \<in> set runs \<Longrightarrow> pobeys (touchesOnly (managedOf cfg wd runs)) (onDisk (removeManagedFile wd (ArtifactRoot (StoreCfg cfg)) (runResultPath r)))"
  by (rule touching.pobeys_onDisk) (erule removeManagedFile_touches, rule managedOf_result)

lemma touching_truncate:
  "r \<in> set runs \<Longrightarrow> runLogPath r = Some q \<Longrightarrow>
   pobeys (touchesOnly (managedOf cfg wd runs)) (onDisk (truncateManagedFile wd (LogRoot (StoreCfg cfg)) q n))"
  by (rule touching.pobeys_onDisk) (erule truncateManagedFile_touches, rule managedOf_log)

lemmas touching_intros = touching.pobeys_returnP touching.pobeys_failP touching.pobeys_bindP
  touching.pobeys_whenP touching.pobeys_agedP touching_world touching_log touching_result touching_truncate

lemma pobeys_case_prod: "(\<And>a b. pobeys R (f a b)) \<Longrightarrow> pobeys R (case x of (a, b) \<Rightarrow> f a b)"
  by (cases x) simp

lemma touching_pruneRunFiles:
  assumes "r \<in> set runs"
  shows "pobeys (touchesOnly (managedOf cfg wd runs)) (pruneRunFiles cfg wd r)"
proof -
  have "pobeys (touchesOnly (managedOf cfg wd runs)) (case runLogPath r of None \<Rightarrow> returnP (False, 0)
     | Some p \<Rightarrow> whenP b (truncateManagedFile wd (LogRoot (StoreCfg cfg)) p n))" for b n
    using assms by (cases "runLogPath r") (auto intro!: touching_intros)
  with assms show ?thesis
    unfolding pruneRunFiles_def Let_def by (intro touching_intros pobeys_case_prod)
qed

lemma touching_removeAllRunFiles:
  "r \<in> set runs \<Longrightarrow> pobeys (touchesOnly (managedOf cfg wd runs)) (removeAllRunFiles cfg wd r)"
  unfolding removeAllRunFiles_def by (intro touching_intros pobeys_case_prod)

lemma touching_pruneEach:
  "set rs \<subseteq> set runs \<Longrightarrow> pobeys (touchesOnly (managedOf cfg wd runs)) (pruneEach cfg wd ctx k rp rs)"
  by (induction rs arbitrary: k rp)
    (auto intro!: touching_intros touching_pruneRunFiles split: option.split)

lemma touching_removeHistory:
  "set rs \<subseteq> set runs \<Longrightarrow> pobeys (touchesOnly (managedOf cfg wd runs)) (removeHistory cfg wd cutoff rp rs)"
  by (induction rs arbitrary: rp) (auto intro!: touching_intros touching_removeAllRunFiles)

lemma statManagedRunFile_set:
  "f \<in> set (statManagedRunFile wd root path d) \<Longrightarrow> \<exists>q. path = Some q \<and> cleanManagedPath wd root q = Some (fePath f)"
  by (auto simp: statManagedRunFile_def split: option.splits sum.splits if_splits)

lemma terminalRunFiles_managed:
  "f \<in> set (terminalRunFiles wd (StoreCfg cfg) runs d) \<Longrightarrow> fePath f \<in> managedOf cfg wd runs"
  unfolding terminalRunFiles_def managedOf_def by (fastforce dest: statManagedRunFile_set)

lemma touching_removeOldest:
  "removeOldest ctx k m tot freed fs d = (r, d') \<Longrightarrow> fePath ` set fs \<subseteq> S \<Longrightarrow> touchesOnly S (a, d) (a, d')"
proof (induction fs arbitrary: k tot freed d)
  case Nil
  then show ?case by (simp add: touching.refl)
next
  case (Cons f fs)
  obtain x d1 where rm: "removeFile (fePath f) d = (x, d1)" by fastforce
  with Cons.prems(2) have t: "touchesOnly S (a, d) (a, d1)" by (auto intro: removeFile_touches)
  show ?case
  proof (cases "ctx k \<noteq> None \<or> tot \<le> m")
    case True
    with Cons.prems(1) show ?thesis by (auto simp: touching.refl split: option.splits)
  next
    case False
    show ?thesis
    proof (cases x)
      case (Inl e)
      with False rm Cons.prems(1) t show ?thesis by auto
    next
      case (Inr u)
      with False rm Cons.prems(1) have "removeOldest ctx (Suc k) m (tot - feSize f) (freed + feSize f) fs d1 = (r, d')"
        by auto
      with Cons.IH Cons.prems(2) have "touchesOnly S (a, d1) (a, d')" by auto
      with t show ?thesis by (rule touching.trans)
    qed
  qed
qed

lemma touching_enforce:
  "pobeys (touchesOnly (managedOf cfg wd runs)) (onDisk (enforceTotalStorage cfg wd ctx m runs))"
proof (rule touching.pobeys_onDisk)
  fix d r d' a
  assume "enforceTotalStorage cfg wd ctx m runs d = (r, d')"
  then show "touchesOnly (managedOf cfg wd runs) (a, d) (a, d')"
    unfolding enforceTotalStorage_def
    by (auto simp: touching.refl terminalRunFiles_managed image_subset_iff split: sum.splits if_splits
        intro: touching_removeOldest)
qed

lemma ListTerminalBefore_Inr:
  assumes "ListTerminalBefore t p w = (Inr (runs, n), w')"
  shows "wDb w' = wDb w"
    and "r \<in> set runs \<Longrightarrow> \<exists>q\<in>set (dbRuns (wDb w)). terminalBefore (encodeTime t) q \<and> scanRun q = Inr r"
proof -
  let ?b = "encodeTime t"
  let ?sorted = "sort_key (\<lambda>r. (case rr_finished_at r of None \<Rightarrow> [] | Some t \<Rightarrow> t, rr_id r)) (filter (terminalBefore ?b) (dbRuns (wDb w)))"
  let ?rows = "sqlLimit (fst (normalize p)) (sqlOffset (snd (normalize p)) ?sorted)"
  from assms have l: "wDb w' = wDb w \<and> map_res scanRun ?rows = Inr runs"
    by (auto simp: ListTerminalBefore_def Let_def io_Inr queryDb_Inr split: prod.splits)
  then show "wDb w' = wDb w" by simp
  assume "r \<in> set runs"
  from map_res_Inr_set [OF conjunct2 [OF l] this] obtain q where q: "q \<in> set ?rows" "scanRun q = Inr r" by blast
  have "set ?rows \<subseteq> set ?sorted"
    using set_sqlLimit [of "fst (normalize p)" "sqlOffset (snd (normalize p)) ?sorted"]
      set_drop_subset [of "nat (snd (normalize p))" ?sorted]
    by (auto simp: sqlOffset_def split: if_splits)
  with q show "\<exists>q\<in>set (dbRuns (wDb w)). terminalBefore ?b q \<and> scanRun q = Inr r" by auto
qed

lemma touching_pruneListed: "pobeys (touchesOnly (managedOf cfg wd runs)) (pruneListed cfg wd ctx ctx' runs)"
proof -
  have "pobeys (touchesOnly (managedOf cfg wd runs)) (pruneHistory cfg wd rp runs)" for rp
    unfolding pruneHistory_def Let_def by (auto intro!: touching_intros touching_removeHistory)
  then show ?thesis
    unfolding pruneListed_def by (auto intro!: touching_intros touching_pruneEach touching_enforce)
qed

lemma prunerRun_touches:
  assumes "prunerRun cfg wd ctx ctx' (w, d) = (r, w', d')"
  obtains runs t where "touchesOnly (managedOf cfg wd runs) (wDb w, d) (wDb w', d')"
    and "\<And>x. x \<in> set runs \<Longrightarrow> \<exists>q\<in>set (dbRuns (wDb w)). terminalBefore (encodeTime t) q \<and> scanRun q = Inr x"
proof (cases "RetEnabled (RetentionCfg cfg)")
  case False
  with assms have "d' = d" by (simp add: prunerRun_def returnP_def)
  then show thesis by (intro that [of "[]"]) (simp_all add: touchesOnly_def)
next
  case True
  define now w1 where "now = wClock w (wTicks w)" and "w1 = w\<lparr>wTicks := Suc (wTicks w)\<rparr>"
  obtain l w2 where l: "ListTerminalBefore now \<lparr>pagePage = 1, pageSize = 100000\<rparr> w1 = (l, w2)" by fastforce
  from True assms have run: "(case l of Inl e \<Rightarrow> (Inl e, w2, d)
      | Inr (runs, tot) \<Rightarrow> pruneListed cfg wd ctx ctx' runs (w2, d)) = (r, w', d')"
    by (auto simp: prunerRun_def bindP_def onWorld_def timeNow_def now_def [symmetric] w1_def [symmetric] l
        case_prod_unfold split: sum.splits)
  show thesis
  proof (cases l)
    case (Inl e)
    with run have "d' = d" by simp
    then show thesis by (intro that [of "[]"]) (simp_all add: touchesOnly_def)
  next
    case (Inr x)
    then obtain runs n where x: "l = Inr (runs, n)" by (cases x) simp
    with run have "pruneListed cfg wd ctx ctx' runs (w2, d) = (r, w', d')" by simp
    with touching_pruneListed have "touchesOnly (managedOf cfg wd runs) (wDb w2, d) (wDb w', d')"
      unfolding pobeys_def by blast
    moreover have "wDb w1 = wDb w" by (simp add: w1_def)
    ultimately show thesis
      using ListTerminalBefore_Inr(2) [OF l [unfolded x]] by (intro that [of runs now]) (simp_all add: touchesOnly_def)
  qed
qed

section \<open>Which files the limit on the total removes\<close>

lemma removeOldest_Inr:
  assumes "removeOldest ctx k m tot freed fs d = (Inr n, d')"
  shows "\<exists>gone kept. fs = gone @ kept \<and> n = freed + sum_list (map feSize gone)
    \<and> dkFiles d' = filter (\<lambda>(q, _). q \<notin> fePath ` set gone) (dkFiles d)
    \<and> (tot - sum_list (map feSize gone) \<le> m \<or> kept = [])
    \<and> (\<forall>gs g. gone = gs @ [g] \<longrightarrow> m < tot - sum_list (map feSize gs))"
  using assms
proof (induction fs arbitrary: k tot freed d)
  case Nil
  then show ?case by (auto simp: filter_id_conv)
next
  case (Cons f fs)
  show ?case
  proof (cases "tot \<le> m")
    case True
    with Cons.prems have "n = freed" "d' = d" by (auto split: option.splits)
    with True show ?thesis
      by (intro exI [of _ "[]"] exI [of _ "f # fs"]) (auto simp: filter_id_conv)
  next
    case False
    with Cons.prems obtain d1 where rm: "removeFile (fePath f) d = (Inr (), d1)"
      and "removeOldest ctx (Suc k) m (tot - feSize f) (freed + feSize f) fs d1 = (Inr n, d')"
      by (auto split: option.splits prod.splits sum.splits)
    from Cons.IH [OF this(2)] obtain gone kept where g: "fs = gone @ kept"
      "n = freed + feSize f + sum_list (map feSize gone)"
      "dkFiles d' = filter (\<lambda>(q, _). q \<notin> fePath ` set gone) (dkFiles d1)"
      "tot - feSize f - sum_list (map feSize gone) \<le> m \<or> kept = []"
      and last: "\<forall>gs g. gone = gs @ [g] \<longrightarrow> m < tot - feSize f - sum_list (map feSize gs)" by blast
    from rm have "dkFiles d1 = filter (\<lambda>(q, _). q \<noteq> fePath f) (dkFiles d)"
      by (auto simp: removeFile_def split: option.splits)
    with g(3) have "dkFiles d' = filter (\<lambda>(q, _). q \<notin> fePath ` set (f # gone)) (dkFiles d)"
      by (auto simp: case_prod_unfold intro!: filter_cong)
    moreover have "m < tot - sum_list (map feSize gs)" if gs: "f # gone = gs @ [g]" for gs g
    proof (cases gs)
      case Nil
      with False show ?thesis by simp
    next
      case (Cons a as)
      with gs last have "m < tot - feSize f - sum_list (map feSize as)" by simp
      with Cons gs show ?thesis by simp
    qed
    ultimately show ?thesis using g(1,2,4)
      by (intro exI [of _ "f # gone"] exI [of _ kept]) (simp add: algebra_simps)
  qed
qed

lemma enforceTotalStorage_Inr:
  assumes "enforceTotalStorage cfg wd ctx m runs d = (Inr n, d')"
  shows "\<exists>tot gone kept. managedStorageBytes wd [LogRoot (StoreCfg cfg), ArtifactRoot (StoreCfg cfg)] d = Inr tot
    \<and> sort (terminalRunFiles wd (StoreCfg cfg) runs d) = gone @ kept \<and> n = sum_list (map feSize gone)
    \<and> dkFiles d' = filter (\<lambda>(q, _). q \<notin> fePath ` set gone) (dkFiles d)
    \<and> (tot - n \<le> m \<or> kept = []) \<and> (\<forall>gs g. gone = gs @ [g] \<longrightarrow> m < tot - sum_list (map feSize gs))"
proof -
  from assms obtain tot where t: "managedStorageBytes wd [LogRoot (StoreCfg cfg), ArtifactRoot (StoreCfg cfg)] d = Inr tot"
    by (auto simp: enforceTotalStorage_def split: sum.splits)
  show ?thesis
  proof (cases "tot \<le> m")
    case True
    with assms t have "n = 0" "d' = d" by (simp_all add: enforceTotalStorage_def)
    with t True show ?thesis
      by (intro exI [of _ tot] exI [of _ "[]"] exI [of _ "sort (terminalRunFiles wd (StoreCfg cfg) runs d)"])
        (auto simp: filter_id_conv)
  next
    case False
    with assms t have "removeOldest ctx 0 m tot 0 (sort (terminalRunFiles wd (StoreCfg cfg) runs d)) d = (Inr n, d')"
      by (simp add: enforceTotalStorage_def)
    from removeOldest_Inr [OF this] t show ?thesis by auto
  qed
qed

end
