(* ===== verification/Image_Source.thy ===== *)
theory Image_Source
  imports Config Go_Text
begin

text \<open>
  \<open>internal/image/source.go\<close> and \<open>local.go\<close>: the candidates for an image, the local source, which
  asks the Docker command line, and the resolver, which applies the policy of the configuration
  (allowed sources and allowed prefixes) to whatever a source answers. The interface \<open>image_source\<close>
  says what the resolver's clients rely on; the remote source is in theory Image_Remote.
\<close>

record candidate =
  cdSourceType :: string
  cdImageRef :: string
  cdPullRef :: string
  cdDigest :: "string option"

section \<open>The interface of a source\<close>

text \<open>\<open>lists q prefix r\<close>: the listing can end with \<open>r\<close>; \<open>resolves ref r\<close>: resolving can.\<close>

locale image_source =
  fixes lists :: "string \<Rightarrow> string \<Rightarrow> goerr + candidate list \<Rightarrow> bool"
    and resolves :: "string \<Rightarrow> goerr + candidate \<Rightarrow> bool"
    and kind :: string
  assumes lists_kind: "lists q pfx (Inr cs) \<Longrightarrow> c \<in> set cs \<Longrightarrow> cdSourceType c = kind"
    and lists_prefix: "lists q pfx (Inr cs) \<Longrightarrow> c \<in> set cs \<Longrightarrow> hasPrefix (cdImageRef c) pfx"
    and lists_query: "lists q pfx (Inr cs) \<Longrightarrow> c \<in> set cs \<Longrightarrow> containsStr (cdImageRef c) q"
    and resolves_same: "resolves ref (Inr c) \<Longrightarrow> cdImageRef c = ref \<and> cdSourceType c = kind"

section \<open>local.go\<close>

text \<open>\<open>dockerOut args\<close> is the standard output of the command \<open>docker\<close> with these arguments, or its
  error.\<close>

definition localLine :: "string \<Rightarrow> string \<Rightarrow> string \<Rightarrow> candidate list" where
  "localLine q prefix line =
     (case cutChar (char_of (9::nat)) line of None \<Rightarrow> []
      | Some (a, b) \<Rightarrow>
          let ref = trimSpace a; digest = trimSpace b in
          if ref = ''<none>:<none>'' \<or> ref = [] then []
          else if prefix \<noteq> [] \<and> \<not> hasPrefix ref prefix then []
          else if q \<noteq> [] \<and> \<not> containsStr ref q then []
          else [\<lparr>cdSourceType = ''local'', cdImageRef = ref, cdPullRef = ref, cdDigest = Some digest\<rparr>])"

definition listArgs :: "string list" where
  "listArgs = [''image'', ''ls'', ''--format'', ''{{.Repository}}:{{.Tag}}'' @ [char_of (9::nat)] @ ''{{.ID}}'']"

definition localListCandidates ::
  "(string list \<Rightarrow> goerr + string) \<Rightarrow> string \<Rightarrow> string \<Rightarrow> goerr + candidate list" where
  "localListCandidates dockerOut q prefix =
     (case dockerOut listArgs of
        Inl e \<Rightarrow> Inl (Wrapf ''docker image ls'' e)
      | Inr out \<Rightarrow>
          (case scanLines out of
             Inl e \<Rightarrow> Inl (Wrapf ''scan docker images'' e)
           | Inr ls \<Rightarrow> Inr (concat (map (localLine q prefix) ls))))"

definition localResolve :: "(string list \<Rightarrow> goerr + string) \<Rightarrow> string \<Rightarrow> goerr + candidate" where
  "localResolve dockerOut imageRef =
     (case dockerOut [''image'', ''inspect'', imageRef, ''--format'', ''{{.Id}}''] of
        Inl e \<Rightarrow> Inl (Wrapf (''docker image inspect '' @ quoteStr imageRef) e)
      | Inr out \<Rightarrow>
          let digest = trimSpace out in
          Inr \<lparr>cdSourceType = ''local'', cdImageRef = imageRef, cdPullRef = imageRef,
               cdDigest = (if digest = [] then None else Some digest)\<rparr>)"

lemma hasPrefix_Nil [simp]: "hasPrefix s []"
  by (simp add: hasPrefix_def)

lemma containsStr_Nil [simp]: "containsStr s []"
  by (cases s) auto

lemma localLine_set:
  assumes "c \<in> set (localLine q pfx l)"
  shows "cdSourceType c = ''local'' \<and> hasPrefix (cdImageRef c) pfx \<and> containsStr (cdImageRef c) q
    \<and> cdPullRef c = cdImageRef c \<and> cdImageRef c \<noteq> []"
  using assms by (auto simp: localLine_def Let_def split: option.splits if_splits)

interpretation localSource: image_source
  "\<lambda>q pfx r. localListCandidates dockerOut q pfx = r" "\<lambda>ref r. localResolve dockerOut ref = r" "''local''"
  for dockerOut
  by unfold_locales
    (auto simp: localListCandidates_def localResolve_def Let_def dest: localLine_set split: sum.splits)

section \<open>The resolver\<close>

definition SourceAllowed :: "image_config \<Rightarrow> string \<Rightarrow> bool" where
  "SourceAllowed cfg sourceType \<longleftrightarrow> sourceType \<in> set (AllowedSources cfg)"

definition resolverDefaultSource :: "image_config \<Rightarrow> string" where
  "resolverDefaultSource cfg =
     (if DefaultSource cfg \<noteq> [] then DefaultSource cfg
      else case AllowedSources cfg of s # _ \<Rightarrow> s | [] \<Rightarrow> ''local'')"

definition ValidateRef :: "image_config \<Rightarrow> string \<Rightarrow> goerr + unit" where
  "ValidateRef cfg imageRef =
     (if imageRef = [] then Inl (Errorf ''image ref is required'')
      else if AllowedPrefixes cfg = [] then Inr ()
      else if \<exists>prefix\<in>set (AllowedPrefixes cfg). hasPrefix imageRef prefix then Inr ()
      else Inl (Errorf (''image ref '' @ quoteStr imageRef @ '' is not allowed by prefix policy'')))"

definition ValidatePrefix :: "image_config \<Rightarrow> string \<Rightarrow> goerr + unit" where
  "ValidatePrefix cfg prefix =
     (if prefix = [] \<or> AllowedPrefixes cfg = [] then Inr ()
      else if \<exists>allowed\<in>set (AllowedPrefixes cfg). hasPrefix prefix allowed then Inr ()
      else Inl (Errorf (''prefix '' @ quoteStr prefix @ '' is not allowed by prefix policy'')))"

definition filterCandidates :: "image_config \<Rightarrow> goerr + candidate list \<Rightarrow> goerr + candidate list" where
  "filterCandidates cfg r =
     bind_ok r (\<lambda>candidates.
       if AllowedPrefixes cfg = [] then Inr candidates
       else Inr (filter (\<lambda>c. \<exists>allowed\<in>set (AllowedPrefixes cfg). hasPrefix (cdImageRef c) allowed) candidates))"

text \<open>The fields \<open>local\<close> and \<open>remote\<close> of the resolver enter by what their calls return.\<close>

definition resolverListCandidates ::
  "image_config \<Rightarrow> (string \<Rightarrow> string \<Rightarrow> goerr + candidate list) \<Rightarrow> (string \<Rightarrow> string \<Rightarrow> goerr + candidate list)
   \<Rightarrow> string \<Rightarrow> string \<Rightarrow> string \<Rightarrow> goerr + candidate list" where
  "resolverListCandidates cfg loc rem sourceType q prefix =
     (if \<not> SourceAllowed cfg sourceType
      then Inl (Errorf (''source type '' @ quoteStr sourceType @ '' is not allowed''))
      else bind_ok (ValidatePrefix cfg prefix) (\<lambda>_.
        if sourceType = ''local'' then filterCandidates cfg (loc q prefix)
        else if sourceType = ''remote'' then filterCandidates cfg (rem q prefix)
        else Inl (Errorf (''unsupported source type '' @ quoteStr sourceType))))"

definition resolverResolve ::
  "image_config \<Rightarrow> (string \<Rightarrow> goerr + candidate) \<Rightarrow> (string \<Rightarrow> goerr + candidate)
   \<Rightarrow> string \<Rightarrow> string \<Rightarrow> goerr + candidate" where
  "resolverResolve cfg loc rem sourceType imageRef =
     bind_ok (ValidateRef cfg imageRef) (\<lambda>_.
       if \<not> SourceAllowed cfg sourceType
       then Inl (Errorf (''source type '' @ quoteStr sourceType @ '' is not allowed''))
       else if sourceType = ''local'' then loc imageRef
       else if sourceType = ''remote'' then rem imageRef
       else Inl (Errorf (''unsupported source type '' @ quoteStr sourceType)))"

text \<open>The policy, stated once: a reference is permitted when it starts with an allowed prefix, where
  there is any.\<close>

definition permitted :: "image_config \<Rightarrow> string \<Rightarrow> bool" where
  "permitted cfg ref \<longleftrightarrow>
     AllowedPrefixes cfg = [] \<or> (\<exists>p\<in>set (AllowedPrefixes cfg). hasPrefix ref p)"

lemma ValidateRef_iff: "ValidateRef cfg ref = Inr u \<longleftrightarrow> ref \<noteq> [] \<and> permitted cfg ref"
  by (auto simp: ValidateRef_def permitted_def)

lemma ValidatePrefix_permitted:
  "ValidatePrefix cfg pfx = Inr u \<Longrightarrow> pfx \<noteq> [] \<Longrightarrow> hasPrefix ref pfx \<Longrightarrow> permitted cfg ref"
  by (auto simp: ValidatePrefix_def permitted_def split: if_splits dest: hasPrefix_trans)

lemma filterCandidates_Inr:
  "filterCandidates cfg r = Inr cs \<Longrightarrow> \<exists>all. r = Inr all \<and> cs = filter (\<lambda>c. permitted cfg (cdImageRef c)) all"
  by (cases "AllowedPrefixes cfg = []") (auto simp: filterCandidates_def permitted_def bind_ok_Inr)

context image_source
begin

text \<open>What a listing through the resolver returns: candidates of the source, permitted, with the
  prefix and the text asked for; and none that is permitted is lost.\<close>

lemma filtered:
  assumes "filterCandidates cfg r = Inr cs" and "lists q pfx r" and "c \<in> set cs"
  shows "cdSourceType c = kind \<and> permitted cfg (cdImageRef c) \<and> hasPrefix (cdImageRef c) pfx
    \<and> containsStr (cdImageRef c) q"
proof -
  obtain all where r: "r = Inr all" and cs: "cs = filter (\<lambda>c. permitted cfg (cdImageRef c)) all"
    using filterCandidates_Inr [OF assms(1)] by blast
  with assms(3) have "c \<in> set all" "permitted cfg (cdImageRef c)" by auto
  with assms(2) lists_kind lists_prefix lists_query show ?thesis unfolding r by blast
qed

end

lemma resolverResolve_Inr:
  assumes "resolverResolve cfg loc rem st ref = Inr c"
  shows "ref \<noteq> [] \<and> permitted cfg ref \<and> SourceAllowed cfg st
    \<and> (st = ''local'' \<and> loc ref = Inr c \<or> st = ''remote'' \<and> rem ref = Inr c)"
  using assms by (auto simp: resolverResolve_def bind_ok_Inr ValidateRef_iff split: if_splits)

lemma resolverListCandidates_Inr:
  assumes "resolverListCandidates cfg loc rem st q pfx = Inr cs"
  shows "SourceAllowed cfg st \<and> (st = ''local'' \<and> filterCandidates cfg (loc q pfx) = Inr cs
    \<or> st = ''remote'' \<and> filterCandidates cfg (rem q pfx) = Inr cs)"
  using assms by (auto simp: resolverListCandidates_def bind_ok_Inr split: if_splits)

end
