(* ===== verification/Image_Remote.thy ===== *)
theory Image_Remote
  imports Image_Source "HOL-Library.Multiset"
begin

text \<open>
  \<open>internal/image/remote.go\<close>: the source that asks a Docker registry. The client is an argument that
  passes the state of the network along; \<open>net/url\<close>, \<open>encoding/json\<close> and the hash enter by what the
  code takes from them (record \<open>remote_lib\<close>). The catalog is read page by page along the links of
  the answers, which need not end, so the loop is a partial function. The tags of the repositories
  are fetched by concurrent goroutines: that part is a step relation over the goroutines, the
  channels and the collecting loop, and the lemmas show that no interleaving loses a candidate.
\<close>

section \<open>The client and the source\<close>

text \<open>An answer: its status, the body as far as it was read with the error that ended the reading,
  the headers the code looks at, and the URL of the request that was answered last.\<close>

record http_response =
  rspStatus :: int
  rspBody :: string
  rspReadErr :: "goerr option"
  rspLinks :: "string list"
  rspDigest :: string
  rspURL :: string

type_synonym 'h client = "string \<Rightarrow> 'h \<Rightarrow> (goerr + http_response) \<times> 'h"

record remote_lib =
  urlHost :: "string \<Rightarrow> goerr + string"
  requestErr :: "string \<Rightarrow> goerr option"
  resolveReference :: "string \<Rightarrow> string \<Rightarrow> goerr + string"
  jsonRepositories :: "string \<Rightarrow> goerr + string list"
  jsonTags :: "string \<Rightarrow> goerr option \<Rightarrow> goerr + string list"
  jsonConfigDigest :: "string \<Rightarrow> string"
  sha256Hex :: "string \<Rightarrow> string"

type_synonym tag_cache = "string \<rightharpoonup> string list \<times> time"

record remote_source =
  rsEndpoint :: string
  rsPullPrefix :: string
  rsCacheTTL :: duration

definition NewRemoteSource :: "remote_lib \<Rightarrow> image_remote_config \<Rightarrow> remote_source" where
  "NewRemoteSource lib cfg =
     (let endpoint = trimRight (Endpoint cfg) (CHR ''/'') in
      \<lparr>rsEndpoint = endpoint,
       rsPullPrefix = (case urlHost lib endpoint of Inl _ \<Rightarrow> endpoint
                       | Inr host \<Rightarrow> if host \<noteq> [] then host else endpoint),
       rsCacheTTL = 300 * second\<rparr>)"

definition httpGet :: "remote_lib \<Rightarrow> 'h client \<Rightarrow> string \<Rightarrow> string \<Rightarrow> 'h \<Rightarrow> (goerr + http_response) \<times> 'h" where
  "httpGet lib clt what url h =
     (case requestErr lib url of Some e \<Rightarrow> (Inl e, h)
      | None \<Rightarrow> (case clt url h of (Inl e, h') \<Rightarrow> (Inl (Wrapf what e), h') | (Inr rsp, h') \<Rightarrow> (Inr rsp, h')))"

section \<open>References\<close>

definition splitImageRef :: "string \<Rightarrow> string \<times> string \<times> bool" where
  "splitImageRef ref =
     (case cutChar (CHR ''@'') ref of
        Some (repo, digest) \<Rightarrow> (repo, digest, True)
      | None \<Rightarrow>
          (case lastIndexChar (CHR '':'') ref of
             None \<Rightarrow> (ref, ''latest'', False)
           | Some lastColon \<Rightarrow>
               if (case lastIndexChar (CHR ''/'') ref of None \<Rightarrow> False | Some lastSlash \<Rightarrow> lastColon \<le> lastSlash)
               then (ref, ''latest'', False)
               else (take lastColon ref, drop (Suc lastColon) ref, False)))"

definition pullRefOf :: "string \<Rightarrow> string \<times> string \<times> bool \<Rightarrow> string" where
  "pullRefOf pullPrefix = (\<lambda>(repo, ref, isDigest).
     pullPrefix @ ''/'' @ repo @ (if isDigest then ''@'' else '':'') @ ref)"

definition statusErr :: "string \<Rightarrow> http_response \<Rightarrow> goerr" where
  "statusErr what rsp =
     Errorf (what @ '' status '' @ itoa (rspStatus rsp) @ '': '' @ trimSpace (take 512 (rspBody rsp)))"

definition remoteResolve ::
  "remote_lib \<Rightarrow> remote_source \<Rightarrow> 'h client \<Rightarrow> string \<Rightarrow> 'h \<Rightarrow> (goerr + candidate) \<times> 'h" where
  "remoteResolve lib s clt imageRef h =
     (let (repo, ref, isDigest) = splitImageRef imageRef in
      if repo = [] \<or> ref = [] then (Inl (Errorf (''invalid remote image ref '' @ quoteStr imageRef)), h)
      else case httpGet lib clt ''remote manifest request''
                  (rsEndpoint s @ ''/v2/'' @ repo @ ''/manifests/'' @ pathEscape ref) h of
        (Inl e, h') \<Rightarrow> (Inl e, h')
      | (Inr rsp, h') \<Rightarrow>
          if rspStatus rsp \<noteq> 200 then (Inl (statusErr ''remote manifest'' rsp), h')
          else case rspReadErr rsp of
            Some e \<Rightarrow> (Inl (Wrapf ''read remote manifest body'' e), h')
          | None \<Rightarrow>
              let digest = rspDigest rsp;
                  digest = (if digest = [] then jsonConfigDigest lib (rspBody rsp) else digest);
                  digest = (if digest = [] then ''sha256:'' @ sha256Hex lib (rspBody rsp) else digest)
              in (Inr \<lparr>cdSourceType = ''remote'', cdImageRef = imageRef,
                       cdPullRef = pullRefOf (rsPullPrefix s) (repo, ref, isDigest), cdDigest = Some digest\<rparr>, h'))"

section \<open>The catalog\<close>

text \<open>\<open>nextCatalogLink\<close>: the first part with \<open>rel="next"\<close> and a target in angle brackets; a target
  that is no URL ends the search. (The source's test for a nil base never fires: a response carries
  its request.)\<close>

definition linkTarget :: "string \<Rightarrow> string option" where
  "linkTarget part =
     (if \<not> containsStr part (''rel='' @ quoteStr ''next'') then None
      else case (indexChar (CHR ''<'') part, indexChar (CHR ''>'') part) of
        (Some i, Some j) \<Rightarrow> if i + 1 < j then Some (take (j - (i + 1)) (drop (i + 1) part)) else None
      | _ \<Rightarrow> None)"

fun firstTarget :: "string list \<Rightarrow> string option" where
  "firstTarget [] = None"
| "firstTarget (p # ps) = (case linkTarget (trimSpace p) of Some t \<Rightarrow> Some t | None \<Rightarrow> firstTarget ps)"

definition nextCatalogLink :: "remote_lib \<Rightarrow> string \<Rightarrow> string list \<Rightarrow> string" where
  "nextCatalogLink lib base values =
     (case firstTarget (concat (map (splitChar (CHR '','')) values)) of
        None \<Rightarrow> []
      | Some t \<Rightarrow> (case resolveReference lib base t of Inl _ \<Rightarrow> [] | Inr u \<Rightarrow> u))"

text \<open>One page: its repositories and the URL of the next one, empty at the end.\<close>

definition catalogPage ::
  "remote_lib \<Rightarrow> 'h client \<Rightarrow> string \<Rightarrow> 'h \<Rightarrow> (goerr + string list \<times> string) \<times> 'h" where
  "catalogPage lib clt url h =
     (case httpGet lib clt ''remote catalog request'' url h of
        (Inl e, h') \<Rightarrow> (Inl e, h')
      | (Inr rsp, h') \<Rightarrow>
          (case rspReadErr rsp of
             Some e \<Rightarrow> (Inl (Wrapf ''read remote catalog'' e), h')
           | None \<Rightarrow>
               if rspStatus rsp \<noteq> 200 then (Inl (statusErr ''remote catalog'' rsp), h')
               else case jsonRepositories lib (rspBody rsp) of
                 Inl e \<Rightarrow> (Inl (Wrapf ''decode remote catalog'' e), h')
               | Inr rs \<Rightarrow> (Inr (rs, nextCatalogLink lib (rspURL rsp) (rspLinks rsp)), h')))"

partial_function (option) catalogLoop ::
  "remote_lib \<Rightarrow> 'h client \<Rightarrow> string \<Rightarrow> string list \<Rightarrow> 'h \<Rightarrow> ((goerr + string list) \<times> 'h) option" where
  "catalogLoop lib clt url repos h =
     (if url = [] then Some (Inr repos, h)
      else case catalogPage lib clt url h of
        (Inl e, h') \<Rightarrow> Some (Inl e, h')
      | (Inr (rs, nxt), h') \<Rightarrow> catalogLoop lib clt nxt (repos @ rs) h')"

definition listRepositories ::
  "remote_lib \<Rightarrow> remote_source \<Rightarrow> 'h client \<Rightarrow> 'h \<Rightarrow> ((goerr + string list) \<times> 'h) option" where
  "listRepositories lib s clt h = catalogLoop lib clt (rsEndpoint s @ ''/v2/_catalog?n=1000'') [] h"

section \<open>Tags and their cache\<close>

definition listTags ::
  "remote_lib \<Rightarrow> remote_source \<Rightarrow> 'h client \<Rightarrow> string \<Rightarrow> 'h \<Rightarrow> (goerr + string list) \<times> 'h" where
  "listTags lib s clt repo h =
     (case httpGet lib clt ''remote tags request'' (rsEndpoint s @ ''/v2/'' @ repo @ ''/tags/list'') h of
        (Inl e, h') \<Rightarrow> (Inl e, h')
      | (Inr rsp, h') \<Rightarrow>
          if rspStatus rsp \<noteq> 200 then (Inl (statusErr ''remote tags'' rsp), h')
          else case jsonTags lib (rspBody rsp) (rspReadErr rsp) of
            Inl e \<Rightarrow> (Inl (Wrapf ''decode remote tags'' e), h')
          | Inr tags \<Rightarrow> (Inr tags, h'))"

definition freshTags :: "remote_source \<Rightarrow> tag_cache \<Rightarrow> string \<Rightarrow> time \<Rightarrow> string list option" where
  "freshTags s cache repo now =
     (case cache repo of None \<Rightarrow> None
      | Some (tags, fetchedAt) \<Rightarrow> if timeSub now fetchedAt < rsCacheTTL s then Some tags else None)"

definition tagsForRepo ::
  "remote_lib \<Rightarrow> remote_source \<Rightarrow> 'h client \<Rightarrow> time \<Rightarrow> string \<Rightarrow> tag_cache \<times> 'h
   \<Rightarrow> (goerr + string list) \<times> tag_cache \<times> 'h" where
  "tagsForRepo lib s clt now repo = (\<lambda>(cache, h).
     case freshTags s cache repo now of
       Some tags \<Rightarrow> (Inr tags, cache, h)
     | None \<Rightarrow> (case listTags lib s clt repo h of
         (Inl e, h') \<Rightarrow> (Inl e, cache, h')
       | (Inr tags, h') \<Rightarrow> (Inr tags, cache(repo \<mapsto> (tags, now)), h')))"

section \<open>Listing candidates\<close>

definition filterRepos :: "string \<Rightarrow> string \<Rightarrow> string list \<Rightarrow> string list" where
  "filterRepos q prefix repos =
     filter (\<lambda>r. (prefix = [] \<or> hasPrefix r prefix) \<and> (q = [] \<or> containsStr r q)) repos"

definition tagItems :: "string \<Rightarrow> string \<Rightarrow> string list \<Rightarrow> candidate list" where
  "tagItems q repo tags =
     map (\<lambda>ref. \<lparr>cdSourceType = ''remote'', cdImageRef = ref, cdPullRef = [], cdDigest = None\<rparr>)
       (filter (\<lambda>ref. q = [] \<or> containsStr ref q) (map (\<lambda>tag. repo @ '':'' @ tag) tags))"

definition maxConcurrentTagFetches :: nat where "maxConcurrentTagFetches = 8"

text \<open>The goroutines that wait for a place in the semaphore, those that hold one, the buffered
  channel of results, the one-place channel of errors, whether the context is cancelled and by what,
  the candidates collected, and what the call returned.\<close>

record fanout =
  foWaiting :: "string list"
  foFetching :: "string list"
  foResults :: "candidate list list"
  foErr :: "goerr option"
  foCtxErr :: "goerr option"
  foCands :: "candidate list"
  foReturn :: "(goerr + candidate list) option"

definition startFanout :: "string list \<Rightarrow> fanout" where
  "startFanout repos = \<lparr>foWaiting = repos, foFetching = [], foResults = [], foErr = None,
     foCtxErr = None, foCands = [], foReturn = None\<rparr>"

text \<open>\<open>tagsOf repo r\<close>: fetching the tags of the repository can end with \<open>r\<close>. Cancelling, by the
  first error or from outside, keeps the first reason.\<close>

definition cancelFanout :: "goerr \<Rightarrow> fanout \<Rightarrow> fanout" where
  "cancelFanout e f = f\<lparr>foCtxErr := (case foCtxErr f of None \<Rightarrow> Some e | Some c \<Rightarrow> Some c)\<rparr>"

inductive fanStep :: "(string \<Rightarrow> goerr + string list \<Rightarrow> bool) \<Rightarrow> string \<Rightarrow> fanout \<Rightarrow> fanout \<Rightarrow> bool"
  for tagsOf q where
  take_place: "foWaiting f = xs @ r # ys \<Longrightarrow> length (foFetching f) < maxConcurrentTagFetches \<Longrightarrow>
    fanStep tagsOf q f (f\<lparr>foWaiting := xs @ ys, foFetching := r # foFetching f\<rparr>)"
| give_up_waiting: "foWaiting f = xs @ r # ys \<Longrightarrow> foCtxErr f \<noteq> None \<Longrightarrow>
    fanStep tagsOf q f (f\<lparr>foWaiting := xs @ ys\<rparr>)"
| fetched: "foFetching f = xs @ r # ys \<Longrightarrow> tagsOf r (Inr tags) \<Longrightarrow> length (foResults f) < 64 \<Longrightarrow>
    fanStep tagsOf q f (f\<lparr>foFetching := xs @ ys, foResults := foResults f @ [tagItems q r tags]\<rparr>)"
| give_up_fetched: "foFetching f = xs @ r # ys \<Longrightarrow> foCtxErr f \<noteq> None \<Longrightarrow>
    fanStep tagsOf q f (f\<lparr>foFetching := xs @ ys\<rparr>)"
| fetch_failed: "foFetching f = xs @ r # ys \<Longrightarrow> tagsOf r (Inl e) \<Longrightarrow>
    fanStep tagsOf q f (cancelFanout Canceled (f\<lparr>foFetching := xs @ ys,
      foErr := (case foErr f of None \<Rightarrow> Some e | Some d \<Rightarrow> Some d)\<rparr>))"
| cancelled_outside: "e \<in> {Canceled, DeadlineExceeded} \<Longrightarrow> fanStep tagsOf q f (cancelFanout e f)"
| collect: "foReturn f = None \<Longrightarrow> foResults f = items # rest \<Longrightarrow>
    fanStep tagsOf q f (f\<lparr>foResults := rest, foCands := foCands f @ items\<rparr>)"
| return_error: "foReturn f = None \<Longrightarrow> foErr f = Some e \<Longrightarrow>
    fanStep tagsOf q f (f\<lparr>foErr := None, foReturn := Some (Inl e)\<rparr>)"
| return_all: "foReturn f = None \<Longrightarrow> foWaiting f = [] \<Longrightarrow> foFetching f = [] \<Longrightarrow> foResults f = [] \<Longrightarrow>
    fanStep tagsOf q f (f\<lparr>foReturn := Some (case foErr f of Some e \<Rightarrow> Inl e | None \<Rightarrow> Inr (foCands f))\<rparr>)"
| return_cancelled: "foReturn f = None \<Longrightarrow> foCtxErr f = Some e \<Longrightarrow>
    fanStep tagsOf q f (f\<lparr>foReturn := Some (Inl e)\<rparr>)"

inductive fanReach :: "(string \<Rightarrow> goerr + string list \<Rightarrow> bool) \<Rightarrow> string \<Rightarrow> fanout \<Rightarrow> fanout \<Rightarrow> bool"
  for tagsOf q f0 where
  fan_start: "fanReach tagsOf q f0 f0"
| fan_more: "fanReach tagsOf q f0 f \<Longrightarrow> fanStep tagsOf q f g \<Longrightarrow> fanReach tagsOf q f0 g"

text \<open>The listing of the source: the catalog, then the fan-out over the repositories that match. The
  goroutines may find any state of the cache and of the registry.\<close>

definition tagsMayBe ::
  "remote_lib \<Rightarrow> remote_source \<Rightarrow> 'h client \<Rightarrow> string \<Rightarrow> goerr + string list \<Rightarrow> bool" where
  "tagsMayBe lib s clt repo r \<longleftrightarrow> (\<exists>now st st'. tagsForRepo lib s clt now repo st = (r, st'))"

definition remoteLists ::
  "remote_lib \<Rightarrow> remote_source \<Rightarrow> 'h client \<Rightarrow> string \<Rightarrow> string \<Rightarrow> goerr + candidate list \<Rightarrow> bool" where
  "remoteLists lib s clt q prefix r \<longleftrightarrow>
     (\<exists>h h' l. listRepositories lib s clt h = Some (l, h') \<and>
       (case l of Inl e \<Rightarrow> r = Inl e
        | Inr repos \<Rightarrow> \<exists>f. fanReach (tagsMayBe lib s clt) q (startFanout (filterRepos q prefix repos)) f
            \<and> foReturn f = Some r))"

section \<open>References: splitting and joining\<close>

lemma splitImageRef_digest:
  "CHR ''@'' \<notin> set repo \<Longrightarrow> splitImageRef (repo @ ''@'' @ digest) = (repo, digest, True)"
  by (simp add: splitImageRef_def cutChar_def)

lemma splitImageRef_tag:
  assumes "CHR ''@'' \<notin> set (repo @ tag)" and "CHR '':'' \<notin> set tag" and "CHR ''/'' \<notin> set tag"
  shows "splitImageRef (repo @ '':'' @ tag) = (repo, tag, False)"
proof -
  have at: "cutChar (CHR ''@'') (repo @ '':'' @ tag) = None" using assms(1) by (simp add: cutChar_None)
  have colon: "lastIndexChar (CHR '':'') (repo @ '':'' @ tag) = Some (length repo)" using assms(2) by simp
  have "i < length repo" if i: "lastIndexChar (CHR ''/'') (repo @ '':'' @ tag) = Some i" for i
  proof (rule ccontr)
    assume "\<not> i < length repo"
    then obtain k where k: "i = length repo + k" using less_eqE [of "length repo" i] by auto
    from lastIndexChar_Some [OF i] show False
      unfolding k using assms(3) by (cases k) (auto simp: nth_append in_set_conv_nth)
  qed
  then show ?thesis
    unfolding splitImageRef_def at colon option.case
    by (cases "lastIndexChar (CHR ''/'') (repo @ '':'' @ tag)") (auto simp: not_le [symmetric])
qed

lemma splitImageRef_join:
  assumes "splitImageRef ref = (repo, t, d)"
  shows "repo @ (if d then ''@'' else '':'') @ t = ref \<or> repo = ref \<and> t = ''latest'' \<and> \<not> d"
proof (cases "cutChar (CHR ''@'') ref")
  case (Some p)
  then obtain a b where "p = (a, b)" "ref = a @ CHR ''@'' # b" by (cases p) (auto simp: cutChar_Some)
  with Some assms show ?thesis by (auto simp: splitImageRef_def)
next
  case None
  show ?thesis
  proof (cases "lastIndexChar (CHR '':'') ref")
    case None
    with \<open>cutChar _ ref = None\<close> assms show ?thesis by (auto simp: splitImageRef_def)
  next
    case (Some i)
    from lastIndexChar_Some [OF Some] have "ref = take i ref @ CHR '':'' # drop (Suc i) ref"
      by (metis id_take_nth_drop)
    with Some None assms show ?thesis by (auto simp: splitImageRef_def split: option.splits if_splits)
  qed
qed

lemma remoteResolve_Inr:
  assumes "remoteResolve lib s clt ref h = (Inr c, h')"
  shows "cdImageRef c = ref \<and> cdSourceType c = ''remote'' \<and> cdPullRef c = pullRefOf (rsPullPrefix s) (splitImageRef ref)
    \<and> cdDigest c \<noteq> None \<and> cdDigest c \<noteq> Some []"
  using assms by (auto simp: remoteResolve_def Let_def split: prod.splits sum.splits option.splits if_splits)

section \<open>The catalog, page by page\<close>

text \<open>\<open>pages url h ps h'\<close>: the registry answers with the pages \<open>ps\<close>, the last of which has no link.\<close>

inductive pages :: "remote_lib \<Rightarrow> 'h client \<Rightarrow> string \<Rightarrow> 'h \<Rightarrow> string list list \<Rightarrow> 'h \<Rightarrow> bool" for lib clt where
  pages_end: "pages lib clt [] h [] h"
| pages_link: "url \<noteq> [] \<Longrightarrow> catalogPage lib clt url h = (Inr (rs, nxt), h1) \<Longrightarrow> pages lib clt nxt h1 ps h2
    \<Longrightarrow> pages lib clt url h (rs # ps) h2"

lemma catalogLoop_pages:
  "pages lib clt url h ps h' \<Longrightarrow> catalogLoop lib clt url repos h = Some (Inr (repos @ concat ps), h')"
proof (induction arbitrary: repos rule: pages.induct)
  case (pages_end h)
  show ?case by (subst catalogLoop.simps) simp
next
  case (pages_link url h rs nxt h1 ps h2)
  then show ?case by (subst catalogLoop.simps) simp
qed

lemma catalogLoop_Inr:
  assumes "catalogLoop lib clt url repos h = Some (Inr all, h')"
  shows "\<exists>ps. pages lib clt url h ps h' \<and> all = repos @ concat ps"
proof -
  from assms have "\<forall>all' k'. (Inr all, h') = (Inr all' :: goerr + string list, k') \<longrightarrow>
      (\<exists>ps. pages lib clt url h ps k' \<and> all' = repos @ concat ps)"
  proof (rule catalogLoop.raw_induct [where P = "\<lambda>lib clt url repos h r. \<forall>all' k'. r = (Inr all', k') \<longrightarrow>
      (\<exists>ps. pages lib clt url h ps k' \<and> all' = repos @ concat ps)", rotated], goal_cases)
    case (1 loop lib clt url repos h r)
    show ?case
    proof (intro allI impI)
      fix all' k' assume r: "r = (Inr all', k')"
      show "\<exists>ps. pages lib clt url h ps k' \<and> all' = repos @ concat ps"
      proof (cases "url = []")
        case True
        with 1(2) r show ?thesis by (auto intro: exI [of _ "[]"] pages_end)
      next
        case False
        with 1(2) r obtain rs nxt h1 where p: "catalogPage lib clt url h = (Inr (rs, nxt), h1)"
          and l: "loop lib clt nxt (repos @ rs) h1 = Some (Inr all', k')"
          by (auto split: prod.splits sum.splits)
        from 1(1) [OF l] obtain ps where ps: "pages lib clt nxt h1 ps k'" "all' = (repos @ rs) @ concat ps" by blast
        from pages_link [OF False p ps(1)] ps(2) show ?thesis by (intro exI [of _ "rs # ps"]) simp
      qed
    qed
  qed
  then show ?thesis by simp
qed

text \<open>A registry whose page links to itself keeps the loop from ever returning.\<close>

lemma catalogLoop_cycle:
  assumes "url \<noteq> []" and "catalogPage lib clt url h = (Inr (rs, url), h)"
  shows "catalogLoop lib clt url repos h = None"
proof (rule ccontr)
  assume "catalogLoop lib clt url repos h \<noteq> None"
  then obtain r where "catalogLoop lib clt url repos h = Some r" by blast
  then have "(lib, clt, url, h) \<noteq> (lib, clt, url, h)"
  proof (rule catalogLoop.raw_induct [where P = "\<lambda>l c u rp k y. (l, c, u, k) \<noteq> (lib, clt, url, h)", rotated],
      goal_cases)
    case (1 loop l c u rp k y)
    show ?case
    proof
      assume e: "(l, c, u, k) = (lib, clt, url, h)"
      with 1(2) assms have "loop lib clt url (rp @ rs) h = Some y" by simp
      from 1(1) [OF this] show False by simp
    qed
  qed
  then show False by simp
qed

section \<open>The cache\<close>

lemma tagsForRepo_fresh:
  "freshTags s cache repo now = Some tags \<Longrightarrow> tagsForRepo lib s clt now repo (cache, h) = (Inr tags, cache, h)"
  by (simp add: tagsForRepo_def)

lemma tagsForRepo_then_fresh:
  assumes "tagsForRepo lib s clt now repo (cache, h) = (Inr tags, cache', h')"
    and "now \<le> now'" and "now' - now < rsCacheTTL s" and "in_int64 (now' - now)"
  shows "freshTags s cache repo now = Some tags \<or> freshTags s cache' repo now' = Some tags"
  using assms by (auto simp: tagsForRepo_def freshTags_def timeSub_def in_int64_def
      split: option.splits prod.splits sum.splits)

section \<open>The fan-out\<close>

lemma tagItems_set:
  assumes "c \<in> set (tagItems q repo tags)"
  shows "cdSourceType c = ''remote'' \<and> containsStr (cdImageRef c) q \<and> hasPrefix (cdImageRef c) repo
    \<and> (\<exists>tag\<in>set tags. cdImageRef c = repo @ '':'' @ tag)"
  using assms by (auto simp: tagItems_def)

text \<open>What holds at every moment: at most eight fetches run, what is in the channel or collected is
  a candidate of one of the repositories, and as long as nothing is cancelled every repository is
  waiting, being fetched, or in the channel or collected with all its candidates.\<close>

definition accounted :: "(string \<Rightarrow> goerr + string list \<Rightarrow> bool) \<Rightarrow> string \<Rightarrow> string list \<Rightarrow> fanout \<Rightarrow> bool" where
  "accounted tagsOf q repos f \<longleftrightarrow>
     (\<exists>ps. mset repos = mset (foWaiting f) + mset (foFetching f) + mset (map fst ps)
       \<and> (\<forall>(r, tags)\<in>set ps. tagsOf r (Inr tags))
       \<and> mset (foCands f) + mset (concat (foResults f)) = mset (concat (map (\<lambda>(r, tags). tagItems q r tags) ps)))"

definition fanInv :: "(string \<Rightarrow> goerr + string list \<Rightarrow> bool) \<Rightarrow> string \<Rightarrow> string list \<Rightarrow> fanout \<Rightarrow> bool" where
  "fanInv tagsOf q repos f \<longleftrightarrow>
     length (foFetching f) \<le> maxConcurrentTagFetches
     \<and> set (foWaiting f) \<union> set (foFetching f) \<subseteq> set repos
     \<and> (\<forall>items\<in>set (foCands f # foResults f). \<forall>c\<in>set items.
          \<exists>r\<in>set repos. \<exists>tags. tagsOf r (Inr tags) \<and> c \<in> set (tagItems q r tags))
     \<and> (foCtxErr f = None \<longrightarrow> accounted tagsOf q repos f)
     \<and> (\<forall>cs. foReturn f = Some (Inr cs) \<longrightarrow> cs = foCands f \<and> foWaiting f = [] \<and> foFetching f = [] \<and> foResults f = [])"

lemma fanInv_start: "fanInv tagsOf q repos (startFanout repos)"
  by (auto simp: fanInv_def startFanout_def accounted_def intro: exI [of _ "[]"])

lemma accounted_fetched:
  assumes "accounted tagsOf q repos f" and "foFetching f = xs @ r # ys" and "tagsOf r (Inr tags)"
  shows "accounted tagsOf q repos (f\<lparr>foFetching := xs @ ys, foResults := foResults f @ [tagItems q r tags]\<rparr>)"
proof -
  from assms(1) obtain ps where "mset repos = mset (foWaiting f) + mset (foFetching f) + mset (map fst ps)"
    "\<forall>(r, tags)\<in>set ps. tagsOf r (Inr tags)"
    "mset (foCands f) + mset (concat (foResults f)) = mset (concat (map (\<lambda>(r, tags). tagItems q r tags) ps))"
    unfolding accounted_def by blast
  with assms(2,3) show ?thesis
    unfolding accounted_def by (intro exI [of _ "ps @ [(r, tags)]"]) (auto simp: union_assoc [symmetric])
qed

lemma accounted_same:
  assumes "accounted tagsOf q repos f" and "mset (foWaiting f) + mset (foFetching f) = mset (foWaiting g) + mset (foFetching g)"
    and "mset (foCands f) + mset (concat (foResults f)) = mset (foCands g) + mset (concat (foResults g))"
  shows "accounted tagsOf q repos g"
  using assms unfolding accounted_def by (simp add: add.assoc [symmetric])

lemma cancelFanout_simps [simp]:
  "foWaiting (cancelFanout e f) = foWaiting f" "foFetching (cancelFanout e f) = foFetching f"
  "foResults (cancelFanout e f) = foResults f" "foErr (cancelFanout e f) = foErr f"
  "foCands (cancelFanout e f) = foCands f" "foReturn (cancelFanout e f) = foReturn f"
  "foCtxErr (cancelFanout e f) \<noteq> None"
  by (simp_all add: cancelFanout_def split: option.split)

lemma fanInv_step:
  assumes "fanStep tagsOf q f g" and "fanInv tagsOf q repos f"
  shows "fanInv tagsOf q repos g"
  using assms
proof (cases rule: fanStep.cases)
  case (take_place xs r ys)
  with assms(2) accounted_same [of tagsOf q repos f g] show ?thesis
    by (auto simp: fanInv_def)
next
  case (fetched xs r ys tags)
  with assms(2) accounted_fetched [of tagsOf q repos f xs r ys tags] show ?thesis
    by (auto simp: fanInv_def)
next
  case (collect items rest)
  with assms(2) accounted_same [of tagsOf q repos f g] show ?thesis
    by (auto simp: fanInv_def ac_simps)
qed (auto simp: fanInv_def accounted_def split: option.splits)

lemma fanReach_inv: "fanReach tagsOf q f0 f \<Longrightarrow> f0 = startFanout repos \<Longrightarrow> fanInv tagsOf q repos f"
  by (induction rule: fanReach.induct) (auto intro: fanInv_start fanInv_step)

text \<open>A listing that returns candidates under a context nobody cancelled holds, in some order, the
  candidates of every repository.\<close>

lemma fanReach_complete:
  assumes "fanReach tagsOf q (startFanout repos) f" and "foReturn f = Some (Inr cs)" and "foCtxErr f = None"
  obtains ps where "mset repos = mset (map fst ps)" and "\<forall>(r, tags)\<in>set ps. tagsOf r (Inr tags)"
    and "mset cs = mset (concat (map (\<lambda>(r, tags). tagItems q r tags) ps))"
proof -
  from fanReach_inv [OF assms(1) refl] assms(2,3) have "accounted tagsOf q repos f" "cs = foCands f"
    "foWaiting f = []" "foFetching f = []" "foResults f = []" by (simp_all add: fanInv_def)
  then show thesis using that unfolding accounted_def by force
qed

lemma fanReach_sound:
  assumes "fanReach tagsOf q (startFanout repos) f" and "foReturn f = Some (Inr cs)" and "c \<in> set cs"
  shows "\<exists>r\<in>set repos. \<exists>tags. tagsOf r (Inr tags) \<and> c \<in> set (tagItems q r tags)"
  using fanReach_inv [OF assms(1) refl] assms(2,3) unfolding fanInv_def by simp

lemma remoteLists_set:
  assumes "remoteLists lib s clt q pfx (Inr cs)" and "c \<in> set cs"
  shows "cdSourceType c = ''remote'' \<and> hasPrefix (cdImageRef c) pfx \<and> containsStr (cdImageRef c) q"
proof -
  from assms(1) obtain h h' l where "listRepositories lib s clt h = Some (l, h')"
    and l: "case l of Inl e \<Rightarrow> Inr cs = Inl e
      | Inr repos \<Rightarrow> \<exists>f. fanReach (tagsMayBe lib s clt) q (startFanout (filterRepos q pfx repos)) f
          \<and> foReturn f = Some (Inr cs)" unfolding remoteLists_def by blast
  from l obtain repos f where "fanReach (tagsMayBe lib s clt) q (startFanout (filterRepos q pfx repos)) f"
    and "foReturn f = Some (Inr cs)" by (cases l) auto
  from fanReach_sound [OF this assms(2)] obtain r tags where "r \<in> set (filterRepos q pfx repos)"
    and c: "c \<in> set (tagItems q r tags)" by blast
  then have "hasPrefix r pfx" by (auto simp: filterRepos_def)
  with tagItems_set [OF c] show ?thesis by (blast intro: hasPrefix_trans)
qed

interpretation remoteSource: image_source
  "remoteLists lib s clt" "\<lambda>ref r. \<exists>h h'. remoteResolve lib s clt ref h = (r, h')" "''remote''"
  for lib s and clt :: "'h client"
  by unfold_locales (auto dest: remoteLists_set remoteResolve_Inr)

text \<open>The local source has one outcome, the remote one any that the registry and the goroutines allow:
  either way a listing through the resolver obeys the policy.\<close>

lemma resolver_listing:
  assumes "resolverListCandidates cfg loc rem st q pfx = Inr cs" and "c \<in> set cs"
    and "loc q pfx = localListCandidates dockerOut q pfx" and "remoteLists lib s clt q pfx (rem q pfx)"
  shows "SourceAllowed cfg st \<and> cdSourceType c = st \<and> permitted cfg (cdImageRef c)
    \<and> hasPrefix (cdImageRef c) pfx \<and> containsStr (cdImageRef c) q"
proof -
  from resolverListCandidates_Inr [OF assms(1)] have allowed: "SourceAllowed cfg st"
    and "st = ''local'' \<and> filterCandidates cfg (loc q pfx) = Inr cs
      \<or> st = ''remote'' \<and> filterCandidates cfg (rem q pfx) = Inr cs" by blast+
  then consider "st = ''local''" "filterCandidates cfg (loc q pfx) = Inr cs"
    | "st = ''remote''" "filterCandidates cfg (rem q pfx) = Inr cs" by blast
  then show ?thesis
  proof cases
    case 1
    with allowed localSource.filtered [OF 1(2) assms(3) [symmetric] assms(2)] show ?thesis by blast
  next
    case 2
    with allowed remoteSource.filtered [OF 2(2) assms(4,2)] show ?thesis by blast
  qed
qed

lemma resolver_resolution:
  assumes "resolverResolve cfg loc rem st ref = Inr c"
    and "loc ref = localResolve dockerOut ref" and "remoteResolve lib s clt ref h = (rem ref, h')"
  shows "SourceAllowed cfg st \<and> permitted cfg ref \<and> ref \<noteq> [] \<and> cdImageRef c = ref \<and> cdSourceType c = st"
proof -
  from resolverResolve_Inr [OF assms(1)] have p: "ref \<noteq> []" "permitted cfg ref" "SourceAllowed cfg st"
    and "st = ''local'' \<and> loc ref = Inr c \<or> st = ''remote'' \<and> rem ref = Inr c" by blast+
  then consider "st = ''local''" "loc ref = Inr c" | "st = ''remote''" "rem ref = Inr c" by blast
  then show ?thesis
  proof cases
    case 1
    with p localSource.resolves_same [of dockerOut ref c] assms(2) show ?thesis by simp
  next
    case 2
    with p remoteResolve_Inr assms(3) show ?thesis by metis
  qed
qed

end
