(* ===== verification/Executor.thy ===== *)
theory Executor
  imports Worker Image_Remote Log_Files Go_Path "HOL-Library.Sublist"
begin

text \<open>
  \<open>internal/executor/docker.go\<close>: the executor that runs a job in a container. The Docker command
  line is an argument: a command with its arguments gives its combined output and its error, and
  takes along a state of which nothing is known. The run of the container ends in one of the ways
  \<open>RunContainer\<close> distinguishes. The lemmas show which commands are issued in which order, what the
  container is started with, and how the end of the container becomes the result of the run.
\<close>

section \<open>Commands\<close>

type_synonym 'd docker = "string list \<Rightarrow> 'd \<Rightarrow> (string \<times> goerr option) \<times> 'd"

definition containerNamePrefix :: string where "containerNamePrefix = ''job-runner-run''"
definition containerLabelManaged :: string where "containerLabelManaged = ''go-job-runner.managed''"
definition containerLabelApp :: string where "containerLabelApp = ''go-job-runner''"
definition containerLabelRunID :: string where "containerLabelRunID = ''go-job-runner.run-id''"
definition containerLabelJobID :: string where "containerLabelJobID = ''go-job-runner.job-id''"

text \<open>An error with what the command printed, where it printed anything.\<close>

definition commandErr :: "string \<Rightarrow> goerr \<Rightarrow> string \<Rightarrow> goerr" where
  "commandErr what e out =
     (let trimmed = trimSpace out in
      if trimmed \<noteq> [] then ErrorfAround (what @ '': '') e ('': '' @ trimmed) else Wrapf what e)"

definition pullImage :: "'d docker \<Rightarrow> string \<Rightarrow> 'd \<Rightarrow> goerr option \<times> 'd" where
  "pullImage dk imageRef d =
     (case dk [''pull'', imageRef] d of
        ((out, None), d') \<Rightarrow> (None, d')
      | ((out, Some e), d') \<Rightarrow> (Some (commandErr (''docker pull '' @ quoteStr imageRef) e out), d'))"

definition EnsureImage :: "'d docker \<Rightarrow> string \<Rightarrow> string \<Rightarrow> 'd \<Rightarrow> goerr option \<times> 'd" where
  "EnsureImage dk pullPolicy imageRef d =
     (let p = toLower (trimSpace pullPolicy) in
      if p = [] \<or> p = ''if_not_present''
      then (case dk [''image'', ''inspect'', imageRef] d of
              ((out, None), d') \<Rightarrow> (None, d')
            | ((out, Some e), d') \<Rightarrow> pullImage dk imageRef d')
      else if p = ''always'' then pullImage dk imageRef d
      else if p = ''never'' then (None, d)
      else (Some (Errorf (''unsupported pull policy '' @ quoteStr pullPolicy)), d))"

definition removeContainer :: "'d docker \<Rightarrow> string \<Rightarrow> bool \<Rightarrow> 'd \<Rightarrow> goerr option \<times> 'd" where
  "removeContainer dk name force d =
     (case dk ([''rm''] @ (if force then [''-f''] else []) @ [name]) d of
        ((out, None), d') \<Rightarrow> (None, d')
      | ((out, Some e), d') \<Rightarrow>
          let trimmed = trimSpace out in
          if trimmed = [] then (None, d')
          else if containsStr trimmed ''No such container'' then (None, d')
          else (Some (ErrorfAround (''docker rm -f '' @ quoteStr name @ '': '') e ('': '' @ trimmed)), d'))"

definition PrepareContainer :: "'d docker \<Rightarrow> string \<Rightarrow> 'd \<Rightarrow> goerr option \<times> 'd" where
  "PrepareContainer dk name d = removeContainer dk name True d"

definition CleanupContainer :: "'d docker \<Rightarrow> executor_config \<Rightarrow> string \<Rightarrow> 'd \<Rightarrow> goerr option \<times> 'd" where
  "CleanupContainer dk cfg name d =
     (if \<not> CleanupContainers cfg then (None, d) else removeContainer dk name True d)"

fun removeEach :: "'d docker \<Rightarrow> string list \<Rightarrow> 'd \<Rightarrow> goerr option \<times> 'd" where
  "removeEach dk [] d = (None, d)"
| "removeEach dk (i # is) d =
     (case removeContainer dk i True d of (Some e, d') \<Rightarrow> (Some e, d') | (None, d') \<Rightarrow> removeEach dk is d')"

definition orphanScanArgs :: "string list" where
  "orphanScanArgs = [''ps'', ''-aq'', ''--filter'', ''label='' @ containerLabelManaged @ ''=true'']"

definition RecoverOrphans :: "'d docker \<Rightarrow> executor_config \<Rightarrow> 'd \<Rightarrow> goerr option \<times> 'd" where
  "RecoverOrphans dk cfg d =
     (if \<not> OrphanRecoveryOnStartup cfg then (None, d)
      else case dk orphanScanArgs d of
        ((out, Some e), d') \<Rightarrow> (Some (commandErr ''docker orphan scan'' e out), d')
      | ((out, None), d') \<Rightarrow> removeEach dk (fieldsOf out) d')"

section \<open>Running the container\<close>

record container_spec =
  csName :: string
  csJobID :: int
  csRunID :: int
  csImageRef :: string
  csTimeoutSec :: int
  csParamsJSON :: string

definition dockerRunArgs :: "container_spec \<Rightarrow> executor_config \<Rightarrow> string list" where
  "dockerRunArgs spec cfg =
     (let mode = toLower (trimSpace (NetworkMode cfg)) in
      [''run'', ''--name'', csName spec,
       ''--label'', containerLabelManaged @ ''=true'', ''--label'', containerLabelApp @ ''=true'',
       ''--label'', containerLabelJobID @ ''='' @ itoa (csJobID spec),
       ''--label'', containerLabelRunID @ ''='' @ itoa (csRunID spec)]
      @ (if mode = [] \<or> mode = ''bridge'' then [''--network'', ''bridge'']
         else if mode = ''none'' then [''--network'', ''none''] else [])
      @ [''--security-opt'', ''no-new-privileges'']
      @ (if ReadOnlyRootFS cfg then [''--read-only''] else [])
      @ (if 0 < MemoryLimitMB cfg then [''--memory'', itoa (MemoryLimitMB cfg) @ ''m''] else [])
      @ (if floatGreaterZero (CPULimit cfg) then [''--cpus'', formatFloat (CPULimit cfg)] else [])
      @ (if 0 < StopGracePeriodSec cfg then [''--stop-timeout'', itoa (StopGracePeriodSec cfg)] else [])
      @ (if trimSpace (csParamsJSON spec) \<noteq> [] then [''-e'', ''JOB_PARAMS='' @ csParamsJSON spec] else [])
      @ [csImageRef spec])"

definition stopGracePeriodSec :: "executor_config \<Rightarrow> int" where
  "stopGracePeriodSec cfg = (if StopGracePeriodSec cfg < 0 then 0 else StopGracePeriodSec cfg)"

definition stopGracePeriod :: "executor_config \<Rightarrow> duration" where
  "stopGracePeriod cfg = secDuration (wrap64 (stopGracePeriodSec cfg + 5))"

text \<open>How the command \<open>docker run\<close> comes to its end for the \<open>select\<close>: it does not start, the context
  is done first, or the command exits first. Where both are ready Go chooses either.\<close>

datatype run_end = StartFails goerr | CtxDone goerr | Exits "goerr option"

text \<open>On a done context the container is stopped with its grace period, the client is killed and
  waited for, and the container is removed; the errors of all three are dropped.\<close>

definition RunContainer ::
  "'d docker \<Rightarrow> (string list \<Rightarrow> 'd \<Rightarrow> run_end \<times> 'd) \<Rightarrow> executor_config \<Rightarrow> container_spec \<Rightarrow> 'd \<Rightarrow> goerr option \<times> 'd" where
  "RunContainer dk proc cfg spec d =
     (case proc (dockerRunArgs spec cfg) d of
        (StartFails e, d1) \<Rightarrow> (Some (Wrapf ''start docker run'' e), d1)
      | (CtxDone ctxErr, d1) \<Rightarrow>
          let (_, d2) = dk [''stop'', ''-t'', itoa (stopGracePeriodSec cfg), csName spec] d1;
              (_, d3) = CleanupContainer dk cfg (csName spec) d2
          in (Some ctxErr, d3)
      | (Exits err, d1) \<Rightarrow>
          (case CleanupContainer dk cfg (csName spec) d1 of
             (None, d2) \<Rightarrow> (err, d2)
           | (Some ce, d2) \<Rightarrow>
               (case err of
                  Some e \<Rightarrow> (Some (Joined e (Wrapf (''cleanup container '' @ quoteStr (csName spec)) ce)), d2)
                | None \<Rightarrow> (Some ce, d2))))"

text \<open>\<open>uuid\<close> is what \<open>uuid.NewString\<close> returns.\<close>

definition runnerContainerNameWithSuffix :: "string \<Rightarrow> int \<Rightarrow> int \<Rightarrow> string \<Rightarrow> string" where
  "runnerContainerNameWithSuffix uuid jobId runId sfx =
     (let sfx = trimSpace sfx; sfx = (if sfx = [] then uuid else sfx)
      in containerNamePrefix @ ''-'' @ itoa jobId @ ''-'' @ itoa runId @ ''-'' @ sfx)"

definition runnerContainerName :: "string \<Rightarrow> string \<Rightarrow> int \<Rightarrow> int \<Rightarrow> string" where
  "runnerContainerName uuid uuid' jobId runId = runnerContainerNameWithSuffix uuid' jobId runId uuid"

definition exitCodeFromErr :: "goerr option \<Rightarrow> int" where
  "exitCodeFromErr err =
     (case err of None \<Rightarrow> 0 | Some e \<Rightarrow> (case asExitError e of None \<Rightarrow> - 1 | Some n \<Rightarrow> n))"

definition paramsJSONOf :: "job \<Rightarrow> string" where
  "paramsJSONOf j = (case jobParamsJSON j of None \<Rightarrow> [] | Some p \<Rightarrow> p)"

section \<open>Files\<close>

text \<open>\<open>Path\<close> of the two writers; \<open>fmtOther\<close> formats a pattern with verbs other than \<open>%d\<close>.\<close>

definition writerPath :: "(string \<Rightarrow> int list \<Rightarrow> string) \<Rightarrow> path_writer \<Rightarrow> int \<Rightarrow> int \<Rightarrow> string" where
  "writerPath fmtOther w jobId runId =
     Join2 (pwRoot w) (case sprintfD (pwPattern w) [jobId, runId] of
       Some s \<Rightarrow> s | None \<Rightarrow> fmtOther (pwPattern w) [jobId, runId])"

record result_record =
  rrJobID :: int
  rrRunID :: int
  rrImageRef :: string
  rrPullRef :: string
  rrImageDigest :: "string option"
  rrExitCode :: int
  rrMessage :: string
  rrFinishedAt :: time

text \<open>What the executor calls: the commands, the files, the clock, and \<open>uuid\<close>.\<close>

record 'd exec_env =
  envDocker :: "'d docker"
  envProc :: "string list \<Rightarrow> 'd \<Rightarrow> run_end \<times> 'd"
  envResolve :: "string \<Rightarrow> string \<Rightarrow> 'd \<Rightarrow> (goerr + candidate) \<times> 'd"
  envMkdirAll :: "string \<Rightarrow> 'd \<Rightarrow> goerr option \<times> 'd"
  envOpenAppend :: "string \<Rightarrow> 'd \<Rightarrow> goerr option \<times> 'd"
  envOpenTrunc :: "string \<Rightarrow> 'd \<Rightarrow> goerr option \<times> 'd"
  envMarshal :: "result_record \<Rightarrow> goerr + string"
  envSeekStart :: "'d \<Rightarrow> goerr option \<times> 'd"
  envTruncate :: "'d \<Rightarrow> goerr option \<times> 'd"
  envWrite :: "string \<Rightarrow> 'd \<Rightarrow> goerr option \<times> 'd"
  envSync :: "'d \<Rightarrow> goerr option \<times> 'd"
  envNow :: "'d \<Rightarrow> time \<times> 'd"
  envUuid :: "'d \<Rightarrow> (string \<times> string) \<times> 'd"
  envFmt :: "string \<Rightarrow> int list \<Rightarrow> string"

text \<open>A call that can fail, then the rest; \<open>if err := m; err != nil { return err }\<close>.\<close>

definition andThen :: "('d \<Rightarrow> goerr option \<times> 'd) \<Rightarrow> ('d \<Rightarrow> goerr option \<times> 'd) \<Rightarrow> 'd \<Rightarrow> goerr option \<times> 'd" where
  "andThen m f d = (case m d of (Some e, d') \<Rightarrow> (Some e, d') | (None, d') \<Rightarrow> f d')"

definition wrapping :: "string \<Rightarrow> ('d \<Rightarrow> goerr option \<times> 'd) \<Rightarrow> 'd \<Rightarrow> goerr option \<times> 'd" where
  "wrapping what m d = (case m d of (e, d') \<Rightarrow> (map_option (Wrapf what) e, d'))"

definition writerOpen :: "'d exec_env \<Rightarrow> path_writer \<Rightarrow> int \<Rightarrow> int \<Rightarrow> 'd \<Rightarrow> (goerr + string) \<times> 'd" where
  "writerOpen env w jobId runId d =
     (let path = writerPath (envFmt env) w jobId runId in
      case andThen (wrapping ''create log dir'' (envMkdirAll env (Dir path)))
             (wrapping ''open log file'' (envOpenAppend env path)) d of
        (Some e, d') \<Rightarrow> (Inl e, d') | (None, d') \<Rightarrow> (Inr path, d'))"

definition resultWriterOpen :: "'d exec_env \<Rightarrow> path_writer \<Rightarrow> int \<Rightarrow> int \<Rightarrow> 'd \<Rightarrow> (goerr + string) \<times> 'd" where
  "resultWriterOpen env w jobId runId d =
     (let path = writerPath (envFmt env) w jobId runId in
      case andThen (wrapping ''create artifact dir'' (envMkdirAll env (Dir path)))
             (wrapping ''open result file'' (envOpenTrunc env path)) d of
        (Some e, d') \<Rightarrow> (Inl e, d') | (None, d') \<Rightarrow> (Inr path, d'))"

definition writeResult :: "'d exec_env \<Rightarrow> result_record \<Rightarrow> 'd \<Rightarrow> goerr option \<times> 'd" where
  "writeResult env rec d =
     (case envMarshal env rec of Inl e \<Rightarrow> (Some e, d)
      | Inr data \<Rightarrow> andThen (envSeekStart env) (andThen (envTruncate env)
          (andThen (envWrite env data) (envSync env))) d)"

section \<open>Execute\<close>

record docker_executor =
  deImage :: image_config
  dePullPolicy :: string
  deExec :: executor_config
  deLogWriter :: path_writer
  deResultWriter :: path_writer

definition NewDockerExecutor :: "store_config \<Rightarrow> image_config \<Rightarrow> executor_config \<Rightarrow> docker_executor" where
  "NewDockerExecutor storeCfg imageCfg execCfg =
     \<lparr>deImage = imageCfg, dePullPolicy = PullPolicy imageCfg, deExec = execCfg,
      deLogWriter = NewWriter (LogRoot storeCfg) (LogPathPattern storeCfg),
      deResultWriter = NewResultWriter (ArtifactRoot storeCfg) (ResultPathPattern storeCfg)\<rparr>"

text \<open>The end of \<open>Execute\<close>: the result of running the container, with the result file written unless
  the context ended the run.\<close>

definition concludeRun ::
  "'d exec_env \<Rightarrow> job \<Rightarrow> run \<Rightarrow> candidate \<Rightarrow> string \<Rightarrow> string \<Rightarrow> string \<Rightarrow> goerr option \<Rightarrow> 'd
   \<Rightarrow> (execution_result option \<times> goerr option) \<times> 'd" where
  "concludeRun env job run cand pullRef logPath resultPath err d =
     (let result = (\<lambda>code. Some \<lparr>exExitCode = code, exLogPath = logPath, exResultPath = resultPath,
            exImageDigest = cdDigest cand\<rparr>);
          ended = (case err of None \<Rightarrow> False | Some e \<Rightarrow> errorsIs e Canceled \<or> errorsIs e DeadlineExceeded)
      in if ended then ((result (- 1), err), d)
         else let exitCode = exitCodeFromErr err;
                  (now, d1) = envNow env d
              in case writeResult env \<lparr>rrJobID = jobID job, rrRunID = runID run, rrImageRef = cdImageRef cand,
                     rrPullRef = pullRef, rrImageDigest = cdDigest cand, rrExitCode = exitCode,
                     rrMessage = (case err of None \<Rightarrow> ''success'' | Some e \<Rightarrow> errorText e), rrFinishedAt = now\<rparr> d1 of
                (Some we, d2) \<Rightarrow> ((result exitCode, Some (Wrapf ''write result'' we)), d2)
              | (None, d2) \<Rightarrow> ((result exitCode, err), d2))"

definition startRun ::
  "docker_executor \<Rightarrow> 'd exec_env \<Rightarrow> job \<Rightarrow> run \<Rightarrow> candidate \<Rightarrow> string \<Rightarrow> string \<Rightarrow> string \<Rightarrow> 'd
   \<Rightarrow> (execution_result option \<times> goerr option) \<times> 'd" where
  "startRun e env job run cand pullRef logPath resultPath d =
     (let ((u, u'), d1) = envUuid env d; name = runnerContainerName u u' (runJobID run) (runID run) in
      case PrepareContainer (envDocker env) name d1 of
        (Some err, d2) \<Rightarrow> ((None, Some err), d2)
      | (None, d2) \<Rightarrow>
          (case RunContainer (envDocker env) (envProc env) (deExec e)
                  \<lparr>csName = name, csJobID = jobID job, csRunID = runID run, csImageRef = pullRef,
                   csTimeoutSec = jobTimeoutSec job, csParamsJSON = paramsJSONOf job\<rparr> d2 of
             (err, d3) \<Rightarrow> concludeRun env job run cand pullRef logPath resultPath err d3))"

definition Execute ::
  "docker_executor \<Rightarrow> 'd exec_env \<Rightarrow> job \<Rightarrow> run \<Rightarrow> 'd \<Rightarrow> (execution_result option \<times> goerr option) \<times> 'd" where
  "Execute e env job run d =
     (if \<not> SourceAllowed (deImage e) (jobSourceType job)
      then ((None, Some (Errorf (''source type '' @ quoteStr (jobSourceType job) @ '' is not allowed''))), d)
      else case ValidateRef (deImage e) (jobImageRef job) of Inl err \<Rightarrow> ((None, Some err), d)
      | Inr _ \<Rightarrow> (case envResolve env (jobSourceType job) (jobImageRef job) d of
          (Inl err, d1) \<Rightarrow> ((None, Some err), d1)
        | (Inr cand, d1) \<Rightarrow>
            let pullRef = (if cdPullRef cand = [] then cdImageRef cand else cdPullRef cand) in
            (case EnsureImage (envDocker env) (dePullPolicy e) pullRef d1 of
               (Some err, d2) \<Rightarrow> ((None, Some err), d2)
             | (None, d2) \<Rightarrow> (case writerOpen env (deLogWriter e) (jobID job) (runID run) d2 of
                 (Inl err, d3) \<Rightarrow> ((None, Some err), d3)
               | (Inr logPath, d3) \<Rightarrow> (case resultWriterOpen env (deResultWriter e) (jobID job) (runID run) d3 of
                   (Inl err, d4) \<Rightarrow> ((None, Some err), d4)
                 | (Inr resultPath, d4) \<Rightarrow> startRun e env job run cand pullRef logPath resultPath d4)))))"

section \<open>What a container is started with\<close>

lemma dockerRunArgs_shape:
  "\<exists>opts. dockerRunArgs spec cfg = [''run'', ''--name'', csName spec] @ opts @ [csImageRef spec]
    \<and> sublist [''--label'', containerLabelManaged @ ''=true''] opts
    \<and> sublist [''--security-opt'', ''no-new-privileges''] opts"
proof -
  let ?mode = "toLower (trimSpace (NetworkMode cfg))"
  let ?net = "if ?mode = [] \<or> ?mode = ''bridge'' then [''--network'', ''bridge'']
         else if ?mode = ''none'' then [''--network'', ''none''] else []"
  let ?pre = "[''--label'', containerLabelApp @ ''=true'', ''--label'', containerLabelJobID @ ''='' @ itoa (csJobID spec),
       ''--label'', containerLabelRunID @ ''='' @ itoa (csRunID spec)] @ ?net"
  let ?post = "(if ReadOnlyRootFS cfg then [''--read-only''] else [])
      @ (if 0 < MemoryLimitMB cfg then [''--memory'', itoa (MemoryLimitMB cfg) @ ''m''] else [])
      @ (if floatGreaterZero (CPULimit cfg) then [''--cpus'', formatFloat (CPULimit cfg)] else [])
      @ (if 0 < StopGracePeriodSec cfg then [''--stop-timeout'', itoa (StopGracePeriodSec cfg)] else [])
      @ (if trimSpace (csParamsJSON spec) \<noteq> [] then [''-e'', ''JOB_PARAMS='' @ csParamsJSON spec] else [])"
  let ?managed = "[''--label'', containerLabelManaged @ ''=true'']"
  let ?sec = "[''--security-opt'', ''no-new-privileges'']"
  have "dockerRunArgs spec cfg = [''run'', ''--name'', csName spec] @ (?managed @ ?pre @ ?sec @ ?post) @ [csImageRef spec]"
    by (simp add: dockerRunArgs_def Let_def)
  moreover have "sublist ?managed (?managed @ ?pre @ ?sec @ ?post)"
    unfolding sublist_def by (intro exI [of _ "[]"] exI [of _ "?pre @ ?sec @ ?post"]) simp
  moreover have "sublist ?sec (?managed @ ?pre @ ?sec @ ?post)"
    unfolding sublist_def by (intro exI [of _ "?managed @ ?pre"] exI [of _ ?post]) simp
  ultimately show ?thesis by blast
qed

section \<open>Which commands are issued\<close>

text \<open>The commands with a record of what was issued.\<close>

definition logged :: "'d docker \<Rightarrow> ('d \<times> string list list) docker" where
  "logged dk args = (\<lambda>(d, l). case dk args d of (r, d') \<Rightarrow> (r, d', l @ [args]))"

definition loggedProc ::
  "(string list \<Rightarrow> 'd \<Rightarrow> run_end \<times> 'd) \<Rightarrow> string list \<Rightarrow> 'd \<times> string list list \<Rightarrow> run_end \<times> 'd \<times> string list list" where
  "loggedProc proc args = (\<lambda>(d, l). case proc args d of (x, d') \<Rightarrow> (x, d', l @ [args]))"

lemma removeContainer_logged:
  "snd (snd (removeContainer (logged dk) name force (d, l))) = l @ [[''rm''] @ (if force then [''-f''] else []) @ [name]]"
  by (auto simp: removeContainer_def logged_def Let_def split: prod.splits option.splits)

definition cleanupCommands :: "executor_config \<Rightarrow> string \<Rightarrow> string list list" where
  "cleanupCommands cfg name = (if CleanupContainers cfg then [[''rm'', ''-f'', name]] else [])"

lemma CleanupContainer_logged:
  "snd (snd (CleanupContainer (logged dk) cfg name s)) = snd s @ cleanupCommands cfg name"
  using removeContainer_logged [of dk name True "fst s" "snd s"]
  by (cases s) (simp add: CleanupContainer_def cleanupCommands_def)

lemma RunContainer_logged:
  assumes "proc (dockerRunArgs spec cfg) d = (x, d1)"
  shows "snd (snd (RunContainer (logged dk) (loggedProc proc) cfg spec (d, l))) = l @ [dockerRunArgs spec cfg]
    @ (case x of StartFails e \<Rightarrow> []
       | CtxDone e \<Rightarrow> [''stop'', ''-t'', itoa (stopGracePeriodSec cfg), csName spec] # cleanupCommands cfg (csName spec)
       | Exits e \<Rightarrow> cleanupCommands cfg (csName spec))"
proof -
  let ?l = "l @ [dockerRunArgs spec cfg]"
  have p: "loggedProc proc (dockerRunArgs spec cfg) (d, l) = (x, d1, ?l)"
    by (simp add: loggedProc_def assms)
  show ?thesis
  proof (cases x)
    case (StartFails e)
    then show ?thesis by (simp add: RunContainer_def p)
  next
    case (CtxDone e)
    obtain r d2 where s: "dk [''stop'', ''-t'', itoa (stopGracePeriodSec cfg), csName spec] d1 = (r, d2)" by fastforce
    have "logged dk [''stop'', ''-t'', itoa (stopGracePeriodSec cfg), csName spec] (d1, ?l)
      = (r, d2, ?l @ [[''stop'', ''-t'', itoa (stopGracePeriodSec cfg), csName spec]])"
      by (simp add: logged_def s)
    with CtxDone show ?thesis
      by (simp add: RunContainer_def p CleanupContainer_logged case_prod_unfold)
  next
    case (Exits e)
    then show ?thesis
      using CleanupContainer_logged [of dk cfg "csName spec" "(d1, ?l)"]
      by (auto simp: RunContainer_def p split: prod.splits option.splits)
  qed
qed

lemma removeEach_logged:
  "removeEach (logged dk) is (d, l) = (None, d', l') \<Longrightarrow> l' = l @ map (\<lambda>i. [''rm'', ''-f'', i]) is"
proof (induction "is" arbitrary: d l)
  case (Cons i "is")
  obtain r d1 l1 where rm: "removeContainer (logged dk) i True (d, l) = (r, d1, l1)"
    by (cases "removeContainer (logged dk) i True (d, l)") auto
  with Cons.prems have "r = None" by (cases r) auto
  with Cons.prems rm have "removeEach (logged dk) is (d1, l1) = (None, d', l')" by simp
  from Cons.IH [OF this] removeContainer_logged [of dk i True d l] rm show ?case by simp
qed simp

lemma RecoverOrphans_logged:
  assumes "RecoverOrphans (logged dk) cfg (d, l) = (None, d', l')" and "OrphanRecoveryOnStartup cfg"
    and "dk orphanScanArgs d = ((out, None), d1)"
  shows "l' = l @ orphanScanArgs # map (\<lambda>i. [''rm'', ''-f'', i]) (fieldsOf out)"
proof -
  from assms have "removeEach (logged dk) (fieldsOf out) (d1, l @ [orphanScanArgs]) = (None, d', l')"
    by (simp add: RecoverOrphans_def logged_def)
  from removeEach_logged [OF this] show ?thesis by simp
qed

text \<open>An image is pulled when the policy is always, or when it is not there already.\<close>

lemma EnsureImage_logged:
  assumes "EnsureImage (logged dk) pol ref (d, l) = (r, d', l')"
  shows "l' = l @ (if toLower (trimSpace pol) = ''always'' then [[''pull'', ref]]
     else if toLower (trimSpace pol) \<in> {[], ''if_not_present''}
     then [''image'', ''inspect'', ref] # (if snd (fst (dk [''image'', ''inspect'', ref] d)) = None then [] else [[''pull'', ref]])
     else [])"
  using assms
  by (auto simp: EnsureImage_def pullImage_def logged_def Let_def split: prod.splits option.splits if_splits)

section \<open>From the container to the result\<close>

lemma RunContainer_None:
  assumes "RunContainer dk proc cfg spec d = (None, d')"
  shows "\<exists>d1. proc (dockerRunArgs spec cfg) d = (Exits None, d1)"
  using assms by (auto simp: RunContainer_def Let_def split: prod.splits run_end.splits option.splits)

lemma RunContainer_exit:
  assumes "proc (dockerRunArgs spec cfg) d = (Exits (Some e), d1)"
  shows "\<exists>e'. fst (RunContainer dk proc cfg spec d) = Some e' \<and> (e' = e \<or> (\<exists>c. e' = Joined e c))"
  using assms by (auto simp: RunContainer_def split: prod.splits option.splits)

lemma concludeRun_cases:
  assumes "concludeRun env job run cand pullRef lp rp err d = ((r, err'), d')"
  shows "\<exists>res. r = Some res \<and> exLogPath res = lp \<and> exResultPath res = rp \<and> exImageDigest res = cdDigest cand
    \<and> (case err of
         None \<Rightarrow> exExitCode res = 0
       | Some e \<Rightarrow> err' \<noteq> None \<and> exExitCode res =
           (if errorsIs e Canceled \<or> errorsIs e DeadlineExceeded then - 1 else exitCodeFromErr (Some e)))"
  using assms by (auto simp: concludeRun_def exitCodeFromErr_def Let_def split: prod.splits option.splits if_splits)

lemma concludeRun_None:
  assumes "concludeRun env job run cand pullRef lp rp err d = ((r, None), d')"
  shows "err = None"
  using assms by (auto simp: concludeRun_def Let_def split: prod.splits option.splits if_splits)

lemma startRun_None:
  assumes "startRun e env job run cand pullRef lp rp d = ((r, None), d')"
  shows "\<exists>res spec d1 d2. r = Some res \<and> exExitCode res = 0 \<and> csImageRef spec = pullRef \<and> csRunID spec = runID run
    \<and> csJobID spec = jobID job \<and> envProc env (dockerRunArgs spec (deExec e)) d1 = (Exits None, d2)"
proof -
  from assms obtain u u' d2 err d3 spec where
    spec: "spec = \<lparr>csName = runnerContainerName u u' (runJobID run) (runID run), csJobID = jobID job, csRunID = runID run,
         csImageRef = pullRef, csTimeoutSec = jobTimeoutSec job, csParamsJSON = paramsJSONOf job\<rparr>"
    and rc: "RunContainer (envDocker env) (envProc env) (deExec e) spec d2 = (err, d3)"
    and c: "concludeRun env job run cand pullRef lp rp err d3 = ((r, None), d')"
    by (auto simp: startRun_def Let_def split: prod.splits option.splits)
  from concludeRun_None [OF c] have err: "err = None" .
  from RunContainer_None [OF rc [unfolded err]] obtain d4
    where "envProc env (dockerRunArgs spec (deExec e)) d2 = (Exits None, d4)" by blast
  moreover from concludeRun_cases [OF c] err obtain res where "r = Some res" "exExitCode res = 0" by auto
  moreover from spec have "csImageRef spec = pullRef" "csRunID spec = runID run" "csJobID spec = jobID job" by simp_all
  ultimately show ?thesis by blast
qed

lemma Execute_None:
  assumes "Execute e env job run d = ((r, None), d')"
  shows "\<exists>res spec cand d0 d1 d2 d3. r = Some res \<and> exExitCode res = 0
    \<and> SourceAllowed (deImage e) (jobSourceType job) \<and> permitted (deImage e) (jobImageRef job)
    \<and> envResolve env (jobSourceType job) (jobImageRef job) d0 = (Inr cand, d1)
    \<and> csImageRef spec = (if cdPullRef cand = [] then cdImageRef cand else cdPullRef cand)
    \<and> csRunID spec = runID run \<and> csJobID spec = jobID job
    \<and> envProc env (dockerRunArgs spec (deExec e)) d2 = (Exits None, d3)"
proof -
  have allowed: "SourceAllowed (deImage e) (jobSourceType job)"
    using assms by (auto simp: Execute_def split: if_splits)
  moreover obtain u where "ValidateRef (deImage e) (jobImageRef job) = Inr u"
    using assms allowed by (auto simp: Execute_def split: sum.splits)
  then have "permitted (deImage e) (jobImageRef job)" using ValidateRef_iff by blast
  moreover from assms allowed \<open>ValidateRef _ _ = Inr u\<close> obtain cand d1 lp rp d4 where
    res: "envResolve env (jobSourceType job) (jobImageRef job) d = (Inr cand, d1)"
    and st: "startRun e env job run cand (if cdPullRef cand = [] then cdImageRef cand else cdPullRef cand) lp rp d4 = ((r, None), d')"
    by (auto simp: Execute_def Let_def split: prod.splits sum.splits option.splits)
  ultimately show ?thesis using startRun_None [OF st] by blast
qed

section \<open>The paths of the logs\<close>

lemma itoa_inj: "in_int64 m \<Longrightarrow> in_int64 n \<Longrightarrow> itoa m = itoa n \<longleftrightarrow> m = n"
  by (metis option.inject parseInt64_itoa)

lemma isDigit_no_slash: "isDigit c \<Longrightarrow> c \<noteq> CHR ''/''"
  by (auto simp: isDigit_def)

lemma itoa_no_slash: "CHR ''/'' \<notin> set (itoa n)"
  using natDigits_isDigit [of "nat n"] natDigits_isDigit [of "nat (- n)"]
  by (auto simp: itoa_def list_all_iff dest: isDigit_no_slash)

lemma default_log_path:
  assumes "rooted root"
  shows "cleanElems (writerPath fmt (NewWriter root []) j r)
    = cleanElems root @ [''job-'' @ itoa j, ''run-'' @ itoa r, ''run.log'']"
proof -
  let ?es = "[''job-'' @ itoa j, ''run-'' @ itoa r, ''run.log'']"
  have "list_all proper ?es" using itoa_no_slash by (auto simp: proper_def)
  from cleanElems_Join2 [OF assms this] show ?thesis
    by (simp add: writerPath_def NewWriter_def defaultLogPattern_def)
qed

end
