(* ===== verification/Loops.thy ===== *)
theory Loops
  imports Retention Due_Job Dispatch Executor
begin

text \<open>
  The goroutines of the scheduler (\<open>Start\<close> and \<open>retentionLoop\<close> in \<open>scheduler.go\<close>, \<open>dueJobLoop\<close>,
  \<open>dispatchLoop\<close>): what each does with the sequence of events its \<open>select\<close> sees. A loop works once
  before it waits; then every tick and every wakeup makes it work again, until the context is
  done. The lemmas count the work and show that a wakeup sent while a loop is busy is not lost.
\<close>

section \<open>Tickers and events\<close>

datatype loop_event = CtxDoneEv | TickEv | WakeupEv

text \<open>\<open>time.NewTicker\<close> panics unless its interval is positive.\<close>

definition newTicker :: "duration \<Rightarrow> goerr + unit" where
  "newTicker d = (if d \<le> 0 then Inl (Errorf ''panic: non-positive interval for NewTicker'') else Inr ())"

text \<open>Receiving from a wakeup channel of one place.\<close>

definition receiveDue :: "unit io" where
  "receiveDue = (\<lambda>w. (Inr (), w\<lparr>wDueWakeup := False\<rparr>))"

definition receiveDispatch :: "unit io" where
  "receiveDispatch = (\<lambda>w. (Inr (), w\<lparr>wDispatchWakeup := False\<rparr>))"

text \<open>The \<open>select\<close> of a loop: \<open>work\<close> is its body, \<open>receive\<close> takes the wakeup.\<close>

fun selectLoop :: "unit io \<Rightarrow> unit io \<Rightarrow> loop_event list \<Rightarrow> unit io" where
  "selectLoop receive work [] = returnIO ()"
| "selectLoop receive work (CtxDoneEv # es) = returnIO ()"
| "selectLoop receive work (TickEv # es) = bindIO work (\<lambda>_. selectLoop receive work es)"
| "selectLoop receive work (WakeupEv # es) =
     bindIO receive (\<lambda>_. bindIO work (\<lambda>_. selectLoop receive work es))"

section \<open>The loops\<close>

definition dueJobLoop :: "scheduler \<Rightarrow> cron_lib \<Rightarrow> loop_event list \<Rightarrow> unit io" where
  "dueJobLoop s lib es =
     bindIO (liftRes (newTicker (dueJobInterval s))) (\<lambda>_.
     bindIO (processDueJobs s lib) (\<lambda>_. selectLoop receiveDue (processDueJobs s lib) es))"

text \<open>The dispatch loop; the pool each call of \<open>processDispatch\<close> finds is given by its number.\<close>

fun dispatchEvents :: "(nat \<Rightarrow> bool \<times> pool) \<Rightarrow> nat \<Rightarrow> loop_event list \<Rightarrow> int list \<Rightarrow> int list io" where
  "dispatchEvents env k [] started = returnIO started"
| "dispatchEvents env k (CtxDoneEv # es) started = returnIO started"
| "dispatchEvents env k (ev # es) started =
     bindIO (if ev = WakeupEv then receiveDispatch else returnIO ()) (\<lambda>_.
     bindIO (processDispatch (fst (env k)) (snd (env k))) (\<lambda>(p, is).
       dispatchEvents env (Suc k) es (started @ is)))"

definition dispatchLoop :: "scheduler \<Rightarrow> (nat \<Rightarrow> bool \<times> pool) \<Rightarrow> loop_event list \<Rightarrow> int list io" where
  "dispatchLoop s env es =
     bindIO (liftRes (newTicker (dispatchInterval s))) (\<lambda>_.
     bindIO (processDispatch (fst (env 0)) (snd (env 0))) (\<lambda>(p, is). dispatchEvents env 1 es is))"

text \<open>\<open>runRetention\<close> logs the report or the error and returns.\<close>

definition runRetention :: "config \<Rightarrow> string option \<Rightarrow> (nat \<Rightarrow> goerr option) \<Rightarrow> (nat \<Rightarrow> goerr option) \<Rightarrow> unit pio" where
  "runRetention cfg wd ctx ctx' s = (case prunerRun cfg wd ctx ctx' s of (_, s') \<Rightarrow> (Inr (), s'))"

definition retentionTicks :: "scheduler \<Rightarrow> duration" where
  "retentionTicks s = (if retentionInterval s \<le> 0 then 3600 * second else retentionInterval s)"

fun retentionEvents :: "unit pio \<Rightarrow> loop_event list \<Rightarrow> unit pio" where
  "retentionEvents work [] = returnP ()"
| "retentionEvents work (CtxDoneEv # es) = returnP ()"
| "retentionEvents work (ev # es) = bindP work (\<lambda>_. retentionEvents work es)"

definition retentionLoop ::
  "scheduler \<Rightarrow> config \<Rightarrow> string option \<Rightarrow> (nat \<Rightarrow> goerr option) \<Rightarrow> (nat \<Rightarrow> goerr option) \<Rightarrow> loop_event list \<Rightarrow> unit pio" where
  "retentionLoop s cfg wd ctx ctx' es =
     bindP (runRetention cfg wd ctx ctx') (\<lambda>_.
     bindP (\<lambda>st. (newTicker (retentionTicks s), st)) (\<lambda>_. retentionEvents (runRetention cfg wd ctx ctx') es))"

section \<open>Start\<close>

datatype loop = RetentionLoop | DueJobLoop | DispatchLoop

text \<open>Which goroutines \<open>Start\<close> starts: none where the orphans of an earlier process could not be
  removed.\<close>

definition schedulerStart :: "'d docker \<Rightarrow> executor_config \<Rightarrow> scheduler \<Rightarrow> 'd \<Rightarrow> (goerr + loop list) \<times> 'd" where
  "schedulerStart dk cfg s d =
     (case RecoverOrphans dk cfg d of
        (Some e, d') \<Rightarrow> (Inl e, d')
      | (None, d') \<Rightarrow> (Inr ((if retentionEnabled s then [RetentionLoop] else []) @ [DueJobLoop, DispatchLoop]), d'))"

section \<open>No wakeup is lost\<close>

text \<open>What a scan must not do is clear a wakeup that arrives while it runs.\<close>

definition keepsWakeup :: "'a io \<Rightarrow> bool" where
  "keepsWakeup m \<longleftrightarrow> (\<forall>w. wDueWakeup w \<longrightarrow> wDueWakeup (snd (m w)))"

lemma keepsWakeup_returnIO: "keepsWakeup (returnIO x)" and keepsWakeup_failIO: "keepsWakeup (failIO e)"
  and keepsWakeup_liftRes: "keepsWakeup (liftRes r)" and keepsWakeup_timeNow: "keepsWakeup timeNow"
  and keepsWakeup_Notify: "keepsWakeup NotifyDueJob" "keepsWakeup NotifyDispatch"
  by (simp_all add: keepsWakeup_def returnIO_def failIO_def liftRes_def timeNow_def NotifyDueJob_def NotifyDispatch_def)

lemma keepsWakeup_bindIO: "keepsWakeup m \<Longrightarrow> (\<And>x. keepsWakeup (f x)) \<Longrightarrow> keepsWakeup (bindIO m f)"
  by (auto simp: keepsWakeup_def bindIO_def split: prod.splits sum.splits)

lemma keepsWakeup_mapErr: "keepsWakeup m \<Longrightarrow> keepsWakeup (mapErr g m)"
  and keepsWakeup_tryIO: "keepsWakeup m \<Longrightarrow> keepsWakeup (tryIO m)"
  by (auto simp: keepsWakeup_def mapErr_def tryIO_def split: prod.splits sum.splits)

lemma keepsWakeup_execDb: "keepsWakeup (execDb f)" and keepsWakeup_queryDb: "keepsWakeup (queryDb q)"
  by (auto simp: keepsWakeup_def queryDb_def execDb_def Let_def split: prod.splits sum.splits)

lemma keepsWakeup_WithinTx: "keepsWakeup m \<Longrightarrow> keepsWakeup (WithinTx m)"
proof -
  assume m: "keepsWakeup m"
  have e: "wDueWakeup (snd (execDb (\<lambda>d. (Inr (), d)) w))" if "wDueWakeup w" for w :: world
    using that keepsWakeup_execDb by (auto simp: keepsWakeup_def)
  show ?thesis
    unfolding keepsWakeup_def WithinTx_def
  proof (intro allI impI)
    fix w :: world assume w: "wDueWakeup w"
    obtain r1 w1 where 1: "execDb (\<lambda>d. (Inr (), d)) w = (r1, w1)" by force
    obtain r2 w2 where 2: "m w1 = (r2, w2)" by force
    obtain r3 w3 where 3: "execDb (\<lambda>d. (Inr (), d)) w2 = (r3, w3)" by force
    from e [OF w] 1 have w1: "wDueWakeup w1" by simp
    with m 2 have w2: "wDueWakeup w2" by (metis keepsWakeup_def snd_conv)
    with e [OF w2] 3 have w3: "wDueWakeup w3" by simp
    from 1 2 3 w1 w2 w3 show "wDueWakeup (snd (case execDb (\<lambda>d. (Inr (), d)) w of
         (Inl e, w1) \<Rightarrow> (Inl e, w1)
       | (Inr _, w1) \<Rightarrow>
           (case m w1 of
              (Inl e, w2) \<Rightarrow> (Inl e, w2\<lparr>wDb := wDb w1\<rparr>)
            | (Inr x, w2) \<Rightarrow>
                (case execDb (\<lambda>d. (Inr (), d)) w2 of
                   (Inl e, w3) \<Rightarrow> (Inl e, w3\<lparr>wDb := wDb w1\<rparr>)
                 | (Inr _, w3) \<Rightarrow> (Inr x, w3)))))"
      by (cases r1; cases r2; cases r3) auto
  qed
qed

lemmas keepsWakeup_intros = keepsWakeup_returnIO keepsWakeup_failIO keepsWakeup_liftRes keepsWakeup_timeNow
  keepsWakeup_Notify keepsWakeup_bindIO keepsWakeup_mapErr keepsWakeup_tryIO keepsWakeup_execDb
  keepsWakeup_queryDb keepsWakeup_WithinTx

lemma keepsWakeup_if: "keepsWakeup a \<Longrightarrow> keepsWakeup b \<Longrightarrow> keepsWakeup (if c then a else b)"
  by simp

lemma keepsWakeup_store:
  "keepsWakeup (runsCreate r)" "keepsWakeup (eventsCreate e)" "keepsWakeup (UpdateScheduling i a b)"
  "keepsWakeup (UpdateStatus i s x y c m)" "keepsWakeup (runsList f p)" "keepsWakeup (ListDue now)"
  unfolding runsCreate_def eventsCreate_def UpdateScheduling_def UpdateStatus_def runsList_def ListDue_def Let_def
  by (auto intro!: keepsWakeup_intros split: prod.split)

lemma keepsWakeup_splitStale: "keepsWakeup (splitStale s now t rs)"
  by (induction rs) (auto simp: finalizeStaleRunningRun_def Let_def intro!: keepsWakeup_intros keepsWakeup_store)

lemma keepsWakeup_processDueJob: "keepsWakeup (processDueJob s lib j now)"
proof -
  have c: "keepsWakeup (createDueRun r t m i a b)" for r t m i a b
    unfolding createDueRun_def by (intro keepsWakeup_intros keepsWakeup_store)
  have "keepsWakeup (dueTx s j now n sch)" for n sch
    unfolding dueTx_def Let_def
    by (intro keepsWakeup_bindIO keepsWakeup_if keepsWakeup_returnIO)
      (auto intro!: keepsWakeup_store keepsWakeup_splitStale c split: prod.split list.split)
  then show ?thesis
    unfolding processDueJob_def by (auto intro!: keepsWakeup_intros split: option.split)
qed

lemma keepsWakeup_processEach: "keepsWakeup (processEach s lib now js)"
  by (induction js) (auto intro!: keepsWakeup_intros keepsWakeup_processDueJob)

lemma keepsWakeup_processDueJobs: "keepsWakeup (processDueJobs s lib)"
  unfolding processDueJobs_def
  by (intro keepsWakeup_bindIO keepsWakeup_timeNow keepsWakeup_tryIO keepsWakeup_store)
    (auto intro!: keepsWakeup_intros keepsWakeup_processEach split: sum.split)

text \<open>A wakeup that is there stays until the loop receives it, and then a whole scan follows.\<close>

lemma wakeup_is_served:
  assumes "wDueWakeup w" and "selectLoop receiveDue work (replicate n TickEv) w = (Inr (), w')"
    and "keepsWakeup work"
  shows "wDueWakeup w' \<and> selectLoop receiveDue work (replicate n TickEv @ WakeupEv # es) w
    = bindIO work (\<lambda>_. selectLoop receiveDue work es) (w'\<lparr>wDueWakeup := False\<rparr>)"
  using assms(1,2)
proof (induction n arbitrary: w)
  case 0
  then show ?case by (simp add: returnIO_def bindIO_def receiveDue_def)
next
  case (Suc n)
  then obtain w1 where w1: "work w = (Inr (), w1)"
    and l: "selectLoop receiveDue work (replicate n TickEv) w1 = (Inr (), w')"
    by (auto simp: bindIO_Inr)
  from assms(3) Suc.prems(1) w1 have "wDueWakeup w1" by (metis keepsWakeup_def snd_conv)
  from Suc.IH [OF this l] w1 show ?case by (simp add: bindIO_def)
qed

text \<open>A scan ends without an error, whatever fails in it: the failures are logged.\<close>

lemma processEach_Inr: "\<exists>w'. processEach s lib now js w = (Inr (), w')"
  by (induction js arbitrary: w) (auto simp: returnIO_def bindIO_def tryIO_def split: prod.split)

lemma processDueJobs_Inr: "\<exists>w'. processDueJobs s lib w = (Inr (), w')"
proof -
  have "\<exists>w'. (case r of Inl _ \<Rightarrow> returnIO () | Inr js \<Rightarrow> processEach s lib now js) v = (Inr (), w')" for r now v
    using processEach_Inr by (cases r) (auto simp: returnIO_def)
  then show ?thesis
    by (simp add: processDueJobs_def bindIO_def timeNow_def tryIO_def case_prod_unfold)
qed

lemma ticks_Inr:
  "(\<And>w. \<exists>w'. work w = (Inr (), w')) \<Longrightarrow> \<exists>w'. selectLoop receive work (replicate n TickEv) w = (Inr (), w')"
proof (induction n arbitrary: w)
  case (Suc n)
  from Suc.prems [of w] obtain w1 where "work w = (Inr (), w1)" by blast
  with Suc.IH [OF Suc.prems, of w1] show ?case by (simp add: bindIO_def)
qed (simp add: returnIO_def)

text \<open>So a request for a scan is kept through any number of ticks, and the scan follows it.\<close>

lemma due_wakeup_kept:
  assumes "wDueWakeup w"
  obtains w' where "selectLoop receiveDue (processDueJobs s lib) (replicate n TickEv) w = (Inr (), w')"
    and "wDueWakeup w'"
    and "selectLoop receiveDue (processDueJobs s lib) (replicate n TickEv @ WakeupEv # es) w
      = bindIO (processDueJobs s lib) (\<lambda>_. selectLoop receiveDue (processDueJobs s lib) es) (w'\<lparr>wDueWakeup := False\<rparr>)"
proof -
  obtain w' where t: "selectLoop receiveDue (processDueJobs s lib) (replicate n TickEv) w = (Inr (), w')"
    using ticks_Inr [of "processDueJobs s lib", OF processDueJobs_Inr] by blast
  from wakeup_is_served [OF assms t keepsWakeup_processDueJobs] t show thesis by (blast intro: that)
qed

section \<open>Intervals\<close>

text \<open>\<open>Validate\<close> accepts any positive number of seconds, but the product with a second wraps: an
  interval of 9223372037 seconds gives a ticker that panics.\<close>

lemma long_scan_interval_panics:
  assumes "DueJobScanIntervalSec (SchedulerCfg c) = 9223372037"
  shows "\<exists>e. dueJobLoop (NewScheduler c) lib es w = (Inl e, w)"
  using assms by (simp add: dueJobLoop_def NewScheduler_def secDuration_def second_def wrap64_mod newTicker_def
      bindIO_def liftRes_def)

lemma ticker_ok:
  "0 < n \<Longrightarrow> n \<le> 9223372036 \<Longrightarrow> newTicker (secDuration n) = Inr ()"
  by (simp add: newTicker_def secDuration_small)

lemma retention_ticker_ok: "newTicker (retentionTicks s) = Inr ()"
  by (simp add: newTicker_def retentionTicks_def second_def)

end
