(* ===== verification/Job_Map.thy ===== *)
theory Job_Map
  imports Job_Service
begin

text \<open>
  What the job service promises its clients: the jobs behave as a map from ids to jobs. The
  interface \<open>entity_store\<close> states the laws of the four operations over any state, and shows that a
  sequence of them has the effect of the same sequence on a map; the interpretation discharges the
  laws for the operations of \<open>internal/service/job_service.go\<close> over the table of jobs.
\<close>

section \<open>The interface\<close>

datatype 'a map_op = Put int 'a | Replace int 'a | Drop int | Look int 'a

text \<open>The abstract operations. \<open>allowed\<close>: when the abstract store has the operation succeed.\<close>

fun mapOp :: "'a map_op \<Rightarrow> (int \<Rightarrow> 'a option) \<Rightarrow> int \<Rightarrow> 'a option" where
  "mapOp (Put i x) m = m(i \<mapsto> x)"
| "mapOp (Replace i x) m = m(i \<mapsto> x)"
| "mapOp (Drop i) m = m(i := None)"
| "mapOp (Look i x) m = m"

fun allowed :: "'a map_op \<Rightarrow> (int \<Rightarrow> 'a option) \<Rightarrow> bool" where
  "allowed (Put i x) m = (m i = None)"
| "allowed (Replace i x) m = (m i \<noteq> None)"
| "allowed (Drop i) m = True"
| "allowed (Look i x) m = (m i = Some x)"

fun allAllowed :: "'a map_op list \<Rightarrow> (int \<Rightarrow> 'a option) \<Rightarrow> bool" where
  "allAllowed [] m = True"
| "allAllowed (p # ps) m = (allowed p m \<and> allAllowed ps (mapOp p m))"

fun_cases allAllowed_ConsE: "allAllowed (p # ps) m"

locale entity_store =
  fixes view :: "'s \<Rightarrow> int \<Rightarrow> 'a option"
    and perform :: "'s \<Rightarrow> 'a map_op \<Rightarrow> 's \<Rightarrow> bool"
  assumes perform_allowed: "perform s p t \<Longrightarrow> allowed p (view s)"
    and perform_view: "perform s p t \<Longrightarrow> view t = mapOp p (view s)"
begin

inductive performs :: "'s \<Rightarrow> 'a map_op list \<Rightarrow> 's \<Rightarrow> bool" where
  performs_nil: "performs s [] s"
| performs_cons: "perform s p t \<Longrightarrow> performs t ps u \<Longrightarrow> performs s (p # ps) u"

inductive_cases performs_ConsE: "performs s (p # ps) u"
inductive_simps performs_Nil: "performs s [] u"

text \<open>The simulation: whatever the store does, the map can do, with the same answers.\<close>

lemma performs_refines:
  "performs s ps t \<Longrightarrow> allAllowed ps (view s) \<and> view t = fold mapOp ps (view s)"
proof (induction rule: performs.induct)
  case (performs_cons s p t ps u)
  with perform_allowed [OF performs_cons.hyps(1)] perform_view [OF performs_cons.hyps(1)]
  show ?case by simp
qed simp

lemma look_after_put:
  assumes "performs s [Put i x, Look i y] t"
  shows "y = x"
proof -
  from performs_refines [OF assms] have "allAllowed [Put i x, Look i y] (view s)" ..
  then show ?thesis by (elim allAllowed_ConsE) simp
qed

lemma no_look_after_drop: "\<not> performs s [Drop i, Look i y] t"
proof
  assume "performs s [Drop i, Look i y] t"
  from performs_refines [OF this] have "allAllowed [Drop i, Look i y] (view s)" ..
  then show False by (elim allAllowed_ConsE) simp
qed

end

section \<open>The table of jobs\<close>

definition jobsView :: "db \<Rightarrow> int \<Rightarrow> job option" where
  "jobsView d i =
     (case tFind jr_id i (dbJobs d) of None \<Rightarrow> None
      | Some r \<Rightarrow> (case scanJob r of Inl e \<Rightarrow> None | Inr j \<Rightarrow> Some j))"

text \<open>One successful call of the service on a database that satisfies its schema, in years that a
  column can hold.\<close>

fun serviceDoes :: "cron_lib \<Rightarrow> timeout_policy \<Rightarrow> job map_op \<Rightarrow> world \<Rightarrow> world \<Rightarrow> bool" where
  "serviceDoes lib p (Put i j) w w' =
     (jobID j = i \<and> jobTimesOk j \<and> (\<exists>inp. CreateJob lib p inp w = (Inr j, w')))"
| "serviceDoes lib p (Replace i j) w w' =
     (jobTimesOk j \<and> (\<exists>inp. UpdateJob lib p i inp w = (Inr j, w')))"
| "serviceDoes lib p (Drop i) w w' = (DeleteJob i w = (Inr (), w'))"
| "serviceDoes lib p (Look i j) w w' = (GetJob i w = (Inr j, w'))"

lemma tFind_filter_neq:
  "tFind key i (filter (\<lambda>r. key r \<noteq> k) rs) = (if i = k then None else tFind key i rs)"
  by (induction rs) (auto simp: tFind_def)

lemma jobsUpdate_Inr:
  assumes "jobsUpdate job w = (Inr j, w')"
  shows "jobID j = jobID job" and "jobCreatedAt j = jobCreatedAt job" and "jobLastScheduledAt j = jobLastScheduledAt job"
    and "wDb w' = (wDb w)\<lparr>dbJobs := tUpdate (\<lambda>x. jr_id x = jobID job)
      (\<lambda>x. (jobRow j)\<lparr>jr_id := jr_id x, jr_created_at := jr_created_at x\<rparr>) (dbJobs (wDb w))\<rparr>"
proof -
  let ?job = "if jobTimezone job = [] then job\<lparr>jobTimezone := ''UTC''\<rparr> else job"
  from assms obtain now u d where j: "j = ?job\<lparr>jobUpdatedAt := now\<rparr>"
    and up: "updateJobRow (jobID ?job) (jobRow j) (wDb w) = (Inr u, d)" and d: "wDb w' = d"
    by (auto simp: jobsUpdate_def io_Inr Let_def simp del: sourceTypeIsValid_def split: if_splits)
  have id: "jobID ?job = jobID job" by simp
  from j show "jobID j = jobID job" "jobCreatedAt j = jobCreatedAt job" "jobLastScheduledAt j = jobLastScheduledAt job" by simp_all
  from up d show "wDb w' = (wDb w)\<lparr>dbJobs := tUpdate (\<lambda>x. jr_id x = jobID job)
      (\<lambda>x. (jobRow j)\<lparr>jr_id := jr_id x, jr_created_at := jr_created_at x\<rparr>) (dbJobs (wDb w))\<rparr>"
    unfolding id by (auto simp: updateJobRow_def split: if_splits)
qed

text \<open>What an update writes back of the job it read, whatever the row holds by then.\<close>

lemma updateWrite_Inr:
  assumes "updateWrite lib i x e w = (Inr j, w')"
  shows "jobID j = i" and "jobCreatedAt j = jobCreatedAt e" and "jobLastScheduledAt j = jobLastScheduledAt e"
    and "wDb w' = (wDb w)\<lparr>dbJobs := tUpdate (\<lambda>x. jr_id x = i)
      (\<lambda>x. (jobRow j)\<lparr>jr_id := jr_id x, jr_created_at := jr_created_at x\<rparr>) (dbJobs (wDb w))\<rparr>"
proof -
  from assms obtain n w3 where u: "jobsUpdate (x\<lparr>jobID := i, jobCreatedAt := jobCreatedAt e, jobLastScheduledAt := jobLastScheduledAt e,
        jobUpdatedAt := wClock w (wTicks w), jobNextRunAt := Some n\<rparr>) (w\<lparr>wTicks := Suc (wTicks w)\<rparr>) = (Inr j, w3)"
    and w': "w' = w3\<lparr>wDueWakeup := True\<rparr>"
    by (auto simp: updateWrite_def io_Inr Let_def)
  note up = jobsUpdate_Inr [OF u]
  show "jobID j = i" "jobCreatedAt j = jobCreatedAt e" "jobLastScheduledAt j = jobLastScheduledAt e"
    "wDb w' = (wDb w)\<lparr>dbJobs := tUpdate (\<lambda>x. jr_id x = i)
      (\<lambda>x. (jobRow j)\<lparr>jr_id := jr_id x, jr_created_at := jr_created_at x\<rparr>) (dbJobs (wDb w))\<rparr>"
    using up w' by simp_all
qed

lemma UpdateJob_Inr:
  assumes "UpdateJob lib p i inp w = (Inr j, w')"
  obtains r e where "tFind jr_id i (dbJobs (wDb w)) = Some r" and "scanJob r = Inr e"
    and "jobID j = i" and "jobCreatedAt j = jobCreatedAt e"
    and "wDb w' = (wDb w)\<lparr>dbJobs := tUpdate (\<lambda>x. jr_id x = i)
      (\<lambda>x. (jobRow j)\<lparr>jr_id := jr_id x, jr_created_at := jr_created_at x\<rparr>) (dbJobs (wDb w))\<rparr>"
proof -
  from assms obtain x e w1 where g: "jobsGet i w = (Inr e, w1)" and u: "updateWrite lib i x e w1 = (Inr j, w')"
    by (auto simp: UpdateJob_def bindIO_Inr liftRes_Inr)
  from g obtain r where r: "tFind jr_id i (dbJobs (wDb w)) = Some r" "scanJob r = Inr e" and d1: "wDb w1 = wDb w"
    by (auto simp: jobsGet_Inr)
  show thesis
    by (rule that [OF r]) (use updateWrite_Inr [OF u] d1 in simp_all)
qed

lemma scanJob_created: "scanJob r = Inr e \<Longrightarrow> decodeTime (jr_created_at r) = Inr (jobCreatedAt e)"
  by (auto simp: scanJob_def bind_ok_Inr)

text \<open>The row of an update keeps the text of the creation time, which is that of the job read.\<close>

lemma scanJob_replaced:
  assumes "scanJob r = Inr e" and "jobTimesOk j" and "jobCreatedAt j = jobCreatedAt e" and "jobID j = jr_id r"
  shows "scanJob ((jobRow j)\<lparr>jr_id := jr_id r, jr_created_at := jr_created_at r\<rparr>) = Inr j"
  using assms(2-4) scanJob_created [OF assms(1)]
  by (simp add: jobTimesOk_def scanJob_def jobRow_def column_time.dec_enc)

lemma tFind_single: "tFind jr_id i [jobRow j] = (if i = jobID j then Some (jobRow j) else None)"
  by (simp add: tFind_def)

lemma jobsView_Put:
  assumes "dbWf d" and "jobID j = dbJobSeq d + 1" and "jobTimesOk j"
    and "d' = d\<lparr>dbJobs := dbJobs d @ [jobRow j], dbJobSeq := dbJobSeq d + 1\<rparr>"
  shows "jobsView d (jobID j) = None" and "jobsView d' = (jobsView d)(jobID j \<mapsto> j)"
proof -
  have fresh: "tFind jr_id (jobID j) (dbJobs d) = None"
    using assms(1,2) by (force simp: tFind_None dbWf_def jobsWf_def)
  then show "jobsView d (jobID j) = None" by (simp add: jobsView_def)
  show "jobsView d' = (jobsView d)(jobID j \<mapsto> j)"
  proof
    fix i
    show "jobsView d' i = ((jobsView d)(jobID j \<mapsto> j)) i"
      using fresh scanJob_jobRow [OF assms(3)] assms(4) tFind_single [of i j]
      by (cases "i = jobID j") (auto simp: jobsView_def tFind_append split: option.split)
  qed
qed

lemma jobsView_Replace:
  assumes "tFind jr_id i (dbJobs d) = Some r" and "scanJob r = Inr e" and "jobID j = i"
    and "jobCreatedAt j = jobCreatedAt e" and "jobTimesOk j"
    and "d' = d\<lparr>dbJobs := tUpdate (\<lambda>x. jr_id x = i)
      (\<lambda>x. (jobRow j)\<lparr>jr_id := jr_id x, jr_created_at := jr_created_at x\<rparr>) (dbJobs d)\<rparr>"
  shows "jobsView d i \<noteq> None" and "jobsView d' = (jobsView d)(i \<mapsto> j)"
proof -
  show "jobsView d i \<noteq> None" using assms(1,2) by (simp add: jobsView_def)
  have t: "tFind jr_id k (dbJobs d') = map_option (\<lambda>x. if jr_id x = i
      then (jobRow j)\<lparr>jr_id := jr_id x, jr_created_at := jr_created_at x\<rparr> else x) (tFind jr_id k (dbJobs d))" for k
    using assms(6) by (simp add: tFind_tUpdate)
  have ri: "jr_id r = i" using tFind_Some [OF assms(1)] by simp
  show "jobsView d' = (jobsView d)(i \<mapsto> j)"
  proof
    fix k
    show "jobsView d' k = ((jobsView d)(i \<mapsto> j)) k"
      using scanJob_replaced [OF assms(2,5,4)] assms(1,3) ri t [of k] tFind_Some [of jr_id k "dbJobs d"]
      by (cases "k = i") (auto simp: jobsView_def split: option.split)
  qed
qed

lemma jobsView_Drop:
  assumes "DeleteJob i w = (Inr u, w')"
  shows "jobsView (wDb w') = (jobsView (wDb w))(i := None)"
  using assms by (auto simp: DeleteJob_def jobsDelete_def io_Inr deleteJobRow_def Let_def jobsView_def
      tFind_filter_neq fun_eq_iff)

text \<open>One call of the service, from the database it finds to the one it leaves.\<close>

definition serviceCall :: "db \<Rightarrow> job map_op \<Rightarrow> db \<Rightarrow> bool" where
  "serviceCall d c d' \<longleftrightarrow> dbWf d
     \<and> (\<exists>lib p w w'. wDb w = d \<and> wDb w' = d' \<and> serviceDoes lib p c w w')"

lemma serviceCall_map:
  assumes "serviceCall d c d'"
  shows "allowed c (jobsView d) \<and> jobsView d' = mapOp c (jobsView d)"
proof -
  from assms obtain lib p w w' where wf: "dbWf (wDb w)" and d: "wDb w = d" "wDb w' = d'"
    and s: "serviceDoes lib p c w w'" unfolding serviceCall_def by blast
  show ?thesis
  proof (cases c)
    case (Put i j)
    with s obtain inp where i: "jobID j = i" "jobTimesOk j" and c: "CreateJob lib p inp w = (Inr j, w')" by auto
    from c obtain "jobID j = dbJobSeq (wDb w) + 1"
      "wDb w' = (wDb w)\<lparr>dbJobs := dbJobs (wDb w) @ [jobRow j], dbJobSeq := dbJobSeq (wDb w) + 1\<rparr>"
      by (rule CreateJob_Inr)
    from jobsView_Put [OF wf this(1) i(2) this(2)] show ?thesis using Put i(1) d by simp
  next
    case (Replace i j)
    with s obtain inp where t: "jobTimesOk j" and c: "UpdateJob lib p i inp w = (Inr j, w')" by auto
    from c show ?thesis
      by (rule UpdateJob_Inr) (use jobsView_Replace t Replace d in auto)
  next
    case (Drop i)
    with s d jobsView_Drop show ?thesis by auto
  next
    case (Look i j)
    with s have "jobsGet i w = (Inr j, w')" by (simp add: GetJob_def)
    then show ?thesis using Look d by (auto simp: jobsGet_Inr jobsView_def)
  qed
qed

interpretation jobStore: entity_store jobsView serviceCall
  by unfold_locales (auto dest: serviceCall_map)

end
