(* ===== verification/Http_Api.thy ===== *)
theory Http_Api
  imports Job_Map Run_Service Image_Remote
begin

text \<open>
  \<open>internal/api/handler\<close>: the handlers of the REST API. The framework hands a handler its path and
  query parameters and the decoded JSON body, and sends what the handler replies: a status and a
  body, here a datatype with one constructor per shape of body. The texts of errors that the
  libraries produce are not theirs. The lemmas give the status of each reply by what happened.
\<close>

section \<open>Bodies\<close>

record job_request =
  rqName :: string
  rqDescription :: "string option"
  rqEnabled :: bool
  rqSourceType :: source_type
  rqImageRef :: string
  rqImageDigest :: "string option"
  rqScheduleType :: schedule_type
  rqScheduleExpr :: "string option"
  rqIntervalSec :: "int option"
  rqParams :: string
  rqConcurrencyPolicy :: concurrency_policy
  rqRetryLimit :: int
  rqTimeoutSec :: "int option"
  rqTimezone :: string

record job_response =
  rsID :: int
  rsName :: string
  rsDescription :: "string option"
  rsEnabled :: bool
  rsSourceType :: source_type
  rsImageRef :: string
  rsImageDigest :: "string option"
  rsScheduleType :: schedule_type
  rsScheduleExpr :: "string option"
  rsIntervalSec :: "int option"
  rsParams :: "string option"
  rsTimezone :: string
  rsConcurrencyPolicy :: concurrency_policy
  rsRetryLimit :: int
  rsTimeoutSec :: int
  rsNextRunAt :: "time option"
  rsLastScheduledAt :: "time option"
  rsCreatedAt :: time
  rsUpdatedAt :: time

text \<open>\<open>runResponse\<close> and \<open>runEventResponse\<close> have the fields of the model's run and event.\<close>

type_synonym run_response = run
type_synonym run_event_response = run_event

record log_response =
  lrRunID :: int
  lrOffset :: int
  lrSize :: int
  lrContent :: string

record result_response =
  rtJobID :: int
  rtRunID :: int
  rtImageRef :: string
  rtPullRef :: string
  rtImageDigest :: "string option"
  rtExitCode :: int
  rtMessage :: string
  rtFinishedAt :: time

record 'a list_response =
  ltItems :: "'a list"
  ltTotal :: int
  ltPage :: int
  ltSize :: int

datatype body =
    NoBody
  | ErrorBody string
  | JobBody job_response
  | RunBody run_response
  | JobsBody "job_response list_response"
  | RunsBody "run_response list_response"
  | EventsBody "run_event_response list_response"
  | LogBody log_response
  | ResultBody result_response
  | CandidatesBody "candidate list" int
  | CandidateBody candidate

record reply =
  hrStatus :: int
  hrBody :: body

type_synonym handler = "world \<Rightarrow> reply \<times> world"

definition json :: "int \<Rightarrow> body \<Rightarrow> reply" where
  "json st b = \<lparr>hrStatus = st, hrBody = b\<rparr>"

definition badRequest :: "goerr \<Rightarrow> reply" where "badRequest e = json 400 (ErrorBody (errorText e))"
definition notFound :: "goerr \<Rightarrow> reply" where "notFound e = json 404 (ErrorBody (errorText e))"
definition internalError :: "goerr \<Rightarrow> reply" where "internalError e = json 500 (ErrorBody (errorText e))"

text \<open>A handler that calls an operation of a service, and how it replies to either outcome.\<close>

definition answering :: "'a io \<Rightarrow> (goerr \<Rightarrow> reply) \<Rightarrow> ('a \<Rightarrow> reply) \<Rightarrow> handler" where
  "answering m onErr onOk = (\<lambda>w. case m w of (Inl e, w') \<Rightarrow> (onErr e, w') | (Inr x, w') \<Rightarrow> (onOk x, w'))"

definition replying :: "reply \<Rightarrow> handler" where "replying r = (\<lambda>w. (r, w))"

section \<open>Parameters\<close>

text \<open>The error of \<open>strconv.ParseInt\<close>: a number that does not fit, or no number.\<close>

definition intSyntax :: "string \<Rightarrow> bool" where
  "intSyntax s \<longleftrightarrow> (let ds = (case s of [] \<Rightarrow> [] | c # r \<Rightarrow> if c = CHR ''-'' \<or> c = CHR ''+'' then r else s)
     in ds \<noteq> [] \<and> list_all isDigit ds)"

definition parseIntErr :: "string \<Rightarrow> string \<Rightarrow> goerr" where
  "parseIntErr fn s = Wrapf (''strconv.'' @ fn @ '': parsing '' @ quoteStr s)
     (Errorf (if intSyntax s then ''value out of range'' else ''invalid syntax''))"

definition parseIntParam :: "string \<Rightarrow> goerr + int" where
  "parseIntParam value = (case parseInt64 value of Some n \<Rightarrow> Inr n | None \<Rightarrow> Inl (parseIntErr ''ParseInt'' value))"

definition positiveOr :: "int \<Rightarrow> string \<Rightarrow> int" where
  "positiveOr d v = (case parseInt64 v of Some n \<Rightarrow> if 0 < n then n else d | None \<Rightarrow> d)"

definition parsePageQuery :: "(string \<Rightarrow> string) \<Rightarrow> int \<times> int" where
  "parsePageQuery query =
     (if query ''page'' \<noteq> [] then positiveOr 1 (query ''page'') else 1,
      if query ''size'' \<noteq> [] then positiveOr 20 (query ''size'') else 20)"

definition parseBoolPtr :: "string \<Rightarrow> goerr + bool option" where
  "parseBoolPtr value =
     (if value = [] then Inr None
      else if value = ''true'' then Inr (Some True)
      else if value = ''false'' then Inr (Some False)
      else Inl (Errorf ''invalid syntax''))"

definition parseInt64Default :: "string \<Rightarrow> int \<Rightarrow> int" where
  "parseInt64Default value fallback =
     (if value = [] then fallback else case parseInt64 value of None \<Rightarrow> fallback | Some n \<Rightarrow> n)"

definition optText :: "string \<Rightarrow> string option" where
  "optText v = (if v = [] then None else Some v)"

text \<open>An optional time in a query, with the reply where it is no time.\<close>

definition parseTimeQuery :: "string \<Rightarrow> string \<Rightarrow> goerr + time option" where
  "parseTimeQuery name value =
     (if value = [] then Inr None
      else case parseRFC3339 value of
        Some t \<Rightarrow> Inr (Some t)
      | None \<Rightarrow> Inl (Wrapf (''invalid '' @ name) (Errorf (''parsing time '' @ quoteStr value))))"

text \<open>\<open>parseIntParam\<close> of the named path parameter, then the rest of the handler.\<close>

definition withID :: "string \<Rightarrow> (string \<Rightarrow> string) \<Rightarrow> (int \<Rightarrow> handler) \<Rightarrow> handler" where
  "withID name param f =
     (case parseIntParam (param name) of
        Inl e \<Rightarrow> replying (badRequest (Wrapf (''invalid '' @ name) e))
      | Inr i \<Rightarrow> f i)"

section \<open>Responses\<close>

definition rawJSON :: "string option \<Rightarrow> string option" where
  "rawJSON v = (case v of None \<Rightarrow> None | Some s \<Rightarrow> if s = [] then None else Some s)"

definition toJobResponse :: "job \<Rightarrow> job_response" where
  "toJobResponse j =
     \<lparr>rsID = jobID j, rsName = jobName j, rsDescription = jobDescription j, rsEnabled = jobEnabled j,
      rsSourceType = jobSourceType j, rsImageRef = jobImageRef j, rsImageDigest = jobImageDigest j,
      rsScheduleType = jobScheduleType j, rsScheduleExpr = jobScheduleExpr j, rsIntervalSec = jobIntervalSec j,
      rsParams = rawJSON (jobParamsJSON j), rsTimezone = jobTimezone j,
      rsConcurrencyPolicy = jobConcurrencyPolicy j, rsRetryLimit = jobRetryLimit j,
      rsTimeoutSec = jobTimeoutSec j, rsNextRunAt = jobNextRunAt j, rsLastScheduledAt = jobLastScheduledAt j,
      rsCreatedAt = jobCreatedAt j, rsUpdatedAt = jobUpdatedAt j\<rparr>"

definition toRunResponse :: "run \<Rightarrow> run_response" where
  "toRunResponse r =
     \<lparr>runID = runID r, runJobID = runJobID r, runScheduledAt = runScheduledAt r, runStartedAt = runStartedAt r,
      runFinishedAt = runFinishedAt r, runStatus = runStatus r, runAttempt = runAttempt r,
      runExitCode = runExitCode r, runErrorMessage = runErrorMessage r, runLogPath = runLogPath r,
      runResultPath = runResultPath r, runCreatedAt = runCreatedAt r, runUpdatedAt = runUpdatedAt r\<rparr>"

definition runEventToResponse :: "run_event \<Rightarrow> run_event_response" where
  "runEventToResponse e =
     \<lparr>evID = evID e, evRunID = evRunID e, evEventType = evEventType e, evMessage = evMessage e,
      evCreatedAt = evCreatedAt e\<rparr>"

definition jobInputFromRequest :: "job_request \<Rightarrow> job_input" where
  "jobInputFromRequest req =
     \<lparr>inName = rqName req, inDescription = rqDescription req, inEnabled = rqEnabled req,
      inSourceType = rqSourceType req, inImageRef = rqImageRef req, inImageDigest = rqImageDigest req,
      inScheduleType = rqScheduleType req, inScheduleExpr = rqScheduleExpr req, inIntervalSec = rqIntervalSec req,
      inParamsJSON = (if rqParams req = [] then None else Some (rqParams req)),
      inConcurrencyPolicy = rqConcurrencyPolicy req, inRetryLimit = rqRetryLimit req,
      inTimeoutSec = rqTimeoutSec req, inTimezone = rqTimezone req\<rparr>"

section \<open>Jobs\<close>

definition hListJobs :: "(string \<Rightarrow> string) \<Rightarrow> handler" where
  "hListJobs query =
     (let (page, size) = parsePageQuery query in
      case parseBoolPtr (query ''enabled'') of
        Inl e \<Rightarrow> replying (badRequest (Wrapf ''invalid enabled query'' e))
      | Inr enabled \<Rightarrow>
          answering (ListJobs \<lparr>jfEnabled = enabled, jfScheduleType = optText (query ''scheduleType''), jfName = query ''name''\<rparr>
                       \<lparr>pagePage = page, pageSize = size\<rparr>)
            internalError
            (\<lambda>(jobs, n). json 200 (JobsBody \<lparr>ltItems = map toJobResponse jobs, ltTotal = n, ltPage = page, ltSize = size\<rparr>)))"

definition jobNotFound :: "int \<Rightarrow> goerr \<Rightarrow> reply" where
  "jobNotFound i e = (if errorsIs e ErrNoRows then notFound (Errorf (''job '' @ itoa i @ '' not found'')) else internalError e)"

definition hGetJob :: "(string \<Rightarrow> string) \<Rightarrow> handler" where
  "hGetJob param = withID ''jobId'' param (\<lambda>i.
     answering (GetJob i) (jobNotFound i) (\<lambda>j. json 200 (JobBody (toJobResponse j))))"

definition validationOr500 :: "goerr \<Rightarrow> reply" where
  "validationOr500 e = (case asValidation e of Some (f, m) \<Rightarrow> badRequest (ValidationErr f m) | None \<Rightarrow> internalError e)"

text \<open>\<open>bound\<close> is what \<open>ShouldBindJSON\<close> returns for the body.\<close>

definition hCreateJob :: "cron_lib \<Rightarrow> timeout_policy \<Rightarrow> goerr + job_request \<Rightarrow> handler" where
  "hCreateJob lib p bound =
     (case bound of Inl e \<Rightarrow> replying (badRequest e)
      | Inr req \<Rightarrow> answering (CreateJob lib p (jobInputFromRequest req)) validationOr500
                    (\<lambda>j. json 201 (JobBody (toJobResponse j))))"

definition hUpdateJob :: "cron_lib \<Rightarrow> timeout_policy \<Rightarrow> (string \<Rightarrow> string) \<Rightarrow> goerr + job_request \<Rightarrow> handler" where
  "hUpdateJob lib p param bound = withID ''jobId'' param (\<lambda>i.
     case bound of Inl e \<Rightarrow> replying (badRequest e)
      | Inr req \<Rightarrow> answering (UpdateJob lib p i (jobInputFromRequest req)) validationOr500
                    (\<lambda>j. json 200 (JobBody (toJobResponse j))))"

definition hDeleteJob :: "(string \<Rightarrow> string) \<Rightarrow> handler" where
  "hDeleteJob param = withID ''jobId'' param (\<lambda>i.
     answering (DeleteJob i) internalError (\<lambda>_. json 204 NoBody))"

text \<open>The body of a trigger is bound only where there is one.\<close>

definition hTriggerJob :: "(string \<Rightarrow> string) \<Rightarrow> int \<Rightarrow> goerr + string option \<Rightarrow> handler" where
  "hTriggerJob param contentLength bound = withID ''jobId'' param (\<lambda>i.
     case (if 0 < contentLength then bound else Inr None) of
       Inl e \<Rightarrow> replying (badRequest e)
     | Inr reason \<Rightarrow> answering (TriggerJob i reason) (jobNotFound i) (\<lambda>r. json 201 (RunBody (toRunResponse r))))"

definition hListJobRuns :: "(string \<Rightarrow> string) \<Rightarrow> (string \<Rightarrow> string) \<Rightarrow> handler" where
  "hListJobRuns param query = withID ''jobId'' param (\<lambda>i.
     let (page, size) = parsePageQuery query in
     answering (ListJobRuns i (optText (query ''status'')) \<lparr>pagePage = page, pageSize = size\<rparr>) internalError
       (\<lambda>(runs, n). json 200 (RunsBody \<lparr>ltItems = map toRunResponse runs, ltTotal = n, ltPage = page, ltSize = size\<rparr>)))"

section \<open>Runs\<close>

definition runFilterOf :: "(string \<Rightarrow> string) \<Rightarrow> goerr + run_filter" where
  "runFilterOf query =
     bind_ok (if query ''jobId'' = [] then Inr None
              else case parseIntParam (query ''jobId'') of Inl e \<Rightarrow> Inl (Wrapf ''invalid jobId'' e) | Inr n \<Rightarrow> Inr (Some n)) (\<lambda>jobId.
     bind_ok (parseTimeQuery ''from'' (query ''from'')) (\<lambda>frm.
     bind_ok (parseTimeQuery ''to'' (query ''to'')) (\<lambda>till.
       Inr \<lparr>rfJobID = jobId, rfStatus = optText (query ''status''), rfFrom = frm, rfTo = till\<rparr>)))"

definition hListRuns :: "(string \<Rightarrow> string) \<Rightarrow> handler" where
  "hListRuns query =
     (let (page, size) = parsePageQuery query in
      case runFilterOf query of Inl e \<Rightarrow> replying (badRequest e)
      | Inr f \<Rightarrow> answering (ListRuns f \<lparr>pagePage = page, pageSize = size\<rparr>) internalError
          (\<lambda>(runs, n). json 200 (RunsBody \<lparr>ltItems = map toRunResponse runs, ltTotal = n, ltPage = page, ltSize = size\<rparr>)))"

definition runNotFound :: "int \<Rightarrow> goerr \<Rightarrow> reply" where
  "runNotFound i e = (if errorsIs e ErrNoRows then notFound (Errorf (''run '' @ itoa i @ '' not found'')) else internalError e)"

definition hGetRun :: "(string \<Rightarrow> string) \<Rightarrow> handler" where
  "hGetRun param = withID ''runId'' param (\<lambda>i.
     answering (GetRun i) (runNotFound i) (\<lambda>r. json 200 (RunBody (toRunResponse r))))"

definition hCancelRun :: "(string \<Rightarrow> string) \<Rightarrow> handler" where
  "hCancelRun param = withID ''runId'' param (\<lambda>i.
     answering (CancelRun i) internalError (\<lambda>r. json 200 (RunBody (toRunResponse r))))"

definition hListRunEvents :: "(string \<Rightarrow> string) \<Rightarrow> handler" where
  "hListRunEvents param = withID ''runId'' param (\<lambda>i.
     answering (ListRunEvents i) internalError
       (\<lambda>es. json 200 (EventsBody \<lparr>ltItems = map runEventToResponse es, ltTotal = int (length es), ltPage = 1, ltSize = int (length es)\<rparr>)))"

definition hGetRunLogs :: "(string \<Rightarrow> goerr + string) \<Rightarrow> (string \<Rightarrow> string) \<Rightarrow> (string \<Rightarrow> string) \<Rightarrow> handler" where
  "hGetRunLogs readFile param query = withID ''runId'' param (\<lambda>i.
     answering (ReadLogs readFile i (parseInt64Default (query ''offset'') 0) (parseInt64Default (query ''limit'') 0)
                  (parseInt64Default (query ''tail'') 0)) internalError
       (\<lambda>(content, start, size). json 200 (LogBody \<lparr>lrRunID = i, lrOffset = start, lrSize = size, lrContent = content\<rparr>)))"

definition emptyResult :: result_response where
  "emptyResult = \<lparr>rtJobID = 0, rtRunID = 0, rtImageRef = [], rtPullRef = [], rtImageDigest = None,
     rtExitCode = 0, rtMessage = [], rtFinishedAt = 0\<rparr>"

text \<open>\<open>readJSON\<close> is \<open>Reader.ReadJSON\<close> into a response.\<close>

definition hGetRunResult :: "(string \<Rightarrow> goerr + result_response) \<Rightarrow> (string \<Rightarrow> string) \<Rightarrow> handler" where
  "hGetRunResult readJSON param = withID ''runId'' param (\<lambda>i.
     answering (GetRun i) (runNotFound i)
       (\<lambda>r. case runResultPath r of None \<Rightarrow> json 200 (ResultBody emptyResult)
          | Some p \<Rightarrow> if p = [] then json 200 (ResultBody emptyResult)
              else case readJSON p of Inl e \<Rightarrow> internalError e | Inr res \<Rightarrow> json 200 (ResultBody res)))"

section \<open>Images\<close>

definition orSource :: "image_config \<Rightarrow> string \<Rightarrow> string" where
  "orSource cfg st = (if st = [] then resolverDefaultSource cfg else st)"

definition candidatesReply :: "goerr + candidate list \<Rightarrow> reply" where
  "candidatesReply r = (case r of Inl e \<Rightarrow> badRequest e | Inr cs \<Rightarrow> json 200 (CandidatesBody cs (int (length cs))))"

definition hListImages ::
  "image_config \<Rightarrow> (string \<Rightarrow> string \<Rightarrow> goerr + candidate list) \<Rightarrow> (string \<Rightarrow> string \<Rightarrow> goerr + candidate list)
   \<Rightarrow> (string \<Rightarrow> string) \<Rightarrow> reply" where
  "hListImages cfg loc rem query =
     candidatesReply (resolverListCandidates cfg loc rem (orSource cfg (query ''sourceType'')) (query ''q'') (query ''prefix''))"

definition hListImageCandidates ::
  "image_config \<Rightarrow> (string \<Rightarrow> string \<Rightarrow> goerr + candidate list) \<Rightarrow> (string \<Rightarrow> string \<Rightarrow> goerr + candidate list)
   \<Rightarrow> (string \<Rightarrow> string) \<Rightarrow> (string \<Rightarrow> string) \<Rightarrow> reply" where
  "hListImageCandidates cfg loc rem param query =
     candidatesReply (resolverListCandidates cfg loc rem (param ''sourceType'') (query ''q'') (query ''prefix''))"

definition errRequired :: "string \<Rightarrow> goerr" where
  "errRequired fld = Errorf (fld @ '' is required'')"

definition hResolveImage ::
  "image_config \<Rightarrow> (string \<Rightarrow> goerr + candidate) \<Rightarrow> (string \<Rightarrow> goerr + candidate) \<Rightarrow> (string \<Rightarrow> string) \<Rightarrow> reply" where
  "hResolveImage cfg loc rem query =
     (if query ''imageRef'' = [] then badRequest (errRequired ''imageRef'')
      else case resolverResolve cfg loc rem (orSource cfg (query ''sourceType'')) (query ''imageRef'') of
        Inl e \<Rightarrow> badRequest e | Inr c \<Rightarrow> json 200 (CandidateBody c))"

section \<open>What the replies say\<close>

lemma answering_cases:
  assumes "answering m onErr onOk w = (rp, w')"
  obtains (failed) e where "m w = (Inl e, w')" and "rp = onErr e"
    | (answered) x where "m w = (Inr x, w')" and "rp = onOk x"
  using assms by (auto simp: answering_def split: prod.splits sum.splits)

lemma reply_status [simp]:
  "hrStatus (json st b) = st" "hrBody (json st b) = b" "hrStatus (badRequest e) = 400"
  "hrStatus (notFound e) = 404" "hrStatus (internalError e) = 500"
  by (simp_all add: json_def badRequest_def notFound_def internalError_def)

lemma validationOr500_status: "hrStatus (validationOr500 e) = (if asValidation e = None then 500 else 400)"
  by (auto simp: validationOr500_def split: option.split)

text \<open>A creation replies 201 exactly where a job was created, with that job; every refusal leaves the
  database as it was, and replies 400 where the body or the job it describes is not valid.\<close>

lemma hCreateJob_cases:
  assumes "hCreateJob lib p b w = (rp, w')"
  obtains (created) req j where "b = Inr req" and "CreateJob lib p (jobInputFromRequest req) w = (Inr j, w')"
      and "hrStatus rp = 201" and "hrBody rp = JobBody (toJobResponse j)"
    | (refused) "wDb w' = wDb w" and "hrStatus rp = 400 \<or> hrStatus rp = 500"
      and "(\<exists>e. b = Inl e) \<or> (\<exists>req e. b = Inr req \<and> buildJob p (jobInputFromRequest req) = Inl e) \<Longrightarrow> hrStatus rp = 400"
proof (cases b)
  case (Inl e)
  with assms have "rp = badRequest e" "w' = w" by (auto simp: hCreateJob_def replying_def)
  then show thesis by (intro refused) simp_all
next
  case (Inr req)
  with assms have "answering (CreateJob lib p (jobInputFromRequest req)) validationOr500
      (\<lambda>j. json 201 (JobBody (toJobResponse j))) w = (rp, w')" by (simp add: hCreateJob_def)
  then show thesis
  proof (cases rule: answering_cases)
    case (failed e)
    have "asValidation e \<noteq> None" if "buildJob p (jobInputFromRequest req) = Inl d" for d
    proof -
      from that failed(1) have "e = d" by (auto simp: CreateJob_def bindIO_def liftRes_def)
      with buildJob_error [OF that] show ?thesis by auto
    qed
    with failed Inr CreateJob_Inl [OF failed(1)] show thesis by (intro refused) (auto simp: validationOr500_status)
  next
    case (answered j)
    with Inr show thesis by (intro created) simp_all
  qed
qed

text \<open>A job is read back as it was created.\<close>

lemma hGetJob_found:
  assumes "jobsView (wDb w) i = Some j" and "in_int64 i" and "\<not> wFault w (wCalls w)" and "param ''jobId'' = itoa i"
  shows "fst (hGetJob param w) = json 200 (JobBody (toJobResponse j))"
proof -
  from assms(1) obtain r where "tFind jr_id i (dbJobs (wDb w)) = Some r" "scanJob r = Inr j"
    by (auto simp: jobsView_def split: option.splits sum.splits)
  with assms(3) have "GetJob i w = (Inr j, w\<lparr>wCalls := Suc (wCalls w)\<rparr>)" by (auto simp: GetJob_def jobsGet_Inr)
  with assms(2,4) show ?thesis
    by (simp add: hGetJob_def withID_def parseIntParam_def parseInt64_itoa answering_def)
qed

definition responseTimesOk :: "job_response \<Rightarrow> bool" where
  "responseTimesOk rs \<longleftrightarrow> pred_option timeOk (rsNextRunAt rs) \<and> pred_option timeOk (rsLastScheduledAt rs)
     \<and> timeOk (rsCreatedAt rs) \<and> timeOk (rsUpdatedAt rs)"

lemma responseTimesOk_job: "responseTimesOk (toJobResponse j) = jobTimesOk j"
  by (simp add: responseTimesOk_def jobTimesOk_def toJobResponse_def)

lemma created_then_read:
  assumes "hCreateJob lib p b w = (rp, w1)" and "hrStatus rp = 201" and "dbWf (wDb w)"
    and "dbJobSeq (wDb w) < 9223372036854775807"
  obtains rs where "hrBody rp = JobBody rs" and "rsID rs = dbJobSeq (wDb w) + 1"
    and "\<And>(w2::world) param. responseTimesOk rs \<Longrightarrow> wDb w2 = wDb w1 \<Longrightarrow> \<not> wFault w2 (wCalls w2) \<Longrightarrow> param ''jobId'' = itoa (rsID rs)
      \<Longrightarrow> fst (hGetJob param w2) = json 200 (hrBody rp)"
  using assms(1)
proof (cases rule: hCreateJob_cases)
  case (created req j)
  from created(2) obtain i: "jobID j = dbJobSeq (wDb w) + 1"
    and d: "wDb w1 = (wDb w)\<lparr>dbJobs := dbJobs (wDb w) @ [jobRow j], dbJobSeq := dbJobSeq (wDb w) + 1\<rparr>"
    by (rule CreateJob_Inr)
  have id: "rsID (toJobResponse j) = jobID j" by (simp add: toJobResponse_def)
  show thesis
  proof (rule that [OF created(4)])
    show "rsID (toJobResponse j) = dbJobSeq (wDb w) + 1" by (simp add: id i)
  next
    fix w2 :: world and param :: "string \<Rightarrow> string"
    assume t: "responseTimesOk (toJobResponse j)" and w2: "wDb w2 = wDb w1" "\<not> wFault w2 (wCalls w2)"
      and q: "param ''jobId'' = itoa (rsID (toJobResponse j))"
    from jobsView_Put(2) [OF assms(3) i t [unfolded responseTimesOk_job] d]
    have "jobsView (wDb w2) (jobID j) = Some j" by (simp add: w2(1))
    moreover have "in_int64 (jobID j)" using assms(3,4) i by (simp add: in_int64_def dbWf_def)
    ultimately show "fst (hGetJob param w2) = json 200 (hrBody rp)"
      using hGetJob_found [of w2 "jobID j" j param] w2(2) q created(4) by (simp add: id)
  qed
next
  case refused
  with assms(2) show thesis by auto
qed

text \<open>What is not there: 404 to a reader and to a trigger, 500 to an update, a cancellation and a reader of the
  log, nothing to delete and no events; and the database stays as it is.\<close>

lemma jobsGet_missing:
  "tFind jr_id i (dbJobs (wDb w)) = None \<Longrightarrow> \<not> wFault w (wCalls w) \<Longrightarrow>
   jobsGet i w = (Inl ErrNoRows, w\<lparr>wCalls := Suc (wCalls w)\<rparr>)"
  and runsGet_missing:
  "tFind rr_id i (dbRuns (wDb w)) = None \<Longrightarrow> \<not> wFault w (wCalls w) \<Longrightarrow>
   runsGet i w = (Inl ErrNoRows, w\<lparr>wCalls := Suc (wCalls w)\<rparr>)"
  by (simp_all add: jobsGet_def runsGet_def queryDb_def execDb_def Let_def)

lemma missing_job_replies:
  assumes "tFind jr_id i (dbJobs (wDb w)) = None" and "\<not> wFault w (wCalls w)" and "parseIntParam (param ''jobId'') = Inr i"
  shows "map_prod hrStatus wDb (hGetJob param w) = (404, wDb w)"
    and "map_prod hrStatus wDb (hTriggerJob param 0 bound w) = (404, wDb w)"
    and "buildJob p (jobInputFromRequest req) = Inr j0 \<Longrightarrow> map_prod hrStatus wDb (hUpdateJob lib p param (Inr req) w) = (500, wDb w)"
proof -
  note g = jobsGet_missing [OF assms(1,2)]
  show "map_prod hrStatus wDb (hGetJob param w) = (404, wDb w)"
    by (simp add: hGetJob_def withID_def assms(3) answering_def GetJob_def g jobNotFound_def)
  show "map_prod hrStatus wDb (hTriggerJob param 0 bound w) = (404, wDb w)"
    by (simp add: hTriggerJob_def withID_def assms(3) answering_def TriggerJob_def bindIO_def g jobNotFound_def)
  show "map_prod hrStatus wDb (hUpdateJob lib p param (Inr req) w) = (500, wDb w)" if "buildJob p (jobInputFromRequest req) = Inr j0"
    using that by (simp add: hUpdateJob_def withID_def assms(3) answering_def UpdateJob_def bindIO_def liftRes_def g
        validationOr500_def)
qed

lemma missing_job_deleted:
  assumes "tFind jr_id i (dbJobs (wDb w)) = None" and "\<not> wFault w (wCalls w)" and "parseIntParam (param ''jobId'') = Inr i"
    and "dbWf (wDb w)"
  shows "map_prod hrStatus wDb (hDeleteJob param w) = (204, wDb w)"
proof -
  have none: "jr_id j \<noteq> i" if "j \<in> set (dbJobs (wDb w))" for j using assms(1) that by (auto simp: tFind_None)
  then have "rr_job_id r \<noteq> i" if "r \<in> set (dbRuns (wDb w))" for r
    using assms(4) that by (fastforce simp: dbWf_def runsWf_def)
  with none have "deleteJobRow i (wDb w) = (Inr (), wDb w)"
    by (simp add: deleteJobRow_def filter_id_conv filter_empty_conv)
  with assms(2) have "DeleteJob i w = (Inr (), w\<lparr>wCalls := Suc (wCalls w)\<rparr>)"
    by (simp add: DeleteJob_def jobsDelete_def mapErr_def execDb_def Let_def)
  then show ?thesis by (simp add: hDeleteJob_def withID_def assms(3) answering_def)
qed

lemma missing_run_replies:
  assumes "tFind rr_id i (dbRuns (wDb w)) = None" and "\<not> wFault w (wCalls w)" and "parseIntParam (param ''runId'') = Inr i"
  shows "map_prod hrStatus wDb (hGetRun param w) = (404, wDb w)"
    and "map_prod hrStatus wDb (hGetRunResult rj param w) = (404, wDb w)"
    and "map_prod hrStatus wDb (hCancelRun param w) = (500, wDb w)"
    and "map_prod hrStatus wDb (hGetRunLogs rf param query w) = (500, wDb w)"
proof -
  note g = runsGet_missing [OF assms(1,2)]
  show "map_prod hrStatus wDb (hGetRun param w) = (404, wDb w)" "map_prod hrStatus wDb (hGetRunResult rj param w) = (404, wDb w)"
    by (simp_all add: hGetRun_def hGetRunResult_def withID_def assms(3) answering_def GetRun_def g runNotFound_def)
  show "map_prod hrStatus wDb (hCancelRun param w) = (500, wDb w)" "map_prod hrStatus wDb (hGetRunLogs rf param query w) = (500, wDb w)"
    by (simp_all add: hCancelRun_def hGetRunLogs_def withID_def assms(3) answering_def CancelRun_def ReadLogs_def bindIO_def g)
qed

lemma missing_run_events:
  assumes "tFind rr_id i (dbRuns (wDb w)) = None" and "\<not> wFault w (wCalls w)" and "parseIntParam (param ''runId'') = Inr i"
    and "dbWf (wDb w)"
  shows "map_prod hrStatus wDb (hListRunEvents param w) = (200, wDb w)"
    and "hrBody (fst (hListRunEvents param w)) = EventsBody \<lparr>ltItems = [], ltTotal = 0, ltPage = 1, ltSize = 0\<rparr>"
proof -
  have "i \<notin> rr_id ` set (dbRuns (wDb w))" using assms(1) by (simp add: tFind_None)
  then have "er_run_id e \<noteq> i" if "e \<in> set (dbEvents (wDb w))" for e
    using assms(4) that by (auto simp: dbWf_def eventsWf_def)
  then have "selectEvents i (wDb w) = []" by (simp add: selectEvents_def filter_empty_conv)
  with assms(2) have "ListRunEvents i w = (Inr [], w\<lparr>wCalls := Suc (wCalls w)\<rparr>)"
    by (simp add: ListRunEvents_def ListByRun_def bindIO_def mapErr_def liftRes_def queryDb_def execDb_def Let_def)
  then show "map_prod hrStatus wDb (hListRunEvents param w) = (200, wDb w)"
    "hrBody (fst (hListRunEvents param w)) = EventsBody \<lparr>ltItems = [], ltTotal = 0, ltPage = 1, ltSize = 0\<rparr>"
    by (simp_all add: hListRunEvents_def withID_def assms(3) answering_def)
qed

text \<open>A cron expression that does not parse is no validation error: the reply is 500.\<close>

lemma bad_cron_expression_500:
  assumes "buildJob p (jobInputFromRequest req) = Inr j0" and "jobScheduleType j0 = ScheduleTypeCron"
    and "jobScheduleExpr j0 = Some expr" and "expr \<noteq> []" and "cronNext lib expr = Inl (Errorf msg)"
  shows "hrStatus (fst (hCreateJob lib p (Inr req) w)) = 500"
  using assms by (simp add: hCreateJob_def answering_def CreateJob_def bindIO_def liftRes_def timeNow_def
      serviceNextRunAt_def Let_def validationOr500_def)

lemma parsePageQuery_positive: "0 < fst (parsePageQuery q) \<and> 0 < snd (parsePageQuery q)"
  by (simp add: parsePageQuery_def positiveOr_def split: option.split)

end
