(* ===== verification/Web_UI.thy ===== *)
theory Web_UI
  imports Http_Api "HOL-Library.Signed_Division"
begin

text \<open>
  \<open>internal/api/ui/ui.go\<close>: the pages of the web interface. A page is the data its template is
  executed on; executing the embedded templates is the engine's part, which may fail before it
  writes. A handler finds its path and query parameters and the fields of its form as functions
  from names to values (empty where absent). The lemmas show what the pager promises, that the form
  reads back what it shows, and what each handler replies.
\<close>

section \<open>Pages\<close>

record page_meta =
  pmTitle :: string
  pmSubtitle :: string
  pmActiveNav :: string
  pmContentTemplate :: string

record pagination =
  pnPage :: int
  pnSize :: int
  pnTotal :: int
  pnTotalPages :: int
  pnHasPrev :: bool
  pnHasNext :: bool
  pnPrevPage :: int
  pnNextPage :: int

record job_list_filter =
  jlName :: string
  jlEnabled :: string
  jlScheduleType :: string

record jobs_list_page =
  lpMeta :: page_meta
  lpFilter :: job_list_filter
  lpJobs :: "job list"
  lpPagination :: pagination

record job_image_panel =
  ipSourceType :: string
  ipQuery :: string
  ipPrefix :: string
  ipImageRef :: string
  ipCandidates :: "candidate list"
  ipResolved :: "candidate option"
  ipError :: string

record job_form_page =
  fpMeta :: page_meta
  fpMode :: string
  fpJob :: job
  fpImage :: job_image_panel
  fpFieldErrors :: "(string \<times> string) option"
  fpError :: string

record job_detail_page =
  dpMeta :: page_meta
  dpJob :: job
  dpRecentRuns :: "run list"
  dpPagination :: pagination
  dpHasRecent :: bool

record run_list_filter =
  rlJobID :: string
  rlStatus :: string
  rlFrom :: string
  rlTo :: string

record run_list_item =
  riRun :: run
  riJobName :: string
  riCanCancel :: bool

record runs_list_page =
  npMeta :: page_meta
  npFilter :: run_list_filter
  npRuns :: "run_list_item list"
  npPagination :: pagination

record run_detail_page =
  qpMeta :: page_meta
  qpRun :: run
  qpJob :: "job option"
  qpEvents :: "run_event list"
  qpLogContent :: string
  qpLogOffset :: int
  qpLogSize :: int
  qpLogError :: string
  qpResultContent :: string
  qpCanCancel :: bool

record error_page =
  epMeta :: page_meta
  epMessage :: string

datatype ui_page =
    JobsListPage jobs_list_page
  | JobFormPage job_form_page
  | JobDetailPage job_detail_page
  | RunsListPage runs_list_page
  | RunDetailPage run_detail_page
  | ErrorPage error_page

section \<open>The functions of the templates\<close>

definition emDash :: string where "emDash = map char_of [226::nat, 128, 148]"

definition formatTime :: "time option \<Rightarrow> string" where
  "formatTime t = (case t of None \<Rightarrow> emDash
     | Some t \<Rightarrow> if t = 0 then emDash
         else dateText (t div second div 86400) @ '' '' @ clockText (t div second mod 86400) @ '' UTC'')"

definition formatCompactTime :: "time option \<Rightarrow> string" where
  "formatCompactTime t = (case t of None \<Rightarrow> emDash
     | Some t \<Rightarrow> if t = 0 then emDash
         else (let s = t div second; (y, m, d) = civilOfDays (s div 86400) in
           padInt 2 m @ ''-'' @ padInt 2 d @ '' '' @ padInt 2 (s mod 86400 div 3600)
             @ '':'' @ padInt 2 (s mod 86400 div 60 mod 60)))"

text \<open>The values the templates pass to \<open>formatValue\<close>; \<open>GoNil\<close> is a nil pointer.\<close>

datatype go_value = GoNil | GoString string | GoBool bool | GoInt int

definition formatValue :: "go_value \<Rightarrow> string" where
  "formatValue v = (case v of
       GoNil \<Rightarrow> emDash
     | GoString s \<Rightarrow> if trimSpace s = [] then emDash else s
     | GoBool b \<Rightarrow> if b then ''true'' else ''false''
     | GoInt n \<Rightarrow> itoa n)"

definition inputString :: "string option \<Rightarrow> string" where
  "inputString v = (case v of None \<Rightarrow> [] | Some s \<Rightarrow> s)"

definition inputInt :: "int option \<Rightarrow> string" where
  "inputInt v = (case v of None \<Rightarrow> [] | Some n \<Rightarrow> itoa n)"

definition statusClass :: "run_status \<Rightarrow> string" where
  "statusClass s =
     (if s = RunStatusSuccess then ''status status-success''
      else if s = RunStatusFailed \<or> s = RunStatusTimeout then ''status status-failed''
      else if s = RunStatusRunning \<or> s = RunStatusPending \<or> s = RunStatusCancelling then ''status status-warn''
      else if s = RunStatusCancelled \<or> s = RunStatusSkipped then ''status status-muted''
      else ''status'')"

text \<open>\<open>indent\<close> is \<open>json.Indent\<close> with two spaces, \<open>None\<close> where the text is no JSON.\<close>

definition jsonPretty :: "(string \<Rightarrow> string option) \<Rightarrow> string \<Rightarrow> string" where
  "jsonPretty indent raw =
     (if trimSpace raw = [] then emDash else case indent raw of None \<Rightarrow> raw | Some out \<Rightarrow> out)"

definition fieldErrorText :: "(string \<times> string) option \<Rightarrow> string \<Rightarrow> string" where
  "fieldErrorText errs name =
     (case errs of None \<Rightarrow> [] | Some (fld, msg) \<Rightarrow> if fld = name then msg else [])"

section \<open>Rendering\<close>

type_synonym engine = "ui_page \<Rightarrow> goerr option"

datatype ui_reply = Redirect int string | Html int ui_page | Blank int

fun metaOf :: "ui_page \<Rightarrow> page_meta" where
  "metaOf (JobsListPage p) = lpMeta p"
| "metaOf (JobFormPage p) = fpMeta p"
| "metaOf (JobDetailPage p) = dpMeta p"
| "metaOf (RunsListPage p) = npMeta p"
| "metaOf (RunDetailPage p) = qpMeta p"
| "metaOf (ErrorPage p) = epMeta p"

text \<open>Every page has the field the function looks for by reflection.\<close>

definition pageContentTemplateName :: "ui_page \<Rightarrow> string option" where
  "pageContentTemplateName p = Some (pmContentTemplate (metaOf p))"

definition renderPage :: "engine \<Rightarrow> int \<Rightarrow> ui_page \<Rightarrow> goerr + ui_reply" where
  "renderPage eng st p =
     (case pageContentTemplateName p of
        None \<Rightarrow> Inl (Errorf ''missing content template name'')
      | Some _ \<Rightarrow> (case eng p of Some e \<Rightarrow> Inl e | None \<Rightarrow> Inr (Html st p)))"

definition metaFor :: "string \<Rightarrow> string \<Rightarrow> string \<Rightarrow> string \<Rightarrow> page_meta" where
  "metaFor title subtitle nav tpl =
     \<lparr>pmTitle = title, pmSubtitle = subtitle, pmActiveNav = nav, pmContentTemplate = tpl\<rparr>"

definition renderError :: "engine \<Rightarrow> int \<Rightarrow> string \<Rightarrow> goerr \<Rightarrow> ui_reply" where
  "renderError eng st title err =
     (case renderPage eng st (ErrorPage \<lparr>epMeta = metaFor title ''Unable to load page'' [] ''error_content'',
             epMessage = errorText err\<rparr>) of
        Inl _ \<Rightarrow> Blank st | Inr r \<Rightarrow> r)"

definition renderOrError :: "engine \<Rightarrow> int \<Rightarrow> ui_page \<Rightarrow> ui_reply" where
  "renderOrError eng st p =
     (case renderPage eng st p of Inl e \<Rightarrow> renderError eng 500 ''UI render'' e | Inr r \<Rightarrow> r)"

section \<open>Queries, ids and pages\<close>

definition uiPageQuery :: "string \<Rightarrow> string \<Rightarrow> int \<times> int" where
  "uiPageQuery pageValue sizeValue =
     (case parseInt64 pageValue of Some n \<Rightarrow> if 0 < n then n else 1 | None \<Rightarrow> 1,
      case parseInt64 sizeValue of Some n \<Rightarrow> if 0 < n then n else 20 | None \<Rightarrow> 20)"

definition parseBoolQuery :: "string \<Rightarrow> bool option" where
  "parseBoolQuery value =
     (if value = [] then None
      else let v = toLower (trimSpace value) in
        if v \<in> set [''1'', ''true'', ''yes'', ''on''] then Some True
        else if v \<in> set [''0'', ''false'', ''no'', ''off''] then Some False
        else None)"

definition parseID :: "string \<Rightarrow> goerr + int" where
  "parseID value =
     (case parseInt64 value of Some n \<Rightarrow> Inr n | None \<Rightarrow> Inl (Wrapf ''invalid id'' (parseIntErr ''ParseInt'' value)))"

definition newPagination :: "int \<Rightarrow> int \<Rightarrow> int \<Rightarrow> pagination" where
  "newPagination pg sz tot =
     (let pg = (if pg \<le> 0 then 1 else pg); sz = (if sz \<le> 0 then 20 else sz);
          pages = (if 0 < tot then wrap64 (wrap64 (tot + sz) - 1) sdiv sz else 0)
      in \<lparr>pnPage = pg, pnSize = sz, pnTotal = tot, pnTotalPages = pages, pnHasPrev = 1 < pg,
          pnHasNext = (0 < pages \<and> pg < pages), pnPrevPage = max 1 (pg - 1), pnNextPage = wrap64 (pg + 1)\<rparr>)"

section \<open>The form of a job\<close>

definition newJobDraft :: job where
  "newJobDraft = zeroJob\<lparr>jobEnabled := True, jobSourceType := JobSourceTypeLocal,
     jobScheduleType := ScheduleTypeInterval, jobConcurrencyPolicy := ConcurrencyPolicyForbid,
     jobTimezone := ''UTC''\<rparr>"

definition parseIntFormDefault :: "string \<Rightarrow> int \<Rightarrow> int" where
  "parseIntFormDefault value fallback =
     (let v = trimSpace value in if v = [] then fallback
      else case parseInt64 v of None \<Rightarrow> fallback | Some n \<Rightarrow> n)"

definition parseIntFormPtr :: "string \<Rightarrow> int option" where
  "parseIntFormPtr value =
     (let v = trimSpace value in if v = [] then None
      else Some (case parseInt64 v of None \<Rightarrow> 0 | Some n \<Rightarrow> n))"

definition stringPtrOrNil :: "string \<Rightarrow> string option" where
  "stringPtrOrNil value = (if trimSpace value = [] then None else Some value)"

definition formInput :: "(string \<Rightarrow> string) \<Rightarrow> job_input" where
  "formInput form =
     (let params = trimSpace (form ''params'') in
      \<lparr>inName = trimSpace (form ''name''), inDescription = stringPtrOrNil (trimSpace (form ''description'')),
       inEnabled = (parseBoolQuery (form ''enabled'') = Some True),
       inSourceType = trimSpace (form ''sourceType''), inImageRef = trimSpace (form ''imageRef''),
       inImageDigest = None, inScheduleType = trimSpace (form ''scheduleType''), inScheduleExpr = None,
       inIntervalSec = None, inParamsJSON = (if params = [] then None else Some params),
       inConcurrencyPolicy = trimSpace (form ''concurrencyPolicy''),
       inRetryLimit = parseIntFormDefault (form ''retryLimit'') 0,
       inTimeoutSec = parseIntFormPtr (form ''timeoutSec''), inTimezone = trimSpace (form ''timezone'')\<rparr>)"

definition draftOf :: "job_input \<Rightarrow> job" where
  "draftOf i = newJobDraft\<lparr>jobName := inName i, jobDescription := inDescription i, jobEnabled := inEnabled i,
     jobSourceType := inSourceType i, jobImageRef := inImageRef i, jobImageDigest := inImageDigest i,
     jobScheduleType := inScheduleType i, jobScheduleExpr := inScheduleExpr i, jobIntervalSec := inIntervalSec i,
     jobTimezone := inTimezone i, jobConcurrencyPolicy := inConcurrencyPolicy i, jobRetryLimit := inRetryLimit i,
     jobTimeoutSec := (case inTimeoutSec i of None \<Rightarrow> jobTimeoutSec newJobDraft | Some t \<Rightarrow> t),
     jobParamsJSON := inParamsJSON i\<rparr>"

text \<open>The input, the draft the form shows again, and the error of an interval that is no number.\<close>

definition jobInputFromForm :: "(string \<Rightarrow> string) \<Rightarrow> job_input \<times> job \<times> goerr option" where
  "jobInputFromForm form =
     (let input = formInput form; draft = draftOf input; interval = trimSpace (form ''intervalSec'') in
      case (if interval = [] then Some None else map_option Some (parseInt64 interval)) of
        None \<Rightarrow> (input, draft, Some (ValidationErr ''intervalSec'' ''must be a number''))
      | Some n \<Rightarrow>
          let (input, draft) = (case n of None \<Rightarrow> (input, draft)
                 | Some n \<Rightarrow> (input\<lparr>inIntervalSec := Some n\<rparr>, draft\<lparr>jobIntervalSec := Some n\<rparr>));
              expr = trimSpace (form ''scheduleExpr'');
              (input, draft) = (if expr = [] then (input, draft)
                 else (input\<lparr>inScheduleExpr := Some expr\<rparr>, draft\<lparr>jobScheduleExpr := Some expr\<rparr>));
              digest = trimSpace (form ''imageDigest'');
              (input, draft) = (if digest = [] then (input, draft)
                 else (input\<lparr>inImageDigest := Some digest\<rparr>, draft\<lparr>jobImageDigest := Some digest\<rparr>))
          in (input, draft, None))"

text \<open>What \<open>templates/job_form.tmpl\<close> puts into the controls of the form for a job. A \<open>select\<close> with no
  option chosen sends its first one.\<close>

definition formOf :: "job \<Rightarrow> string \<Rightarrow> string" where
  "formOf j name =
     (if name = ''name'' then jobName j
      else if name = ''enabled'' then (if jobEnabled j then ''true'' else ''false'')
      else if name = ''sourceType'' then (if jobSourceType j = ''remote'' then ''remote'' else ''local'')
      else if name = ''imageRef'' then jobImageRef j
      else if name = ''scheduleType'' then (if jobScheduleType j = ''interval'' then ''interval'' else ''cron'')
      else if name = ''timezone'' then jobTimezone j
      else if name = ''scheduleExpr'' then inputString (jobScheduleExpr j)
      else if name = ''intervalSec'' then inputInt (jobIntervalSec j)
      else if name = ''concurrencyPolicy'' then (if jobConcurrencyPolicy j = ''allow'' then ''allow'' else ''forbid'')
      else if name = ''retryLimit'' then itoa (jobRetryLimit j)
      else if name = ''timeoutSec'' then itoa (jobTimeoutSec j)
      else if name = ''description'' then inputString (jobDescription j)
      else if name = ''params'' then inputString (jobParamsJSON j)
      else [])"

section \<open>The image panel\<close>

record ui_env =
  ueEngine :: engine
  ueImages :: image_config
  ueListCandidates :: "string \<Rightarrow> string \<Rightarrow> string \<Rightarrow> goerr + candidate list"
  ueResolve :: "string \<Rightarrow> string \<Rightarrow> goerr + candidate"
  ueReadLog :: "string \<Rightarrow> goerr + string"
  ueReadFile :: "string \<Rightarrow> goerr + string"
  ueIndent :: "string \<Rightarrow> string option"

definition buildImagePanel :: "ui_env \<Rightarrow> (string \<Rightarrow> string) \<Rightarrow> job \<Rightarrow> job_image_panel" where
  "buildImagePanel env query job =
     (let sourceType = trimSpace (query ''sourceType'');
          sourceType = (if sourceType = [] then jobSourceType job else sourceType);
          sourceType = (if sourceType = [] then resolverDefaultSource (ueImages env) else sourceType);
          q = trimSpace (query ''q''); pfx = trimSpace (query ''prefix'');
          imageRef = trimSpace (query ''imageRef'');
          imageRef = (if imageRef = [] then trimSpace (jobImageRef job) else imageRef);
          (cands, err) = (case ueListCandidates env sourceType q pfx of
             Inl e \<Rightarrow> ([], errorText e) | Inr cs \<Rightarrow> (take 20 cs, []));
          (res, err) = (if imageRef = [] then (None, err)
             else case ueResolve env sourceType imageRef of
               Inl e \<Rightarrow> (None, if err = [] then errorText e else err @ ''; '' @ errorText e)
             | Inr c \<Rightarrow> (Some c, err))
      in \<lparr>ipSourceType = sourceType, ipQuery = q, ipPrefix = pfx, ipImageRef = imageRef,
          ipCandidates = cands, ipResolved = res, ipError = err\<rparr>)"

section \<open>Handlers\<close>

type_synonym ui_handler = "world \<Rightarrow> ui_reply \<times> world"

definition respond :: "ui_reply \<Rightarrow> ui_handler" where "respond r = (\<lambda>w. (r, w))"

definition onResult :: "'a io \<Rightarrow> (goerr \<Rightarrow> ui_handler) \<Rightarrow> ('a \<Rightarrow> ui_handler) \<Rightarrow> ui_handler" where
  "onResult m onErr onOk = (\<lambda>w. case m w of (Inl e, w') \<Rightarrow> onErr e w' | (Inr x, w') \<Rightarrow> onOk x w')"

definition failWith :: "ui_env \<Rightarrow> int \<Rightarrow> string \<Rightarrow> goerr \<Rightarrow> ui_handler" where
  "failWith env st title e = respond (renderError (ueEngine env) st title e)"

definition uiWithID :: "ui_env \<Rightarrow> string \<Rightarrow> string \<Rightarrow> (int \<Rightarrow> ui_handler) \<Rightarrow> ui_handler" where
  "uiWithID env title value f =
     (case parseID value of Inl e \<Rightarrow> failWith env 400 title e | Inr i \<Rightarrow> f i)"

definition jobFilterOf :: "(string \<Rightarrow> string) \<Rightarrow> job_filter" where
  "jobFilterOf query = \<lparr>jfEnabled = parseBoolQuery (query ''enabled''),
     jfScheduleType = optText (trimSpace (query ''scheduleType'')), jfName = trimSpace (query ''name'')\<rparr>"

definition uiListJobs :: "ui_env \<Rightarrow> (string \<Rightarrow> string) \<Rightarrow> ui_handler" where
  "uiListJobs env query =
     (let (pageNum, size) = uiPageQuery (query ''page'') (query ''size''); flt = jobFilterOf query in
      onResult (ListJobs flt \<lparr>pagePage = pageNum, pageSize = size\<rparr>) (failWith env 500 ''Jobs'') (\<lambda>(jobs, tot).
        respond (case renderPage (ueEngine env) 200 (JobsListPage
            \<lparr>lpMeta = metaFor ''Jobs'' ''Registered jobs and their next run state'' ''jobs'' ''jobs_list_content'',
             lpFilter = \<lparr>jlName = jfName flt, jlEnabled = query ''enabled'', jlScheduleType = query ''scheduleType''\<rparr>,
             lpJobs = jobs, lpPagination = newPagination pageNum size tot\<rparr>) of
          Inl e \<Rightarrow> renderError (ueEngine env) 500 ''Jobs'' e | Inr r \<Rightarrow> r)))"

text \<open>The query may preset the image of the form.\<close>

definition withImageQuery :: "(string \<Rightarrow> string) \<Rightarrow> job \<Rightarrow> job" where
  "withImageQuery query job =
     (let imageRef = trimSpace (query ''imageRef''); sourceType = trimSpace (query ''sourceType'');
          job = (if imageRef = [] then job else job\<lparr>jobImageRef := imageRef\<rparr>)
      in if sourceType = [] then job else job\<lparr>jobSourceType := sourceType\<rparr>)"

definition formPage :: "ui_env \<Rightarrow> (string \<Rightarrow> string) \<Rightarrow> string \<Rightarrow> string \<Rightarrow> string \<Rightarrow> job \<Rightarrow> (string \<times> string) option \<Rightarrow> string \<Rightarrow> ui_page" where
  "formPage env query title subtitle mode job errs err =
     JobFormPage \<lparr>fpMeta = metaFor title subtitle ''jobs'' ''job_form_content'', fpMode = mode, fpJob = job,
       fpImage = buildImagePanel env query job, fpFieldErrors = errs, fpError = err\<rparr>"

definition newSubtitle :: string where "newSubtitle = ''Create a new scheduled task''"
definition editSubtitle :: string where "editSubtitle = ''Update the job configuration''"

definition editTitle :: "int \<Rightarrow> string" where
  "editTitle i = ''Edit Job #'' @ itoa i"

definition uiNewJob :: "ui_env \<Rightarrow> (string \<Rightarrow> string) \<Rightarrow> ui_handler" where
  "uiNewJob env query =
     (let job = withImageQuery query newJobDraft in
      respond (renderOrError (ueEngine env) 200 (formPage env query ''New Job'' newSubtitle ''create'' job None [])))"

definition uiEditJob :: "ui_env \<Rightarrow> (string \<Rightarrow> string) \<Rightarrow> (string \<Rightarrow> string) \<Rightarrow> ui_handler" where
  "uiEditJob env param query = uiWithID env ''Job edit'' (param ''jobId'') (\<lambda>i.
     onResult (GetJob i) (failWith env 404 ''Job edit'') (\<lambda>job.
       let job = withImageQuery query job in
       respond (renderOrError (ueEngine env) 200
         (formPage env query (editTitle (jobID job)) editSubtitle ''edit'' job None []))))"

definition jobValidationFields :: "goerr \<Rightarrow> (string \<times> string) option" where
  "jobValidationFields e =
     (case asValidation e of None \<Rightarrow> None | Some (f, m) \<Rightarrow> if f = [] then None else Some (f, m))"

definition renderJobForm :: "ui_env \<Rightarrow> (string \<Rightarrow> string) \<Rightarrow> string \<Rightarrow> string \<Rightarrow> string \<Rightarrow> job \<Rightarrow> goerr \<Rightarrow> ui_handler" where
  "renderJobForm env query title subtitle mode draft e =
     respond (renderOrError (ueEngine env) 400
       (formPage env query title subtitle mode draft (jobValidationFields e) (errorText e)))"

definition uiCreateJob :: "ui_env \<Rightarrow> cron_lib \<Rightarrow> timeout_policy \<Rightarrow> (string \<Rightarrow> string) \<Rightarrow> (string \<Rightarrow> string) \<Rightarrow> ui_handler" where
  "uiCreateJob env lib p query form =
     (let (input, draft, err) = jobInputFromForm form;
          again = renderJobForm env query ''New Job'' newSubtitle ''create'' draft in
      case err of Some e \<Rightarrow> again e
      | None \<Rightarrow> onResult (CreateJob lib p input) again (\<lambda>job.
          respond (Redirect 303 (''/jobs/'' @ itoa (jobID job)))))"

definition uiUpdateJob :: "ui_env \<Rightarrow> cron_lib \<Rightarrow> timeout_policy \<Rightarrow> (string \<Rightarrow> string) \<Rightarrow> (string \<Rightarrow> string) \<Rightarrow> (string \<Rightarrow> string) \<Rightarrow> ui_handler" where
  "uiUpdateJob env lib p param query form = uiWithID env ''Job edit'' (param ''jobId'') (\<lambda>i.
     let (input, draft, err) = jobInputFromForm form;
         again = renderJobForm env query (editTitle i) editSubtitle ''edit'' draft in
     case err of Some e \<Rightarrow> again e
     | None \<Rightarrow> onResult (UpdateJob lib p i input) again (\<lambda>job.
         respond (Redirect 303 (''/jobs/'' @ itoa (jobID job)))))"

definition uiDeleteJob :: "ui_env \<Rightarrow> (string \<Rightarrow> string) \<Rightarrow> ui_handler" where
  "uiDeleteJob env param = uiWithID env ''Job delete'' (param ''jobId'') (\<lambda>i.
     onResult (DeleteJob i) (failWith env 500 ''Job delete'') (\<lambda>_. respond (Redirect 303 ''/jobs'')))"

definition uiTriggerJob :: "ui_env \<Rightarrow> (string \<Rightarrow> string) \<Rightarrow> (string \<Rightarrow> string) \<Rightarrow> ui_handler" where
  "uiTriggerJob env param form = uiWithID env ''Job trigger'' (param ''jobId'') (\<lambda>i.
     onResult (TriggerJob i (optText (trimSpace (form ''reason'')))) (failWith env 500 ''Job trigger'') (\<lambda>run.
       respond (Redirect 303 (''/runs/'' @ itoa (runID run)))))"

definition uiJobDetail :: "ui_env \<Rightarrow> (string \<Rightarrow> string) \<Rightarrow> ui_handler" where
  "uiJobDetail env param = uiWithID env ''Job detail'' (param ''jobId'') (\<lambda>i.
     onResult (GetJob i) (failWith env 404 ''Job detail'') (\<lambda>job.
     onResult (ListJobRuns i None \<lparr>pagePage = 1, pageSize = 10\<rparr>) (failWith env 500 ''Job detail'') (\<lambda>(runs, tot).
       respond (renderOrError (ueEngine env) 200 (JobDetailPage
         \<lparr>dpMeta = metaFor (''Job #'' @ itoa (jobID job)) (jobName job) ''jobs'' ''job_detail_content'',
          dpJob = job, dpRecentRuns = runs, dpPagination = newPagination 1 10 tot,
          dpHasRecent = (0 < length runs)\<rparr>)))))"

section \<open>Runs\<close>

definition canCancel :: "run_status \<Rightarrow> bool" where
  "canCancel s \<longleftrightarrow> s = RunStatusPending \<or> s = RunStatusRunning \<or> s = RunStatusCancelling"

text \<open>A value of the query that does not parse is no filter.\<close>

definition uiRunFilter :: "(string \<Rightarrow> string) \<Rightarrow> run_filter" where
  "uiRunFilter query =
     (let jobId = trimSpace (query ''jobId''); frm = trimSpace (query ''from''); till = trimSpace (query ''to'') in
      \<lparr>rfJobID = (if jobId = [] then None else case parseID jobId of Inl _ \<Rightarrow> None | Inr n \<Rightarrow> Some n),
       rfStatus = optText (trimSpace (query ''status'')),
       rfFrom = (if frm = [] then None else parseRFC3339 frm),
       rfTo = (if till = [] then None else parseRFC3339 till)\<rparr>)"

fun runItems :: "run list \<Rightarrow> run_list_item list io" where
  "runItems [] = returnIO []"
| "runItems (r # rs) =
     bindIO (tryIO (GetJob (runJobID r))) (\<lambda>job.
     bindIO (runItems rs) (\<lambda>items.
       returnIO (\<lparr>riRun = r, riJobName = (case job of Inl _ \<Rightarrow> [] | Inr j \<Rightarrow> jobName j),
                  riCanCancel = canCancel (runStatus r)\<rparr> # items)))"

definition uiListRuns :: "ui_env \<Rightarrow> (string \<Rightarrow> string) \<Rightarrow> ui_handler" where
  "uiListRuns env query =
     (let (pageNum, size) = uiPageQuery (query ''page'') (query ''size'') in
      onResult (ListRuns (uiRunFilter query) \<lparr>pagePage = pageNum, pageSize = size\<rparr>) (failWith env 500 ''Runs'') (\<lambda>(runs, tot).
      onResult (runItems runs) (failWith env 500 ''Runs'') (\<lambda>items.
        respond (renderOrError (ueEngine env) 200 (RunsListPage
          \<lparr>npMeta = metaFor ''Runs'' ''Recent run history, live execution state, and direct cancellation control''
             ''runs'' ''runs_list_content'',
           npFilter = \<lparr>rlJobID = query ''jobId'', rlStatus = query ''status'', rlFrom = query ''from'', rlTo = query ''to''\<rparr>,
           npRuns = items, npPagination = newPagination pageNum size tot\<rparr>)))))"

definition jsonFromFile :: "ui_env \<Rightarrow> string \<Rightarrow> goerr + string" where
  "jsonFromFile env path =
     (case ueReadFile env path of Inl e \<Rightarrow> Inl e
      | Inr raw \<Rightarrow> Inr (case ueIndent env raw of None \<Rightarrow> raw | Some out \<Rightarrow> out))"

definition resultContent :: "ui_env \<Rightarrow> run \<Rightarrow> string" where
  "resultContent env run =
     (case runResultPath run of None \<Rightarrow> []
      | Some p \<Rightarrow> if p = [] then [] else case jsonFromFile env p of Inl _ \<Rightarrow> [] | Inr raw \<Rightarrow> raw)"

definition uiRunDetail :: "ui_env \<Rightarrow> (string \<Rightarrow> string) \<Rightarrow> ui_handler" where
  "uiRunDetail env param = uiWithID env ''Run detail'' (param ''runId'') (\<lambda>i.
     onResult (GetRun i) (failWith env 404 ''Run detail'') (\<lambda>run.
     onResult (tryIO (GetJob (runJobID run))) (failWith env 500 ''Run detail'') (\<lambda>job.
     onResult (ListRunEvents i) (failWith env 500 ''Run detail'') (\<lambda>events.
     onResult (tryIO (ReadLogs (ueReadLog env) i 0 0 8192)) (failWith env 500 ''Run detail'') (\<lambda>logs.
       let (content, offset, size, logErr) = (case logs of
             Inr (c, o', n) \<Rightarrow> (c, o', n, []) | Inl e \<Rightarrow> ([], 0, 0, errorText e)) in
       respond (renderOrError (ueEngine env) 200 (RunDetailPage
         \<lparr>qpMeta = metaFor (''Run #'' @ itoa (runID run)) (''Job #'' @ itoa (runJobID run)) ''runs'' ''run_detail_content'',
          qpRun = run, qpJob = (case job of Inl _ \<Rightarrow> None | Inr j \<Rightarrow> Some j), qpEvents = events,
          qpLogContent = content, qpLogOffset = offset, qpLogSize = size, qpLogError = logErr,
          qpResultContent = resultContent env run, qpCanCancel = canCancel (runStatus run)\<rparr>)))))))"

definition uiCancelRun :: "ui_env \<Rightarrow> (string \<Rightarrow> string) \<Rightarrow> ui_handler" where
  "uiCancelRun env param = uiWithID env ''Run cancel'' (param ''runId'') (\<lambda>i.
     onResult (CancelRun i) (failWith env 500 ''Run cancel'') (\<lambda>run.
       respond (Redirect 303 (''/runs/'' @ itoa (runID run)))))"

section \<open>The pager\<close>

lemma newPagination_total:
  assumes "0 < sz" and "0 \<le> tot" and "tot + sz \<le> 9223372036854775807"
  shows "pnTotalPages (newPagination pg sz tot) = (tot + sz - 1) div sz"
proof -
  have "wrap64 (wrap64 (tot + sz) - 1) = tot + sz - 1" using assms by (simp add: in_int64_def)
  with assms show ?thesis by (auto simp: newPagination_def Let_def signed_divide_int_def sgn_if div_pos_pos_trivial)
qed

lemma page_before: "0 < (sz::int) \<Longrightarrow> pg < (tot + sz - 1) div sz \<longleftrightarrow> pg * sz < tot"
proof -
  assume sz: "0 < sz"
  have "pg < (tot + sz - 1) div sz \<longleftrightarrow> pg + 1 \<le> (tot + sz - 1) div sz" by linarith
  also have "\<dots> \<longleftrightarrow> (pg + 1) * sz \<le> tot + sz - 1"
  proof
    assume "pg + 1 \<le> (tot + sz - 1) div sz"
    then have "(pg + 1) * sz \<le> (tot + sz - 1) div sz * sz" using sz by (simp add: mult_right_mono)
    also have "\<dots> \<le> tot + sz - 1" using pos_mod_sign [OF sz, of "tot + sz - 1"] div_mult_mod_eq [of "tot + sz - 1" sz] by linarith
    finally show "(pg + 1) * sz \<le> tot + sz - 1" .
  next
    assume "(pg + 1) * sz \<le> tot + sz - 1"
    from zdiv_mono1 [OF this sz] show "pg + 1 \<le> (tot + sz - 1) div sz"
      using nonzero_mult_div_cancel_right [of sz "pg + 1"] sz by linarith
  qed
  also have "\<dots> \<longleftrightarrow> pg * sz < tot" by (simp add: distrib_right)
  finally show ?thesis .
qed

lemma newPagination_next:
  assumes "0 < sz" and "0 \<le> tot" and "tot + sz \<le> 9223372036854775807" and "0 < pg"
  shows "pnHasNext (newPagination pg sz tot) \<longleftrightarrow> pg * sz < tot"
proof -
  have p: "pnTotalPages (newPagination pg sz tot) = (tot + sz - 1) div sz"
    by (rule newPagination_total [OF assms(1-3)])
  have "pnHasNext (newPagination pg sz tot) \<longleftrightarrow>
      0 < pnTotalPages (newPagination pg sz tot) \<and> pg < pnTotalPages (newPagination pg sz tot)"
    using assms(4) by (simp add: newPagination_def Let_def)
  with p page_before [OF assms(1), of pg tot] assms(4) show ?thesis by auto
qed

text \<open>Pages one after the other are the whole list.\<close>

lemma pages_upto: "concat (map (\<lambda>k. take n (drop (k * n) xs)) [0..<t]) = take (t * n) xs"
proof (induction t)
  case (Suc t)
  have "take (Suc t * n) xs = take (t * n) xs @ take n (drop (t * n) xs)"
    by (metis add.commute mult_Suc take_add)
  with Suc show ?case by simp
qed simp

lemma map_res_append:
  "map_res f xs = Inr as \<Longrightarrow> map_res f ys = Inr bs \<Longrightarrow> map_res f (xs @ ys) = Inr (as @ bs)"
  by (induction xs arbitrary: as) (auto simp: bind_ok_Inr)

lemma map_res_concat:
  "(\<And>k. k \<in> set ks \<Longrightarrow> map_res f (g k) = Inr (rs k)) \<Longrightarrow> map_res f (concat (map g ks)) = Inr (concat (map rs ks))"
  by (induction ks) (auto intro: map_res_append)

lemma run_page_rows:
  assumes "runsList f \<lparr>pagePage = int (Suc k), pageSize = int n\<rparr> w = (Inr (rs, t), w')" and "0 < n"
    and "int (k * n) \<le> 9223372036854775807"
  shows "map_res scanRun (take n (drop (k * n) (rev (sort_key (\<lambda>r. (rr_scheduled_at r, rr_id r))
    (filter (runMatches f) (dbRuns (wDb w))))))) = Inr rs"
proof -
  have "0 \<le> int k * int n" by simp
  with assms(3) have "in_int64 (int k * int n)" unfolding in_int64_def of_nat_mult by linarith
  with assms(2) have nm: "normalize \<lparr>pagePage = int (Suc k), pageSize = int n\<rparr> = (int n, int (k * n))"
    by (simp add: normalize_def Let_def)
  have "sqlLimit (int n) xs = take n xs" and "sqlOffset (int (k * n)) xs = drop (k * n) xs" for xs :: "run_row list"
    by (simp_all add: sqlLimit_def sqlOffset_def del: of_nat_mult)
  then show ?thesis using runsList_Inr(3) [OF assms(1)] unfolding nm fst_conv snd_conv by simp
qed

lemma pager_covers:
  assumes n: "0 < n" and small: "int (length xs) + int n \<le> 9223372036854775807"
    and t: "int t = pnTotalPages (newPagination 1 (int n) (int (length xs)))"
  shows "concat (map (\<lambda>k. take n (drop (k * n) xs)) [0..<t]) = xs"
    and "k < t \<Longrightarrow> int (k * n) \<le> 9223372036854775807"
proof -
  have t': "int t = (int (length xs) + int n - 1) div int n"
    using newPagination_total [of "int n" "int (length xs)" 1] n small t by simp
  have n0: "0 < int n" using n by simp
  from page_before [OF n0, of "int t" "int (length xs)"] t' have "\<not> int t * int n < int (length xs)" by simp
  then have "length xs \<le> t * n" by (simp flip: of_nat_mult)
  then show "concat (map (\<lambda>k. take n (drop (k * n) xs)) [0..<t]) = xs" by (simp add: pages_upto)
  assume "k < t"
  with page_before [OF n0, of "int k" "int (length xs)"] t' have "int k * int n < int (length xs)" by simp
  with small show "int (k * n) \<le> 9223372036854775807" by simp
qed

section \<open>The form reads back what it shows\<close>

lemma isDigit_no_space: "isDigit c \<Longrightarrow> \<not> isSpace c"
  by (auto simp: isDigit_def isSpace_def)

lemma trimSpace_no_space: "list_all (\<lambda>c. \<not> isSpace c) s \<Longrightarrow> trimSpace s = s"
proof -
  assume a: "list_all (\<lambda>c. \<not> isSpace c) s"
  have "dropWhile isSpace u = u" if "list_all (\<lambda>c. \<not> isSpace c) u" for u
    using that by (cases u) auto
  with a show ?thesis by (simp add: trimSpace_def)
qed

lemma itoa_trimmed [simp]: "trimSpace (itoa n) = itoa n"
proof (rule trimSpace_no_space)
  have "list_all (\<lambda>c. \<not> isSpace c) (natDigits m)" for m
    using natDigits_isDigit [of m] by (auto simp: list_all_iff isDigit_no_space)
  then show "list_all (\<lambda>c. \<not> isSpace c) (itoa n)" by (simp add: itoa_def isSpace_def)
qed

lemma itoa_ne [simp]: "itoa n \<noteq> []"
  by (simp add: itoa_def)

text \<open>The jobs a form can show: texts without outer white space, optional texts not empty, values of the
  enumerations, and integers of their width.\<close>

definition trimmed :: "string \<Rightarrow> bool" where
  "trimmed s \<longleftrightarrow> trimSpace s = s"

definition optTrimmed :: "string option \<Rightarrow> bool" where
  "optTrimmed v = pred_option (\<lambda>s. trimmed s \<and> s \<noteq> []) v"

definition formable :: "job \<Rightarrow> bool" where
  "formable j \<longleftrightarrow> trimmed (jobName j) \<and> trimmed (jobImageRef j) \<and> trimmed (jobTimezone j)
     \<and> optTrimmed (jobDescription j) \<and> optTrimmed (jobParamsJSON j) \<and> optTrimmed (jobScheduleExpr j)
     \<and> sourceTypeIsValid (jobSourceType j) \<and> scheduleTypeIsValid (jobScheduleType j)
     \<and> policyIsValid (jobConcurrencyPolicy j) \<and> in_int64 (jobRetryLimit j) \<and> in_int64 (jobTimeoutSec j)
     \<and> pred_option in_int64 (jobIntervalSec j)"

definition inputOf :: "job \<Rightarrow> job_input" where
  "inputOf j = \<lparr>inName = jobName j, inDescription = jobDescription j, inEnabled = jobEnabled j,
     inSourceType = jobSourceType j, inImageRef = jobImageRef j, inImageDigest = jobImageDigest j,
     inScheduleType = jobScheduleType j, inScheduleExpr = jobScheduleExpr j, inIntervalSec = jobIntervalSec j,
     inParamsJSON = jobParamsJSON j, inConcurrencyPolicy = jobConcurrencyPolicy j,
     inRetryLimit = jobRetryLimit j, inTimeoutSec = Some (jobTimeoutSec j), inTimezone = jobTimezone j\<rparr>"

lemma enum_trimmed:
  "trimSpace ''local'' = ''local''" "trimSpace ''remote'' = ''remote''" "trimSpace ''cron'' = ''cron''"
  "trimSpace ''interval'' = ''interval''" "trimSpace ''allow'' = ''allow''" "trimSpace ''forbid'' = ''forbid''"
  by code_simp+

lemma parseBoolQuery_shown: "parseBoolQuery (if b then ''true'' else ''false'') = Some b"
proof (cases b)
  case True
  moreover have "parseBoolQuery ''true'' = Some True" by code_simp
  ultimately show ?thesis by simp
next
  case False
  moreover have "parseBoolQuery ''false'' = Some False" by code_simp
  ultimately show ?thesis by simp
qed

lemma formInput_formOf:
  assumes "formable j"
  shows "formInput (formOf j) = (inputOf j)\<lparr>inImageDigest := None, inScheduleExpr := None, inIntervalSec := None\<rparr>"
proof -
  have enums: "trimSpace (formOf j ''sourceType'') = jobSourceType j" "trimSpace (formOf j ''scheduleType'') = jobScheduleType j"
    "trimSpace (formOf j ''concurrencyPolicy'') = jobConcurrencyPolicy j"
    using assms by (auto simp: formOf_def formable_def sourceTypeIsValid_def scheduleTypeIsValid_def policyIsValid_def enum_trimmed)
  have texts: "trimSpace (formOf j ''name'') = jobName j" "trimSpace (formOf j ''imageRef'') = jobImageRef j"
    "trimSpace (formOf j ''timezone'') = jobTimezone j"
    using assms by (simp_all add: formOf_def formable_def trimmed_def)
  have desc: "stringPtrOrNil (trimSpace (formOf j ''description'')) = jobDescription j"
    using assms
    by (cases "jobDescription j") (auto simp: formOf_def formable_def stringPtrOrNil_def inputString_def optTrimmed_def trimmed_def)
  have params: "(if trimSpace (formOf j ''params'') = [] then None else Some (trimSpace (formOf j ''params''))) = jobParamsJSON j"
    using assms
    by (cases "jobParamsJSON j") (auto simp: formOf_def formable_def inputString_def optTrimmed_def trimmed_def)
  have ints: "parseIntFormDefault (formOf j ''retryLimit'') 0 = jobRetryLimit j"
    "parseIntFormPtr (formOf j ''timeoutSec'') = Some (jobTimeoutSec j)"
    using assms by (simp_all add: formOf_def formable_def parseIntFormDefault_def parseIntFormPtr_def parseInt64_itoa)
  have en: "parseBoolQuery (formOf j ''enabled'') = Some (jobEnabled j)"
    using parseBoolQuery_shown by (simp add: formOf_def)
  show ?thesis
    by (simp add: formInput_def inputOf_def Let_def enums texts desc ints en params)
qed

text \<open>All of the input comes back but the image digest, for which the form has no control.\<close>

lemma form_roundtrip:
  assumes "formable j"
  shows "\<exists>draft. jobInputFromForm (formOf j) = ((inputOf j)\<lparr>inImageDigest := None\<rparr>, draft, None)"
proof -
  have digest: "trimSpace (formOf j ''imageDigest'') = []" by (simp add: formOf_def)
  have expr: "trimSpace (formOf j ''scheduleExpr'') = (case jobScheduleExpr j of None \<Rightarrow> [] | Some e \<Rightarrow> e)"
    "jobScheduleExpr j \<noteq> Some []"
    using assms by (auto simp: formOf_def formable_def inputString_def optTrimmed_def trimmed_def split: option.split)
  have iv: "trimSpace (formOf j ''intervalSec'') = (case jobIntervalSec j of None \<Rightarrow> [] | Some n \<Rightarrow> itoa n)"
    "\<And>n. jobIntervalSec j = Some n \<Longrightarrow> parseInt64 (itoa n) = Some n"
    using assms by (auto simp: formOf_def formable_def inputInt_def parseInt64_itoa split: option.split)
  have i: "inputOf j = (inputOf j)\<lparr>inIntervalSec := jobIntervalSec j, inScheduleExpr := jobScheduleExpr j\<rparr>"
    by (simp add: inputOf_def)
  show ?thesis
    using expr iv i
    by (cases "jobIntervalSec j"; cases "jobScheduleExpr j")
      (simp_all add: jobInputFromForm_def formInput_formOf [OF assms] digest Let_def inputOf_def)
qed

section \<open>What the handlers do\<close>

text \<open>A run shows the button to cancel exactly where a cancellation changes it.\<close>

lemma canCancel_iff: "canCancel s \<longleftrightarrow> cancelTarget s \<noteq> None"
  by (auto simp: canCancel_def cancelTarget_def)

lemma renderOrError_reply: "renderOrError eng st p = Html st p \<or> (\<exists>q. renderOrError eng st p = Html 500 q) \<or> renderOrError eng st p = Blank 500"
  by (auto simp: renderOrError_def renderPage_def renderError_def pageContentTemplateName_def split: option.split)

text \<open>A submitted form either creates a job and leads to its page, or shows the form again and leaves
  the database as it was.\<close>

lemma uiCreateJob_cases:
  assumes "uiCreateJob env lib p query form w = (rp, w')"
  obtains (created) input draft j where "jobInputFromForm form = (input, draft, None)"
      and "CreateJob lib p input w = (Inr j, w')" and "rp = Redirect 303 (''/jobs/'' @ itoa (jobID j))"
    | (shown_again) "wDb w' = wDb w" and "\<And>st u. rp \<noteq> Redirect st u"
proof -
  obtain input draft err where f: "jobInputFromForm form = (input, draft, err)" by (cases "jobInputFromForm form") auto
  have again: "renderJobForm env query t s m d e v \<noteq> (Redirect st u, w'')" for t s m d e st u v w''
    using renderOrError_reply [of "ueEngine env" 400 "formPage env query t s m d (jobValidationFields e) (errorText e)"]
    by (auto simp: renderJobForm_def respond_def)
  show thesis
  proof (cases err)
    case (Some e)
    with assms f have r: "renderJobForm env query ''New Job'' newSubtitle ''create'' draft e w = (rp, w')"
      by (simp add: uiCreateJob_def)
    then have "w' = w" by (simp add: renderJobForm_def respond_def)
    with r again show thesis by (intro shown_again) auto
  next
    case None
    with assms f have a: "onResult (CreateJob lib p input) (renderJobForm env query ''New Job'' newSubtitle ''create'' draft)
        (\<lambda>job. respond (Redirect 303 (''/jobs/'' @ itoa (jobID job)))) w = (rp, w')" by (simp add: uiCreateJob_def)
    obtain r w1 where c: "CreateJob lib p input w = (r, w1)" by fastforce
    show thesis
    proof (cases r)
      case (Inl e)
      with a c have r: "renderJobForm env query ''New Job'' newSubtitle ''create'' draft e w1 = (rp, w')"
        by (simp add: onResult_def)
      then have "w' = w1" by (simp add: renderJobForm_def respond_def)
      with Inl c r again CreateJob_Inl show thesis by (intro shown_again) auto
    next
      case (Inr j)
      with a c f None show thesis by (intro created) (auto simp: onResult_def respond_def)
    qed
  qed
qed

end
