(* ===== verification/Lifecycle.thy ===== *)
theory Lifecycle
  imports System
begin

text \<open>
  The life of a run, as a specification of the whole program: a run waits, is in progress, is over,
  and moves only in that order; its job, its planned time and its attempt number never change. The
  relation \<open>onward\<close> says this of two databases; every operation of the program obeys it, so every
  step of theory System is simulated by the machine. (The finer statuses inside \<open>Over\<close> do move both
  ways: a recorded outcome replaces a cancellation request, and a late cancellation request
  replaces a recorded outcome.)
\<close>

section \<open>The machine\<close>

datatype phase = Waiting | InProgress | Over

definition phaseOf :: "run_status \<Rightarrow> phase" where
  "phaseOf s = (if s = RunStatusPending then Waiting else if s = RunStatusRunning then InProgress else Over)"

inductive phaseStep :: "phase \<Rightarrow> phase \<Rightarrow> bool" where
  begins: "phaseStep Waiting InProgress"
| dropped: "phaseStep Waiting Over"
| ends: "phaseStep InProgress Over"

inductive_cases phaseStep_OverE [elim!]: "phaseStep Over p"
inductive_cases phaseStep_InProgressE [elim!]: "phaseStep InProgress p"
inductive_simps phaseStep_to_Waiting [simp]: "phaseStep p Waiting"

lemma phase_Over: "phaseStep\<^sup>*\<^sup>* Over p \<longleftrightarrow> p = Over"
  by (auto elim: converse_rtranclpE)

lemma phase_to_Over [simp]: "phaseStep\<^sup>*\<^sup>* p Over"
  by (cases p) (auto intro: dropped ends)

lemma phase_to_Waiting: "phaseStep\<^sup>*\<^sup>* p Waiting \<longleftrightarrow> p = Waiting"
  by (auto elim: rtranclp.cases)

lemma phaseOf_other: "s \<noteq> RunStatusPending \<Longrightarrow> s \<noteq> RunStatusRunning \<Longrightarrow> phaseOf s = Over"
  by (simp add: phaseOf_def)

section \<open>From one database to a later one\<close>

definition succeeds :: "run_row \<Rightarrow> run_row \<Rightarrow> bool" where
  "succeeds r r' \<longleftrightarrow> rr_id r' = rr_id r \<and> runKey r' = runKey r
     \<and> phaseStep\<^sup>*\<^sup>* (phaseOf (rr_status r)) (phaseOf (rr_status r'))"

definition onward :: "db \<Rightarrow> db \<Rightarrow> bool" where
  "onward d d' \<longleftrightarrow> dbRunSeq d \<le> dbRunSeq d'
     \<and> (\<forall>r'\<in>set (dbRuns d'). rr_id r' \<le> dbRunSeq d \<longrightarrow> (\<exists>r\<in>set (dbRuns d). succeeds r r'))"

lemma succeeds_refl [simp]: "succeeds r r"
  by (simp add: succeeds_def)

lemma self_succeeds: "r \<in> S \<Longrightarrow> \<exists>q\<in>S. succeeds q r"
  by (rule bexI [of _ r]) simp_all

lemma succeeds_trans: "succeeds a b \<Longrightarrow> succeeds b c \<Longrightarrow> succeeds a c"
  by (auto simp: succeeds_def)

interpretation moving: db_preorder onward
proof
  show "onward d d" for d by (auto simp: onward_def intro: succeeds_refl)
next
  fix a b c assume ab: "onward a b" and bc: "onward b c"
  show "onward a c"
    unfolding onward_def
  proof (intro conjI ballI impI)
    show "dbRunSeq a \<le> dbRunSeq c" using ab bc by (simp add: onward_def)
  next
    fix z assume z: "z \<in> set (dbRuns c)" "rr_id z \<le> dbRunSeq a"
    with ab bc obtain y where y: "y \<in> set (dbRuns b)" "succeeds y z" by (fastforce simp: onward_def)
    with z(2) have "rr_id y \<le> dbRunSeq a" by (simp add: succeeds_def)
    with ab y(1) obtain x where "x \<in> set (dbRuns a)" "succeeds x y" by (auto simp: onward_def)
    with y(2) show "\<exists>x\<in>set (dbRuns a). succeeds x z" by (blast intro: succeeds_trans)
  qed
qed

named_theorems onward_intros \<open>operations along which runs only move onward\<close>

declare moving.obeys_intros [onward_intros]

section \<open>The statements\<close>

lemma onward_frame:
  "dbRunSeq d' = dbRunSeq d \<Longrightarrow> set (dbRuns d') \<subseteq> set (dbRuns d) \<Longrightarrow> onward d d'"
  by (auto simp: onward_def intro: succeeds_refl)

lemma onward_tUpdate:
  assumes "\<And>r. r \<in> set (dbRuns d) \<Longrightarrow> P r \<Longrightarrow> succeeds r (f r)"
  shows "onward d (d\<lparr>dbRuns := tUpdate P f (dbRuns d)\<rparr>)"
  unfolding onward_def using assms by (auto simp: set_tUpdate intro: self_succeeds)

lemma onward_insertRun: "insertRun r d = (Inr x, d') \<Longrightarrow> onward d d'"
  by (auto simp: insertRun_def Let_def onward_def intro: self_succeeds split: if_splits)

lemma onward_updateRunStatusRow:
  "updateRunStatusRow j s a b c m u d = (Inr x, d') \<Longrightarrow> phaseOf s = Over \<Longrightarrow> onward d d'"
  by (auto simp: updateRunStatusRow_def succeeds_def intro!: onward_tUpdate)

lemma onward_claimRow: "claimRow i a u d = (x, d') \<Longrightarrow> onward d d'"
  by (auto simp: claimRow_def Let_def succeeds_def runKey_def phaseOf_def intro!: onward_tUpdate r_into_rtranclp [of phaseStep] begins)

lemma onward_statements:
  "insertJob r d = (Inr i, d') \<Longrightarrow> onward d d'"
  "updateJobRow j r d = (Inr u, d') \<Longrightarrow> onward d d'"
  "deleteJobRow j d = (Inr u, d') \<Longrightarrow> onward d d'"
  "updateJobScheduling j a b c d = (Inr u, d') \<Longrightarrow> onward d d'"
  "deleteTerminalBeforeRows s d = (Inr i, d') \<Longrightarrow> onward d d'"
  "insertEvent e d = (Inr i, d') \<Longrightarrow> onward d d'"
  by (auto simp: insertJob_def updateJobRow_def deleteJobRow_def updateJobScheduling_def
      deleteTerminalBeforeRows_def insertEvent_def Let_def intro!: onward_frame split: if_splits)

lemma onward_updateLogArtifactsRow: "updateLogArtifactsRow j a b u d = (Inr x, d') \<Longrightarrow> onward d d'"
  by (auto simp: updateLogArtifactsRow_def succeeds_def runKey_def intro!: onward_tUpdate)

section \<open>The operations\<close>

lemma onward_methods [onward_intros]:
  "obeys onward (jobsCreate j)" "obeys onward (jobsGet i)" "obeys onward (jobsList f p)"
  "obeys onward (jobsUpdate j)" "obeys onward (jobsDelete i)" "obeys onward (UpdateScheduling i a b)"
  "obeys onward (ListDue t)" "obeys onward (runsCreate r)" "obeys onward (runsGet i)"
  "obeys onward (runsList g p)" "obeys onward (UpdateLogArtifacts i c e)" "obeys onward (ListPending n)"
  "obeys onward (DeleteTerminalBefore t)" "obeys onward (eventsCreate v)" "obeys onward (ClaimPending i t)"
  unfolding jobsCreate_def jobsGet_def jobsList_def jobsUpdate_def jobsDelete_def UpdateScheduling_def
    ListDue_def runsCreate_def runsGet_def runsList_def UpdateLogArtifacts_def ListPending_def
    DeleteTerminalBefore_def eventsCreate_def ClaimPending_def Let_def
  by (intro onward_intros moving.obeys_execDb;
    (erule onward_insertRun onward_updateLogArtifactsRow onward_statements onward_claimRow)?)+

lemma onward_UpdateStatus [onward_intros]: "phaseOf s = Over \<Longrightarrow> obeys onward (UpdateStatus i s a b c m)"
  unfolding UpdateStatus_def
  by (intro onward_intros moving.obeys_execDb) (erule onward_updateRunStatusRow; assumption)

lemma onward_cancelWrite [onward_intros]: "obeys onward (cancelWrite r)"
proof (cases "cancelTarget (runStatus r)")
  case None
  then show ?thesis by (simp add: cancelWrite_def moving.obeys_returnIO)
next
  case (Some s)
  then have "phaseOf s = Over" by (auto simp: phaseOf_def dest!: cancelTarget_valid)
  with Some show ?thesis unfolding cancelWrite_def Let_def by (simp, intro onward_intros) simp_all
qed

lemma onward_job_service [onward_intros]:
  "obeys onward (CreateJob lib p inp)" "obeys onward (updateWrite lib i j ex)" "obeys onward (UpdateJob lib p i inp)"
  "obeys onward (DeleteJob i)" "obeys onward (triggerWrite reason j)" "obeys onward (TriggerJob i reason)"
  unfolding CreateJob_def updateWrite_def UpdateJob_def DeleteJob_def triggerWrite_def TriggerJob_def Let_def
  by (intro onward_intros)+

lemma onward_halves [onward_intros]: "obeys onward (beginRequest p rq)" "obeys onward (endRequest lib p u)"
  by (cases rq; auto intro!: onward_intros) (cases u; auto simp: ignoring_def intro!: onward_intros)

lemma onward_splitStale [onward_intros]: "obeys onward (splitStale s now t rs)"
  by (induction rs) (auto simp: finalizeStaleRunningRun_def Let_def phaseOf_def intro!: onward_intros)

lemma onward_createDueRun [onward_intros]: "obeys onward (createDueRun r t m i a b)"
  unfolding createDueRun_def by (intro onward_intros)

lemma onward_processDueJob [onward_intros]: "obeys onward (processDueJob s lib j now)"
  unfolding processDueJob_def dueTx_def Let_def
  by (auto intro!: onward_intros split: option.split list.split)

lemma onward_worker [onward_intros]:
  "obeys onward (workerClaim i r)" "obeys onward (workerAbort i r)"
  unfolding workerClaim_def claimTx_def workerAbort_def abortTx_def
  by (auto intro!: onward_intros simp: phaseOf_def split: sum.split claim.split)

lemma onward_workerFinish [onward_intros]: "obeys onward (workerFinish i j r out)"
proof -
  have c: "obeys onward (createRetry job run)" for job run
    unfolding createRetry_def by (auto intro!: onward_intros)
  have "obeys onward (recordStatus k q t st c m et msg)" if "phaseOf st = Over" for k q t st c m et msg
    unfolding recordStatus_def using that by (intro onward_intros)
  with c show ?thesis
    unfolding workerFinish_def finishTx_def by (auto intro!: onward_intros simp: phaseOf_def)
qed

section \<open>The program\<close>

lemma step_onward: "step s lib p \<sigma> \<tau> \<Longrightarrow> onward (wDb (sysWorld \<sigma>)) (wDb (sysWorld \<tau>))"
proof (induction rule: step.induct)
  case (due_list \<sigma> now js w)
  have "obeys onward (bindIO timeNow (\<lambda>now. bindIO (ListDue now) (\<lambda>js. returnIO (now, js))))"
    by (intro onward_intros)
  from obeys_from [OF this due_list(2)] show ?case by simp
next
  case (elsewhere \<sigma> w)
  then show ?case by (simp add: reading_def moving.refl)
qed (simp_all add: workerEnds_def moving.refl, (erule obeys_from [rotated], intro onward_intros)+)

lemma reachable_onward:
  "reachable s lib p \<sigma> \<tau> \<Longrightarrow> onward (wDb (sysWorld \<sigma>)) (wDb (sysWorld \<tau>))"
  by (induction rule: reachable.induct) (auto intro: moving.refl moving.trans step_onward)

end
