(* ===== verification/Server.thy ===== *)
theory Server
  imports Web_UI Lifecycle World_Rel
begin

text \<open>
  \<open>internal/api/router.go\<close>, \<open>RegisterRoutes\<close> of the web UI and \<open>healthz_handler.go\<close>: which handler
  a request reaches, and what the server as a whole does with it. The framework matches a path
  segment by segment, a literal segment before a parameter; a path without a handler is its own
  affair. Every relation between the databases before and after that the operations of the services
  keep is kept by every request; the reads change nothing.
\<close>

section \<open>Routes\<close>

datatype seg = Lit string | Par string

datatype endpoint =
    Health | UiHome | UiJobs | UiNewJob | UiCreateJob | UiJobDetail | UiEditJob | UiUpdateJob | UiDeleteJob
  | UiTriggerJob | UiRuns | UiRunDetail | UiCancelRun
  | ApiListJobs | ApiGetJob | ApiCreateJob | ApiUpdateJob | ApiDeleteJob | ApiTriggerJob | ApiListJobRuns
  | ApiListRuns | ApiGetRun | ApiCancelRun | ApiListRunEvents | ApiGetRunLogs | ApiGetRunResult
  | ApiListImages | ApiResolveImage | ApiListImageCandidates

type_synonym route = "string \<times> seg list \<times> endpoint"

definition uiRoutes :: "route list" where
  "uiRoutes =
     [(''GET'', [], UiHome),
      (''GET'', [Lit ''jobs''], UiJobs),
      (''GET'', [Lit ''jobs'', Lit ''new''], UiNewJob),
      (''POST'', [Lit ''jobs''], UiCreateJob),
      (''GET'', [Lit ''jobs'', Par ''jobId''], UiJobDetail),
      (''GET'', [Lit ''jobs'', Par ''jobId'', Lit ''edit''], UiEditJob),
      (''POST'', [Lit ''jobs'', Par ''jobId''], UiUpdateJob),
      (''POST'', [Lit ''jobs'', Par ''jobId'', Lit ''delete''], UiDeleteJob),
      (''POST'', [Lit ''jobs'', Par ''jobId'', Lit ''trigger''], UiTriggerJob),
      (''GET'', [Lit ''runs''], UiRuns),
      (''GET'', [Lit ''runs'', Par ''runId''], UiRunDetail),
      (''POST'', [Lit ''runs'', Par ''runId'', Lit ''cancel''], UiCancelRun)]"

definition apiRoutes :: "route list" where
  "apiRoutes =
     [(''GET'', [Lit ''jobs''], ApiListJobs),
      (''GET'', [Lit ''jobs'', Par ''jobId''], ApiGetJob),
      (''POST'', [Lit ''jobs''], ApiCreateJob),
      (''PUT'', [Lit ''jobs'', Par ''jobId''], ApiUpdateJob),
      (''DELETE'', [Lit ''jobs'', Par ''jobId''], ApiDeleteJob),
      (''POST'', [Lit ''jobs'', Par ''jobId'', Lit ''trigger''], ApiTriggerJob),
      (''GET'', [Lit ''jobs'', Par ''jobId'', Lit ''runs''], ApiListJobRuns),
      (''GET'', [Lit ''runs''], ApiListRuns),
      (''GET'', [Lit ''runs'', Par ''runId''], ApiGetRun),
      (''POST'', [Lit ''runs'', Par ''runId'', Lit ''cancel''], ApiCancelRun),
      (''GET'', [Lit ''runs'', Par ''runId'', Lit ''events''], ApiListRunEvents),
      (''GET'', [Lit ''runs'', Par ''runId'', Lit ''logs''], ApiGetRunLogs),
      (''GET'', [Lit ''runs'', Par ''runId'', Lit ''result''], ApiGetRunResult),
      (''GET'', [Lit ''images''], ApiListImages),
      (''GET'', [Lit ''images'', Lit ''resolve''], ApiResolveImage),
      (''GET'', [Lit ''images'', Par ''sourceType'', Lit ''candidates''], ApiListImageCandidates)]"

definition setupRouter :: "route list" where
  "setupRouter = (''GET'', [Lit ''health''], Health) # uiRoutes
     @ map (\<lambda>(m, segs, e). (m, [Lit ''api'', Lit ''v1''] @ segs, e)) apiRoutes"

text \<open>The framework's search: along the literal child first, then along the parameter.\<close>

fun literalChild :: "string \<Rightarrow> (seg list \<times> 'a) \<Rightarrow> (seg list \<times> 'a) list" where
  "literalChild p (Lit q # segs, x) = (if p = q then [(segs, x)] else [])"
| "literalChild p (_, x) = []"

fun paramChild :: "(seg list \<times> 'a) \<Rightarrow> (seg list \<times> 'a) list" where
  "paramChild (Par n # segs, x) = [(segs, x)]"
| "paramChild (_, x) = []"

fun search :: "(seg list \<times> 'a) list \<Rightarrow> string list \<Rightarrow> 'a option" where
  "search rs [] = map_option snd (find (\<lambda>(segs, x). segs = []) rs)"
| "search rs (p # ps) =
     (case search (concat (map (literalChild p) rs)) ps of
        Some x \<Rightarrow> Some x
      | None \<Rightarrow> if p = [] then None else search (concat (map paramChild rs)) ps)"

definition lookupRoute :: "route list \<Rightarrow> string \<Rightarrow> string list \<Rightarrow> (seg list \<times> endpoint) option" where
  "lookupRoute rs m path =
     search (map (\<lambda>(_, segs, e). (segs, (segs, e))) (filter (\<lambda>(m', _, _). m' = m) rs)) path"

text \<open>The value of a path parameter, empty where the route has none of that name.\<close>

fun pathParam :: "seg list \<Rightarrow> string list \<Rightarrow> string \<Rightarrow> string" where
  "pathParam (Par n # segs) (p # ps) name = (if n = name then p else pathParam segs ps name)"
| "pathParam (Lit q # segs) (p # ps) name = pathParam segs ps name"
| "pathParam _ _ name = []"

section \<open>Requests\<close>

text \<open>\<open>hqJob\<close> and \<open>hqReason\<close> are what the framework makes of the body, as JSON.\<close>

record http_request =
  hqMethod :: string
  hqPath :: "string list"
  hqQuery :: "string \<Rightarrow> string"
  hqForm :: "string \<Rightarrow> string"
  hqContentLength :: int
  hqJob :: "goerr + job_request"
  hqReason :: "goerr + string option"

text \<open>What the handlers use: the cron library, the configuration, the two image sources, the files and
  the template engine.\<close>

record server =
  svCron :: cron_lib
  svImages :: image_config
  svScheduler :: scheduler_config
  svLocalList :: "string \<Rightarrow> string \<Rightarrow> goerr + candidate list"
  svRemoteList :: "string \<Rightarrow> string \<Rightarrow> goerr + candidate list"
  svLocalResolve :: "string \<Rightarrow> goerr + candidate"
  svRemoteResolve :: "string \<Rightarrow> goerr + candidate"
  svReadLog :: "string \<Rightarrow> goerr + string"
  svReadJSON :: "string \<Rightarrow> goerr + result_response"
  svReadFile :: "string \<Rightarrow> goerr + string"
  svIndent :: "string \<Rightarrow> string option"
  svEngine :: engine

definition uiEnvOf :: "server \<Rightarrow> ui_env" where
  "uiEnvOf sv = \<lparr>ueEngine = svEngine sv, ueImages = svImages sv,
     ueListCandidates = resolverListCandidates (svImages sv) (svLocalList sv) (svRemoteList sv),
     ueResolve = resolverResolve (svImages sv) (svLocalResolve sv) (svRemoteResolve sv),
     ueReadLog = svReadLog sv, ueReadFile = svReadFile sv, ueIndent = svIndent sv\<rparr>"

datatype response = ApiReply reply | UiReply ui_reply | Healthy time | Unrouted

definition api :: "handler \<Rightarrow> world \<Rightarrow> response \<times> world" where
  "api h w = (case h w of (r, w') \<Rightarrow> (ApiReply r, w'))"

definition ui :: "ui_handler \<Rightarrow> world \<Rightarrow> response \<times> world" where
  "ui h w = (case h w of (r, w') \<Rightarrow> (UiReply r, w'))"

definition HealthzHandler :: "world \<Rightarrow> response \<times> world" where
  "HealthzHandler w = (Healthy (wClock w (wTicks w)), w\<lparr>wTicks := Suc (wTicks w)\<rparr>)"

definition handle :: "server \<Rightarrow> http_request \<Rightarrow> (string \<Rightarrow> string) \<Rightarrow> endpoint \<Rightarrow> world \<Rightarrow> response \<times> world" where
  "handle sv rq param e =
     (let env = uiEnvOf sv; lib = svCron sv; p = policyOfConfig (svScheduler sv); q = hqQuery rq;
          loc = svLocalList sv; rem = svRemoteList sv in
      case e of
        Health \<Rightarrow> HealthzHandler
      | UiHome \<Rightarrow> ui (respond (Redirect 302 ''/jobs''))
      | UiJobs \<Rightarrow> ui (uiListJobs env q)
      | UiNewJob \<Rightarrow> ui (uiNewJob env q)
      | UiCreateJob \<Rightarrow> ui (uiCreateJob env lib p q (hqForm rq))
      | UiJobDetail \<Rightarrow> ui (uiJobDetail env param)
      | UiEditJob \<Rightarrow> ui (uiEditJob env param q)
      | UiUpdateJob \<Rightarrow> ui (uiUpdateJob env lib p param q (hqForm rq))
      | UiDeleteJob \<Rightarrow> ui (uiDeleteJob env param)
      | UiTriggerJob \<Rightarrow> ui (uiTriggerJob env param (hqForm rq))
      | UiRuns \<Rightarrow> ui (uiListRuns env q)
      | UiRunDetail \<Rightarrow> ui (uiRunDetail env param)
      | UiCancelRun \<Rightarrow> ui (uiCancelRun env param)
      | ApiListJobs \<Rightarrow> api (hListJobs q)
      | ApiGetJob \<Rightarrow> api (hGetJob param)
      | ApiCreateJob \<Rightarrow> api (hCreateJob lib p (hqJob rq))
      | ApiUpdateJob \<Rightarrow> api (hUpdateJob lib p param (hqJob rq))
      | ApiDeleteJob \<Rightarrow> api (hDeleteJob param)
      | ApiTriggerJob \<Rightarrow> api (hTriggerJob param (hqContentLength rq) (hqReason rq))
      | ApiListJobRuns \<Rightarrow> api (hListJobRuns param q)
      | ApiListRuns \<Rightarrow> api (hListRuns q)
      | ApiGetRun \<Rightarrow> api (hGetRun param)
      | ApiCancelRun \<Rightarrow> api (hCancelRun param)
      | ApiListRunEvents \<Rightarrow> api (hListRunEvents param)
      | ApiGetRunLogs \<Rightarrow> api (hGetRunLogs (svReadLog sv) param q)
      | ApiGetRunResult \<Rightarrow> api (hGetRunResult (svReadJSON sv) param)
      | ApiListImages \<Rightarrow> api (replying (hListImages (svImages sv) loc rem q))
      | ApiResolveImage \<Rightarrow> api (replying (hResolveImage (svImages sv) (svLocalResolve sv) (svRemoteResolve sv) q))
      | ApiListImageCandidates \<Rightarrow> api (replying (hListImageCandidates (svImages sv) loc rem param q)))"

definition serve :: "server \<Rightarrow> http_request \<Rightarrow> world \<Rightarrow> response \<times> world" where
  "serve sv rq w =
     (case lookupRoute setupRouter (hqMethod rq) (hqPath rq) of
        None \<Rightarrow> (Unrouted, w)
      | Some (segs, e) \<Rightarrow> handle sv rq (pathParam segs (hqPath rq)) e w)"

section \<open>What a search finds\<close>

definition readsOnly :: "endpoint \<Rightarrow> bool" where
  "readsOnly e \<longleftrightarrow> e \<notin> {UiCreateJob, UiUpdateJob, UiDeleteJob, UiTriggerJob, UiCancelRun, ApiCreateJob,
     ApiUpdateJob, ApiDeleteJob, ApiTriggerJob, ApiCancelRun}"

lemma literalChild_sound: "(segs, x) \<in> set (literalChild p r) \<Longrightarrow> r = (Lit p # segs, x)"
  by (cases "(p, r)" rule: literalChild.cases) (auto split: if_splits)

lemma paramChild_sound: "(segs, x) \<in> set (paramChild r) \<Longrightarrow> \<exists>n. r = (Par n # segs, x)"
  by (cases r rule: paramChild.cases) auto

fun matches :: "seg list \<Rightarrow> string list \<Rightarrow> bool" where
  "matches [] [] = True"
| "matches (Lit q # segs) (p # ps) = (q = p \<and> matches segs ps)"
| "matches (Par n # segs) (p # ps) = (p \<noteq> [] \<and> matches segs ps)"
| "matches _ _ = False"

lemma search_sound: "search rs path = Some x \<Longrightarrow> \<exists>segs. (segs, x) \<in> set rs \<and> matches segs path"
proof (induction rs path rule: search.induct)
  case (1 rs)
  then show ?case by (force simp: find_Some_iff in_set_conv_nth)
next
  case (2 rs p ps)
  show ?case
  proof (cases "search (concat (map (literalChild p) rs)) ps")
    case (Some y)
    with 2 obtain segs r where "r \<in> set rs" "(segs, x) \<in> set (literalChild p r)" "matches segs ps" by auto
    then show ?thesis by (intro exI [of _ "Lit p # segs"]) (auto dest: literalChild_sound)
  next
    case None
    with 2(3) have p: "p \<noteq> []" by (auto split: if_splits)
    with 2 None obtain segs r where "r \<in> set rs" "(segs, x) \<in> set (paramChild r)" "matches segs ps" by auto
    with p show ?thesis by (auto dest!: paramChild_sound)
  qed
qed

lemma lookupRoute_sound:
  "lookupRoute rs m path = Some (segs, e) \<Longrightarrow> (m, segs, e) \<in> set rs \<and> matches segs path"
  by (auto simp: lookupRoute_def dest!: search_sound)

lemma get_routes_read: "lookupRoute setupRouter ''GET'' path = Some (segs, e) \<Longrightarrow> readsOnly e"
  by (auto simp: setupRouter_def uiRoutes_def apiRoutes_def readsOnly_def dest!: lookupRoute_sound)

section \<open>Every route is reached\<close>

lemma search_None:
  assumes "search rs path = None" and "(segs, x) \<in> set rs"
  shows "\<not> matches segs path"
  using assms
proof (induction rs path arbitrary: segs rule: search.induct)
  case (1 rs)
  then show ?case by (cases segs) (auto simp: find_None_iff)
next
  case (2 rs p ps)
  from 2(3) have lit: "search (concat (map (literalChild p) rs)) ps = None"
    and par: "p \<noteq> [] \<Longrightarrow> search (concat (map paramChild rs)) ps = None" by (auto split: option.splits if_splits)
  show ?case
  proof (cases "(segs, p # ps)" rule: matches.cases)
    case (2 q ss p' ps')
    with \<open>(segs, x) \<in> set rs\<close> show ?thesis using "2.IH"(1) lit by force
  next
    case (3 n ss p' ps')
    have "(ss, x) \<in> set (concat (map paramChild rs))" using 3 \<open>(segs, x) \<in> set rs\<close> by force
    with 3 show ?thesis using "2.IH"(2) [OF lit] par by auto
  qed simp_all
qed

text \<open>Two patterns that some path matches both.\<close>

fun overlap :: "seg list \<Rightarrow> seg list \<Rightarrow> bool" where
  "overlap [] [] = True"
| "overlap (Lit q # ss) (Lit q' # ts) = (q = q' \<and> overlap ss ts)"
| "overlap (s # ss) (t # ts) = overlap ss ts"
| "overlap _ _ = False"

lemma matches_overlap: "matches ss path \<Longrightarrow> matches ts path \<Longrightarrow> overlap ss ts"
proof (induction ss path arbitrary: ts rule: matches.induct)
  case (2 q segs p ps)
  then show ?case by (cases "(ts, p # ps)" rule: matches.cases) auto
next
  case (3 n segs p ps)
  then show ?case by (cases "(ts, p # ps)" rule: matches.cases) auto
qed (auto elim: matches.elims)

text \<open>Only the path of the form for a new job matches two patterns of one method.\<close>

definition newJobSegs :: "seg list" where "newJobSegs = [Lit ''jobs'', Lit ''new'']"

lemma routes_overlap:
  "\<forall>(m, ss, e)\<in>set setupRouter. \<forall>(m', ts, f)\<in>set setupRouter.
     m = m' \<longrightarrow> overlap ss ts \<longrightarrow> (ss, e) = (ts, f) \<or> newJobSegs \<in> {ss, ts}"
  by code_simp

lemma route_reached:
  assumes "(m, segs, e) \<in> set setupRouter" and "matches segs path" and "path \<noteq> [''jobs'', ''new'']"
  shows "lookupRoute setupRouter m path = Some (segs, e)"
proof (cases "lookupRoute setupRouter m path")
  case None
  have "(segs, segs, e) \<in> set (map (\<lambda>(_, segs, e). (segs, (segs, e))) (filter (\<lambda>(m', _, _). m' = m) setupRouter))"
    using assms(1) by force
  with None assms(2) show ?thesis unfolding lookupRoute_def by (blast dest: search_None)
next
  case (Some x)
  then obtain ts f where x: "x = (ts, f)" and t: "(m, ts, f) \<in> set setupRouter" "matches ts path"
    using lookupRoute_sound by (cases x) blast
  from matches_overlap [OF assms(2) t(2)] routes_overlap assms(1) t(1)
  have "(segs, e) = (ts, f) \<or> newJobSegs \<in> {segs, ts}" by fast
  moreover have "path = [''jobs'', ''new'']" if "matches newJobSegs path"
    using that by (auto simp: newJobSegs_def elim!: matches.elims)
  ultimately show ?thesis using Some x assms(2,3) t(2) by auto
qed

section \<open>What every request keeps\<close>

text \<open>A relation between the world before and after which every reading is in, and which the operations
  of the two services that write follow where \<open>writes\<close> says they are reached: every request follows it.\<close>

locale request_relation = world_preorder W for W :: "world \<Rightarrow> world \<Rightarrow> bool" +
  fixes lib :: cron_lib and p :: timeout_policy and writes :: bool
  assumes reading_follows: "reading w w' \<Longrightarrow> W w w'"
    and writes_follow: "writes \<Longrightarrow> follows W (CreateJob lib p inp)" "writes \<Longrightarrow> follows W (UpdateJob lib p i inp)"
      "writes \<Longrightarrow> follows W (DeleteJob i)" "writes \<Longrightarrow> follows W (TriggerJob i reason)" "writes \<Longrightarrow> follows W (CancelRun i)"
begin

definition keptBy :: "(world \<Rightarrow> 'r \<times> world) \<Rightarrow> bool" where
  "keptBy h \<longleftrightarrow> (\<forall>w. W w (snd (h w)))"

lemma follows_reading: "follows reading m \<Longrightarrow> follows W m"
  by (simp add: follows_def reading_follows)

lemma services_follow:
  "follows W (GetJob i)" "follows W (ListJobs f pg)" "follows W (GetRun i)" "follows W (ListRuns g pg)"
  "follows W (ListRunEvents i)" "follows W (ListJobRuns i st pg)" "follows W (ReadLogs rf i a b c)"
  unfolding GetJob_def ListJobs_def GetRun_def ListRuns_def ListRunEvents_def ListJobRuns_def ReadLogs_def
  by (rule follows_reading; intro reading_intros)+

lemma keptBy_onResult:
  assumes "follows W m" and "\<And>e. keptBy (f e)" and "\<And>x. keptBy (g x)"
  shows "keptBy (onResult m f g)"
  unfolding keptBy_def
proof
  fix w
  obtain r w1 where m: "m w = (r, w1)" by force
  with assms(1) have 1: "W w w1" by (metis follows_def snd_conv)
  have "W w1 (snd (case r of Inl e \<Rightarrow> f e w1 | Inr x \<Rightarrow> g x w1))"
    using assms(2,3) by (cases r) (auto simp: keptBy_def)
  with 1 show "W w (snd (onResult m f g w))"
    using world_trans by (cases r) (auto simp: onResult_def m)
qed

lemma keptBy_answering: "follows W m \<Longrightarrow> keptBy (answering m f g)"
  by (auto simp: keptBy_def answering_def follows_def split: prod.splits sum.splits) (metis snd_conv)+

lemma keptBy_leaf:
  "keptBy (replying r)" "keptBy (respond u)" "keptBy (failWith env st title e)" "keptBy HealthzHandler"
  "keptBy (renderJobForm env qu t s m d e)"
  by (simp_all add: keptBy_def replying_def respond_def failWith_def renderJobForm_def HealthzHandler_def
      world_refl reading_follows reading_def)

lemma keptBy_withID: "(\<And>i. keptBy (f i)) \<Longrightarrow> keptBy (withID name param f)"
  and keptBy_uiWithID: "(\<And>i. keptBy (g i)) \<Longrightarrow> keptBy (uiWithID env title v g)"
  by (auto simp: withID_def uiWithID_def keptBy_leaf split: sum.split)

lemma keptBy_wrapped: "keptBy h \<Longrightarrow> keptBy (api h)" "keptBy g \<Longrightarrow> keptBy (ui g)"
  by (auto simp: keptBy_def api_def ui_def case_prod_unfold)

lemma keptBy_cases:
  "keptBy h \<Longrightarrow> keptBy k \<Longrightarrow> keptBy (if b then h else k)"
  "(\<And>a c. keptBy (f a c)) \<Longrightarrow> keptBy (case x of (a, c) \<Rightarrow> f a c)"
  "(\<And>e. keptBy (g e)) \<Longrightarrow> (\<And>y. keptBy (l y)) \<Longrightarrow> keptBy (case s of Inl e \<Rightarrow> g e | Inr y \<Rightarrow> l y)"
  "keptBy h \<Longrightarrow> (\<And>y. keptBy (l y)) \<Longrightarrow> keptBy (case v of None \<Rightarrow> h | Some y \<Rightarrow> l y)"
  by (cases b, simp_all, cases x, simp, cases s, simp_all, cases v, simp_all)

lemma runItems_follow: "follows W (runItems rs)"
  by (induction rs) (auto intro!: follows_intros services_follow)

lemmas keptBy_intros = keptBy_leaf keptBy_withID keptBy_uiWithID keptBy_onResult keptBy_answering keptBy_cases
  services_follow runItems_follow follows_tryIO

lemma reads_kept:
  "keptBy (uiListJobs env q)" "keptBy (uiNewJob env q)" "keptBy (uiJobDetail env param)"
  "keptBy (uiEditJob env param q)" "keptBy (uiListRuns env q)" "keptBy (uiRunDetail env param)"
  "keptBy (hListJobs q)" "keptBy (hGetJob param)" "keptBy (hListJobRuns param q)" "keptBy (hListRuns q)"
  "keptBy (hGetRun param)" "keptBy (hListRunEvents param)" "keptBy (hGetRunLogs rf param q)"
  "keptBy (hGetRunResult rj param)"
  unfolding uiListJobs_def uiNewJob_def uiJobDetail_def uiEditJob_def uiListRuns_def uiRunDetail_def hListJobs_def
    hGetJob_def hListJobRuns_def hListRuns_def hGetRun_def hListRunEvents_def hGetRunLogs_def hGetRunResult_def Let_def
  by (intro keptBy_intros)+

lemma writes_kept:
  assumes writes
  shows "keptBy (uiCreateJob env lib p q form)" "keptBy (uiUpdateJob env lib p param q form)" "keptBy (uiDeleteJob env param)"
    "keptBy (uiTriggerJob env param form)" "keptBy (uiCancelRun env param)" "keptBy (hCreateJob lib p b)"
    "keptBy (hUpdateJob lib p param b)" "keptBy (hDeleteJob param)" "keptBy (hTriggerJob param n rb)" "keptBy (hCancelRun param)"
  unfolding uiCreateJob_def uiUpdateJob_def uiDeleteJob_def uiTriggerJob_def uiCancelRun_def hCreateJob_def hUpdateJob_def
    hDeleteJob_def hTriggerJob_def hCancelRun_def Let_def
  by (intro keptBy_intros writes_follow [OF assms])+

lemma handle_kept:
  assumes "svCron sv = lib" and "policyOfConfig (svScheduler sv) = p" and "writes \<or> readsOnly e"
  shows "keptBy (handle sv rq param e)"
  using assms
  by (cases e) (simp_all add: handle_def Let_def readsOnly_def keptBy_wrapped keptBy_leaf reads_kept writes_kept)

lemma serve_kept:
  assumes "svCron sv = lib" and "policyOfConfig (svScheduler sv) = p" and "writes \<or> hqMethod rq = ''GET''"
  shows "W w (snd (serve sv rq w))"
proof (cases "lookupRoute setupRouter (hqMethod rq) (hqPath rq)")
  case (Some x)
  obtain segs e where x: "x = (segs, e)" by (cases x)
  have "writes \<or> readsOnly e" using assms(3) Some get_routes_read by (auto simp: x)
  from handle_kept [OF assms(1,2) this] Some show ?thesis by (simp add: serve_def x keptBy_def)
qed (simp add: serve_def world_refl)

end

text \<open>A relation between databases, as the repositories obey them, is such a relation.\<close>

locale service_relation = db_preorder R for R :: "db \<Rightarrow> db \<Rightarrow> bool" +
  fixes lib :: cron_lib and p :: timeout_policy and writes :: bool
  assumes writes_keep: "writes \<Longrightarrow> obeys R (CreateJob lib p inp)" "writes \<Longrightarrow> obeys R (UpdateJob lib p i inp)"
      "writes \<Longrightarrow> obeys R (DeleteJob i)" "writes \<Longrightarrow> obeys R (TriggerJob i reason)" "writes \<Longrightarrow> obeys R (CancelRun i)"

sublocale service_relation \<subseteq> request_relation "\<lambda>w w'. R (wDb w) (wDb w')" lib p writes
  using writes_keep
  by unfold_locales (auto simp: refl reading_def follows_def obeys_def intro: trans)

text \<open>The schema, the spent runs, the life cycle of runs, and, for the reads, the database itself.\<close>

interpretation wf_served: service_relation "\<lambda>d d'. dbWf d \<longrightarrow> dbWf d'" lib p True for lib p
  by unfold_locales (auto intro: wf_intros)

interpretation spent_served: service_relation keepsSpent lib p True for lib p
  by unfold_locales (intro spent_intros)+

interpretation onward_served: service_relation onward lib p True for lib p
  by unfold_locales (auto simp: CancelRun_def intro!: onward_intros)

interpretation same_db: db_preorder "(=)"
  by unfold_locales auto

interpretation read_served: service_relation "(=)" lib p False for lib p
  by unfold_locales simp_all

end
