(* ===== verification/Progress.thy ===== *)
theory Progress
  imports System
begin

text \<open>
  That the steps of the program get a run done: from a moment at which a token is free and the driver
  answers, five steps take the oldest pending run from the dispatch loop to the executor. The
  lemmas say when each operation on the way succeeds.
\<close>

definition calm :: "world \<Rightarrow> bool" where
  "calm w \<longleftrightarrow> (\<forall>n. \<not> wFault w n)"

lemma calm_update [simp]:
  "calm (w\<lparr>wCalls := n\<rparr>) = calm w" "calm (w\<lparr>wTicks := n\<rparr>) = calm w" "calm (w\<lparr>wDb := d\<rparr>) = calm w"
  by (simp_all add: calm_def)

lemma calm_execDb: "calm w \<Longrightarrow> execDb f w = (case f (wDb w) of (Inl e, _) \<Rightarrow> (Inl e, w\<lparr>wCalls := Suc (wCalls w)\<rparr>)
   | (Inr x, d) \<Rightarrow> (Inr x, w\<lparr>wCalls := Suc (wCalls w), wDb := d\<rparr>))"
  by (simp add: execDb_def calm_def Let_def)

lemma calm_queryDb: "calm w \<Longrightarrow> queryDb q w = (q (wDb w), w\<lparr>wCalls := Suc (wCalls w)\<rparr>)"
  by (auto simp: queryDb_def calm_execDb split: sum.split)

lemma tFind_member: "distinct (map key rs) \<Longrightarrow> r \<in> set rs \<Longrightarrow> tFind key (key r) rs = Some r"
  by (induction rs) (auto simp: tFind_def image_iff)

lemma selectPending_member:
  assumes "q \<in> set (selectPending n d)"
  shows "q \<in> set (dbRuns d) \<and> rr_status q = RunStatusPending"
  using subsetD [OF set_sqlLimit assms [unfolded selectPending_def]] by simp

lemma ListPending_calm:
  assumes "calm w" and "0 < n" and "map_res scanRun (selectPending n (wDb w)) = Inr rs"
  shows "ListPending n w = (Inr rs, w\<lparr>wCalls := Suc (wCalls w)\<rparr>)"
  using assms by (simp add: ListPending_def bindIO_def mapErr_def calm_queryDb liftRes_def)

lemma workerLoad_calm:
  assumes "calm w" and "tFind rr_id i (dbRuns (wDb w)) = Some q" and "scanRun q = Inr run"
    and "tFind jr_id (rr_job_id q) (dbJobs (wDb w)) = Some r" and "scanJob r = Inr job"
  shows "workerLoad i w = (Inr (run, job), w\<lparr>wCalls := Suc (Suc (wCalls w))\<rparr>)"
  using assms scanRun_Inr [OF assms(3)]
  by (simp add: workerLoad_def runsGet_def jobsGet_def bindIO_def calm_queryDb liftRes_def returnIO_def)

text \<open>A pending run that is there is claimed, whatever the worker read before.\<close>

lemma workerClaim_calm:
  assumes "calm w" and "dbWf (wDb w)" and "tFind rr_id i (dbRuns (wDb w)) = Some q" and "scanRun q = Inr run"
    and "rr_status q = RunStatusPending"
  shows "\<exists>run' w'. workerClaim i run0 w = (Inr (Some run'), w')"
proof -
  have q: "q \<in> set (dbRuns (wDb w))" "rr_id q = i" using tFind_Some [OF assms(3)] by simp_all
  have "distinct (map rr_id (dbRuns (wDb w)))" using assms(2) by (simp add: dbWf_def runsWf_def)
  from filter_id_count [OF this, of i "\<lambda>r. rr_status r = RunStatusPending"] q assms(5)
  have one: "length (filter (\<lambda>r. rr_id r = i \<and> rr_status r = ''pending'') (dbRuns (wDb w))) = 1" by auto
  have ids: "rr_id ` set (tUpdate P (\<lambda>r. r\<lparr>rr_status := st, rr_started_at := t, rr_updated_at := u\<rparr>) rs) = rr_id ` set rs" for P st t u rs
    by (induction rs) (auto simp: tUpdate_def)
  have "i \<in> rr_id ` set (dbRuns (wDb w))" using q by blast
  with assms(1,3,4) scanRun_Inr [OF assms(4)] assms(5) one show ?thesis
    by (simp add: workerClaim_def claimTx_def WithinTx_def runsGet_def ClaimPending_def claimRow_def eventsCreate_def
        insertEvent_def runEvent_def zeroEvent_def bindIO_def tryIO_def timeNow_def mapErr_def returnIO_def
        calm_execDb calm_queryDb Let_def ids eventRow_def)
qed

section \<open>The faults to come\<close>

text \<open>No operation changes which of the later calls to the driver fail.\<close>

definition sameFaults :: "world \<Rightarrow> world \<Rightarrow> bool" where
  "sameFaults w w' \<longleftrightarrow> wFault w' = wFault w"

interpretation faults: world_preorder sameFaults
  by unfold_locales (auto simp: sameFaults_def)

named_theorems fault_intros \<open>operations that leave the faults to come alone\<close>

declare faults.follows_intros [fault_intros]

lemma faults_calls [fault_intros]:
  "follows sameFaults timeNow" "follows sameFaults NotifyDueJob" "follows sameFaults NotifyDispatch"
  "follows sameFaults (execDb f)" "follows sameFaults (queryDb q)"
  by (auto simp: follows_def sameFaults_def timeNow_def NotifyDueJob_def NotifyDispatch_def queryDb_def execDb_def Let_def
      split: prod.split sum.split)

lemma faults_WithinTx [fault_intros]:
  assumes "follows sameFaults m"
  shows "follows sameFaults (WithinTx m)"
proof -
  have c: "wFault (snd (execDb (\<lambda>d. (Inr (), d)) w)) = wFault w" for w
    using faults_calls(4) [of "\<lambda>d. (Inr (), d)"] by (simp add: follows_def sameFaults_def)
  have m: "wFault (snd (m w)) = wFault w" for w using assms by (simp add: follows_def sameFaults_def)
  show ?thesis
    unfolding follows_def sameFaults_def
  proof
    fix w
    obtain r1 w1 where 1: "execDb (\<lambda>d. (Inr (), d)) w = (r1, w1)" by force
    obtain r2 w2 where 2: "m w1 = (r2, w2)" by force
    obtain r3 w3 where 3: "execDb (\<lambda>d. (Inr (), d)) w2 = (r3, w3)" by force
    show "wFault (snd (WithinTx m w)) = wFault w"
      using c [of w] m [of w1] c [of w2] by (auto simp: WithinTx_def 1 2 3 split: sum.split)
  qed
qed

lemma faults_methods [fault_intros]:
  "follows sameFaults (jobsCreate j)" "follows sameFaults (jobsGet i)" "follows sameFaults (jobsUpdate j)"
  "follows sameFaults (jobsDelete i)" "follows sameFaults (UpdateScheduling i a b)" "follows sameFaults (ListDue t)"
  "follows sameFaults (runsCreate r)" "follows sameFaults (runsGet i)" "follows sameFaults (runsList g p)"
  "follows sameFaults (UpdateLogArtifacts i c e)" "follows sameFaults (ListPending n)"
  "follows sameFaults (DeleteTerminalBefore t)" "follows sameFaults (eventsCreate v)"
  "follows sameFaults (ClaimPending i t)" "follows sameFaults (UpdateStatus i s a b k m)"
  unfolding jobsCreate_def jobsGet_def jobsUpdate_def jobsDelete_def UpdateScheduling_def ListDue_def runsCreate_def
    runsGet_def runsList_def UpdateLogArtifacts_def ListPending_def DeleteTerminalBefore_def eventsCreate_def
    ClaimPending_def UpdateStatus_def Let_def
  by (intro fault_intros)+

lemma faults_services [fault_intros]:
  "follows sameFaults (CreateJob lib p inp)" "follows sameFaults (updateWrite lib i j ex)"
  "follows sameFaults (triggerWrite reason j)" "follows sameFaults (cancelWrite r)"
  unfolding CreateJob_def updateWrite_def triggerWrite_def cancelWrite_def Let_def
  by (intro fault_intros)+

lemma faults_halves [fault_intros]: "follows sameFaults (beginRequest p rq)" "follows sameFaults (endRequest lib p u)"
  by (cases rq; auto intro!: fault_intros) (cases u; auto simp: ignoring_def DeleteJob_def intro!: fault_intros)

lemma faults_processDueJob [fault_intros]: "follows sameFaults (processDueJob s lib j now)"
proof -
  have "follows sameFaults (splitStale s now t rs)" for t rs
    by (induction rs) (auto simp: finalizeStaleRunningRun_def Let_def intro!: fault_intros)
  moreover have "follows sameFaults (createDueRun r t m i a b)" for r t m i a b
    unfolding createDueRun_def by (intro fault_intros)
  ultimately show ?thesis
    unfolding processDueJob_def dueTx_def Let_def by (auto intro!: fault_intros split: option.split list.split)
qed

lemma faults_worker [fault_intros]:
  "follows sameFaults (workerClaim i r)" "follows sameFaults (workerAbort i r)" "follows sameFaults (workerFinish i j r out)"
proof -
  show "follows sameFaults (workerClaim i r)"
    unfolding workerClaim_def claimTx_def by (auto intro!: fault_intros split: sum.split claim.split)
  show "follows sameFaults (workerAbort i r)" unfolding workerAbort_def abortTx_def by (intro fault_intros)
  have "follows sameFaults (createRetry j q)" for q
    unfolding createRetry_def by (auto intro!: fault_intros)
  then show "follows sameFaults (workerFinish i j r out)"
    unfolding workerFinish_def finishTx_def recordStatus_def by (auto intro!: fault_intros)
qed

lemma faults_from: "follows sameFaults m \<Longrightarrow> m w = (r, w') \<Longrightarrow> wFault w' = wFault w"
  by (metis follows_def sameFaults_def snd_conv)

lemma step_faults: "step s lib p \<sigma> \<tau> \<Longrightarrow> wFault (sysWorld \<tau>) = wFault (sysWorld \<sigma>)"
proof (induction rule: step.induct)
  case (elsewhere \<sigma> w)
  then show ?case by (simp add: reading_def)
next
  case (due_list \<sigma> now js w)
  have "follows sameFaults (bindIO timeNow (\<lambda>now. bindIO (ListDue now) (\<lambda>js. returnIO (now, js))))"
    by (intro fault_intros)
  from faults_from [OF this due_list(2)] show ?case by simp
qed (simp_all add: workerEnds_def, (erule faults_from [rotated], intro fault_intros)+)

lemma reachable_calm: "reachable s lib p \<sigma> \<tau> \<Longrightarrow> calm (sysWorld \<sigma>) \<Longrightarrow> calm (sysWorld \<tau>)"
  by (induction rule: reachable.induct) (auto simp: calm_def dest!: step_faults)

text \<open>The five steps.\<close>

lemma oldest_pending_starts:
  assumes wf: "dbWf (wDb (sysWorld \<sigma>))" and calm: "calm (sysWorld \<sigma>)"
    and idle: "sysPending \<sigma> = []" "poolUsed (sysPool \<sigma>) < poolCap (sysPool \<sigma>)"
    and sel: "selectPending (int (poolCap (sysPool \<sigma>)) - int (poolUsed (sysPool \<sigma>))) (wDb (sysWorld \<sigma>)) = q # qs"
    and rows: "map_res scanRun (q # qs) = Inr rs"
    and job: "tFind jr_id (rr_job_id q) (dbJobs (wDb (sysWorld \<sigma>))) = Some r" "scanJob r = Inr j"
  obtains \<tau> run w1 run' job where "reachable s lib p \<sigma> \<tau>" and "sysExecuted \<tau> = sysExecuted \<sigma> @ [rr_id q]"
    and "sysWorkers \<tau> = sysWorkers \<sigma> @ [Executing (rr_id q) run' job]"
    and "sysPool \<tau> = (sysPool \<sigma>)\<lparr>poolUsed := Suc (poolUsed (sysPool \<sigma>))\<rparr>"
    and "wDb w1 = wDb (sysWorld \<sigma>)" and "workerClaim (rr_id q) run w1 = (Inr (Some run'), sysWorld \<tau>)"
proof -
  let ?w = "sysWorld \<sigma>" and ?i = "rr_id q"
  let ?n = "int (poolCap (sysPool \<sigma>)) - int (poolUsed (sysPool \<sigma>))"
  obtain run rs' where rs: "rs = run # rs'" and run: "scanRun q = Inr run"
    using rows by (auto simp: bind_ok_Inr)
  have q: "q \<in> set (dbRuns (wDb ?w))" "rr_status q = RunStatusPending"
    using selectPending_member [of q ?n "wDb ?w"] sel by simp_all
  have f: "tFind rr_id ?i (dbRuns (wDb ?w)) = Some q"
    by (rule tFind_member [OF _ q(1)]) (use wf in \<open>simp add: dbWf_def runsWf_def\<close>)
  let ?w1 = "?w\<lparr>wCalls := Suc (wCalls ?w)\<rparr>"
  let ?\<sigma>1 = "\<sigma>\<lparr>sysWorld := ?w1, sysPending := rs\<rparr>"
  have 1: "step s lib p \<sigma> ?\<sigma>1"
    using ListPending_calm [OF calm, of ?n rs] idle sel rows by (intro step.dispatch_list) simp_all
  obtain pool where a: "acquireWorkerToken False (sysPool \<sigma>) = Some pool"
    using idle(2) by (simp add: acquireWorkerToken_def)
  let ?ws = "sysWorkers \<sigma>"
  let ?\<sigma>2 = "?\<sigma>1\<lparr>sysPending := rs', sysPool := pool, sysWorkers := ?ws @ [Started ?i]\<rparr>"
  have 2: "step s lib p ?\<sigma>1 ?\<sigma>2"
    using step.dispatch_spawn [of ?\<sigma>1 run rs' pool s lib p] rs a scanRun_Inr [OF run] by simp
  have l: "workerLoad ?i ?w1 = (Inr (run, j), ?w1\<lparr>wCalls := Suc (Suc (wCalls ?w1))\<rparr>)"
    by (rule workerLoad_calm [OF _ _ run _ job(2)]) (use calm f job(1) in simp_all)
  let ?w2 = "?w1\<lparr>wCalls := Suc (Suc (wCalls ?w1))\<rparr>"
  let ?\<sigma>3 = "?\<sigma>2\<lparr>sysWorld := ?w2, sysWorkers := ?ws @ [Loaded ?i run j]\<rparr>"
  have 3: "reachable s lib p ?\<sigma>2 ?\<sigma>3"
    using reachable_load [of ?\<sigma>2 ?ws ?i "[]" run j ?w2 s lib p] l by simp
  obtain run' w3 where c: "workerClaim ?i run ?w2 = (Inr (Some run'), w3)"
    using workerClaim_calm [of ?w2 ?i q run run] calm wf f run q(2) by auto
  let ?\<sigma>4 = "?\<sigma>3\<lparr>sysWorld := w3, sysWorkers := ?ws @ [HasClaim ?i run' j], sysClaims := sysClaims \<sigma> @ [?i]\<rparr>"
  have 4: "step s lib p ?\<sigma>3 ?\<sigma>4"
    using step.claim [of ?\<sigma>3 ?ws ?i run j "[]" run' w3 s lib p] c by simp
  let ?\<sigma>5 = "?\<sigma>4\<lparr>sysWorkers := ?ws @ [Executing ?i run' (j\<lparr>jobTimeoutSec := effectiveTimeoutSec s (jobTimeoutSec j)\<rparr>)],
    sysExecuted := sysExecuted \<sigma> @ [?i]\<rparr>"
  have 5: "step s lib p ?\<sigma>4 ?\<sigma>5"
    using step.execute [of ?\<sigma>4 ?ws ?i run' j "[]" s lib p] by simp
  have "reachable s lib p \<sigma> ?\<sigma>5"
    by (rule reachable.more [OF reachable.more [OF reachable_trans [OF 3 reachable.more
          [OF reachable_step [OF 1] 2]] 4] 5])
  then show thesis
    by (rule that [of ?\<sigma>5 run' _ ?w2 run]) (use a c in \<open>simp_all add: acquireWorkerToken_def split: if_splits\<close>)
qed

lemma oldest_pending_executes:
  assumes wf: "dbWf (wDb (sysWorld \<sigma>))" and calm: "calm (sysWorld \<sigma>)"
    and idle: "sysPending \<sigma> = []" "poolUsed (sysPool \<sigma>) < poolCap (sysPool \<sigma>)"
    and sel: "selectPending (int (poolCap (sysPool \<sigma>)) - int (poolUsed (sysPool \<sigma>))) (wDb (sysWorld \<sigma>)) = q # qs"
    and rows: "map_res scanRun (q # qs) = Inr rs"
    and job: "tFind jr_id (rr_job_id q) (dbJobs (wDb (sysWorld \<sigma>))) = Some r" "scanJob r = Inr j"
  shows "\<exists>\<tau>. reachable s lib p \<sigma> \<tau> \<and> sysExecuted \<tau> = sysExecuted \<sigma> @ [rr_id q]"
  by (rule oldest_pending_starts [OF assms]) blast


end
