(* ===== verification/Rows.thy ===== *)
theory Rows
  imports System
begin

text \<open>
  Every row the program writes can be read back. A row is \<open>written\<close> if it is the row of a record whose times
  a column can hold; the clock and the cron library give such times, and no operation stores another.
  The operations carry preconditions and results, so the rules are those of a Hoare logic over the
  operations of the store: \<open>yields m Q\<close> says that \<open>m\<close> keeps every row written and what it returns
  satisfies \<open>Q\<close>. The records that requests, workers and loops hold between two statements are part of the
  invariant of the program.
\<close>

section \<open>Times\<close>

text \<open>An instant from which a 64-bit duration in either direction stays within the years 1 to 9999.\<close>

definition clockOk :: "time \<Rightarrow> bool" where
  "clockOk t \<longleftrightarrow> timeOk (t - 9223372036854775808) \<and> timeOk (t + 9223372036854775808)"

text \<open>The cron library answers with the zero time or an instant within five years.\<close>

definition cronRepresentable :: "cron_lib \<Rightarrow> bool" where
  "cronRepresentable lib \<longleftrightarrow> (\<forall>expr nxt loc t. cronNext lib expr = Inr nxt \<longrightarrow> clockOk t \<longrightarrow> timeOk (nxt loc t))"

lemma clockOk_timeOk: "clockOk t \<Longrightarrow> timeOk t"
  by (simp add: clockOk_def timeOk_def second_def)

lemma timeOk_0 [simp]: "timeOk 0"
  by (simp add: timeOk_def second_def)

lemma clockOk_add: "clockOk t \<Longrightarrow> timeOk (timeAdd t (secDuration n))"
  using wrap64_in_int64 [of "n * second"]
  by (simp add: clockOk_def timeOk_def timeAdd_def secDuration_def in_int64_def second_def)

lemma serviceNextRunAt_timeOk:
  "serviceNextRunAt lib j t = Inr u \<Longrightarrow> clockOk t \<Longrightarrow> cronRepresentable lib \<Longrightarrow> timeOk u"
  by (auto simp: serviceNextRunAt_def cronRepresentable_def clockOk_add split: option.splits if_splits sum.splits)

lemma schedulerNextRunAt_timeOk:
  "schedulerNextRunAt lib j t = Inr u \<Longrightarrow> clockOk t \<Longrightarrow> cronRepresentable lib \<Longrightarrow> timeOk u"
  by (auto simp: schedulerNextRunAt_def cronRepresentable_def clockOk_add split: option.splits if_splits sum.splits)

section \<open>Rows that were written\<close>

definition jobWritten :: "job_row \<Rightarrow> bool" where
  "jobWritten r \<longleftrightarrow> (\<exists>j. jobTimesOk j \<and> r = jobRow j)"

definition runWritten :: "run_row \<Rightarrow> bool" where
  "runWritten r \<longleftrightarrow> (\<exists>x. runTimesOk x \<and> r = runRow x)"

definition eventWritten :: "event_row \<Rightarrow> bool" where
  "eventWritten r \<longleftrightarrow> (\<exists>e. timeOk (evCreatedAt e) \<and> r = eventRow e)"

definition written :: "db \<Rightarrow> bool" where
  "written d \<longleftrightarrow> (\<forall>r\<in>set (dbJobs d). jobWritten r) \<and> (\<forall>r\<in>set (dbRuns d). runWritten r)
     \<and> (\<forall>r\<in>set (dbEvents d). eventWritten r)"

lemma writtenI: "jobTimesOk j \<Longrightarrow> jobWritten (jobRow j)" "runTimesOk x \<Longrightarrow> runWritten (runRow x)"
  "timeOk (evCreatedAt e) \<Longrightarrow> eventWritten (eventRow e)"
  by (auto simp: jobWritten_def runWritten_def eventWritten_def)

lemma jobWrittenE: "jobWritten r \<Longrightarrow> (\<And>j. jobTimesOk j \<Longrightarrow> r = jobRow j \<Longrightarrow> P) \<Longrightarrow> P"
  and runWrittenE: "runWritten q \<Longrightarrow> (\<And>x. runTimesOk x \<Longrightarrow> q = runRow x \<Longrightarrow> P) \<Longrightarrow> P"
  by (auto simp: jobWritten_def runWritten_def)

lemma jobWritten_scan: "jobWritten r \<Longrightarrow> scanJob r = Inr j \<Longrightarrow> jobTimesOk j"
  and jobWritten_decodes: "jobWritten r \<Longrightarrow> \<exists>j. scanJob r = Inr j"
  by (auto simp: jobWritten_def scanJob_jobRow)

lemma runWritten_scan: "runWritten r \<Longrightarrow> scanRun r = Inr x \<Longrightarrow> runTimesOk x"
  and runWritten_decodes: "runWritten r \<Longrightarrow> \<exists>x. scanRun r = Inr x"
  by (auto simp: runWritten_def scanRun_runRow)

lemma eventWritten_decodes: "eventWritten r \<Longrightarrow> \<exists>e. scanRunEvent r = Inr e"
  by (auto simp: eventWritten_def scanRunEvent_eventRow)

lemma map_res_all: "map_res f xs = Inr ys \<Longrightarrow> (\<And>x y. x \<in> set xs \<Longrightarrow> f x = Inr y \<Longrightarrow> P y) \<Longrightarrow> \<forall>y\<in>set ys. P y"
  by (blast dest: map_res_Inr_set)

lemma map_res_decodes: "(\<And>x. x \<in> set xs \<Longrightarrow> \<exists>y. f x = Inr y) \<Longrightarrow> \<exists>ys. map_res f xs = Inr ys"
  by (induction xs) force+

lemma written_emptyDb: "written emptyDb"
  by (simp add: written_def emptyDb_def)

section \<open>The statements write such rows\<close>

lemma jobRow_job: "(jobRow j)\<lparr>jr_id := i\<rparr> = jobRow (j\<lparr>jobID := i\<rparr>)"
  "(jobRow j)\<lparr>jr_next_run_at := encodeNullableTime a, jr_last_scheduled_at := encodeNullableTime b, jr_updated_at := encodeTime c\<rparr>
    = jobRow (j\<lparr>jobNextRunAt := a, jobLastScheduledAt := b, jobUpdatedAt := c\<rparr>)"
  "(jobRow j)\<lparr>jr_id := i, jr_created_at := jr_created_at (jobRow k)\<rparr> = jobRow (j\<lparr>jobID := i, jobCreatedAt := jobCreatedAt k\<rparr>)"
  by (simp_all add: jobRow_def)

lemma runRow_run: "(runRow r)\<lparr>rr_id := i\<rparr> = runRow (r\<lparr>runID := i\<rparr>)"
  "setRunStatus st (encodeNullableTime a) (encodeNullableTime b) c m (encodeTime u) (runRow r)
    = runRow (r\<lparr>runStatus := st, runStartedAt := a, runFinishedAt := b, runExitCode := c, runErrorMessage := m, runUpdatedAt := u\<rparr>)"
  "(runRow r)\<lparr>rr_status := st, rr_started_at := Some (encodeTime t), rr_updated_at := encodeTime u\<rparr>
    = runRow (r\<lparr>runStatus := st, runStartedAt := Some t, runUpdatedAt := u\<rparr>)"
  "(runRow r)\<lparr>rr_log_path := lp, rr_result_path := rp, rr_updated_at := encodeTime u\<rparr>
    = runRow (r\<lparr>runLogPath := lp, runResultPath := rp, runUpdatedAt := u\<rparr>)"
  by (simp_all add: runRow_def setRunStatus_def encodeNullableTime_def)

lemma written_jobs_update:
  assumes "written d" and "\<And>r. r \<in> set (dbJobs d) \<Longrightarrow> jobWritten r \<Longrightarrow> jobWritten (f r)"
  shows "written (d\<lparr>dbJobs := tUpdate P f (dbJobs d)\<rparr>)"
  using assms by (auto simp: written_def set_tUpdate)

lemma written_runs_update:
  assumes "written d" and "\<And>r. r \<in> set (dbRuns d) \<Longrightarrow> runWritten r \<Longrightarrow> runWritten (f r)"
  shows "written (d\<lparr>dbRuns := tUpdate P f (dbRuns d)\<rparr>)"
  using assms by (auto simp: written_def set_tUpdate)

lemma written_insertJob: "insertJob (jobRow j) d = (Inr i, d') \<Longrightarrow> jobTimesOk j \<Longrightarrow> written d \<Longrightarrow> written d'"
  by (auto simp: insertJob_def Let_def written_def jobRow_job jobTimesOk_def intro!: writtenI split: if_splits)

lemma written_updateJobRow:
  assumes "updateJobRow i (jobRow j) d = (Inr u, d')" and "jobTimesOk j" and "written d"
  shows "written d'"
proof -
  have d': "d' = d\<lparr>dbJobs := tUpdate (\<lambda>x. jr_id x = i)
      (\<lambda>x. (jobRow j)\<lparr>jr_id := jr_id x, jr_created_at := jr_created_at x\<rparr>) (dbJobs d)\<rparr>"
    using assms(1) by (auto simp: updateJobRow_def split: if_splits)
  show ?thesis
    unfolding d'
  proof (rule written_jobs_update [OF assms(3)])
    fix r assume "jobWritten r"
    then obtain k where k: "jobTimesOk k" "r = jobRow k" by (auto simp: jobWritten_def)
    with assms(2) have "jobTimesOk (j\<lparr>jobID := jr_id r, jobCreatedAt := jobCreatedAt k\<rparr>)" by (simp add: jobTimesOk_def)
    with k show "jobWritten ((jobRow j)\<lparr>jr_id := jr_id r, jr_created_at := jr_created_at r\<rparr>)"
      unfolding jobWritten_def by (metis jobRow_job(3))
  qed
qed

lemma written_updateJobScheduling:
  assumes "updateJobScheduling i (encodeNullableTime a) (encodeNullableTime b) (encodeTime c) d = (Inr u, d')"
    and "pred_option timeOk a" and "pred_option timeOk b" and "timeOk c" and "written d"
  shows "written d'"
proof -
  have "jobWritten (r\<lparr>jr_next_run_at := encodeNullableTime a, jr_last_scheduled_at := encodeNullableTime b,
      jr_updated_at := encodeTime c\<rparr>)" if "jobWritten r" for r
    using that assms(2-4) by (elim jobWrittenE) (simp add: jobRow_job writtenI jobTimesOk_def)
  with assms(1,5) show ?thesis by (auto simp: updateJobScheduling_def intro!: written_jobs_update)
qed

lemma written_deletions:
  "deleteJobRow i d = (Inr u, d') \<Longrightarrow> written d \<Longrightarrow> written d'"
  "deleteTerminalBeforeRows b d = (Inr n, d') \<Longrightarrow> written d \<Longrightarrow> written d'"
  by (auto simp: deleteJobRow_def deleteTerminalBeforeRows_def Let_def written_def)

lemma written_insertRun: "insertRun (runRow r) d = (Inr i, d') \<Longrightarrow> runTimesOk r \<Longrightarrow> written d \<Longrightarrow> written d'"
  by (auto simp: insertRun_def Let_def written_def runRow_run runTimesOk_def intro!: writtenI split: if_splits)

lemma written_updateRunStatusRow:
  assumes "updateRunStatusRow i st (encodeNullableTime a) (encodeNullableTime b) c m (encodeTime t) d = (Inr u, d')"
    and "pred_option timeOk a" and "pred_option timeOk b" and "timeOk t" and "written d"
  shows "written d'"
proof -
  have "runWritten (setRunStatus st (encodeNullableTime a) (encodeNullableTime b) c m (encodeTime t) r)" if "runWritten r" for r
    using that assms(2-4) by (elim runWrittenE) (simp add: runRow_run writtenI runTimesOk_def)
  with assms(1,5) show ?thesis by (auto simp: updateRunStatusRow_def intro!: written_runs_update)
qed

lemma written_claimRow:
  assumes "claimRow i (encodeTime a) (encodeTime t) d = (Inr n, d')" and "timeOk a" and "timeOk t" and "written d"
  shows "written d'"
proof -
  have "runWritten (r\<lparr>rr_status := st, rr_started_at := Some (encodeTime a), rr_updated_at := encodeTime t\<rparr>)" if "runWritten r" for r st
    using that assms(2,3) by (elim runWrittenE) (simp add: runRow_run writtenI runTimesOk_def)
  with assms(1,4) show ?thesis by (auto simp: claimRow_def Let_def intro!: written_runs_update)
qed

lemma written_updateLogArtifactsRow:
  assumes "updateLogArtifactsRow i a b (encodeTime t) d = (Inr u, d')" and "timeOk t" and "written d"
  shows "written d'"
proof -
  have "runWritten (r\<lparr>rr_log_path := a, rr_result_path := b, rr_updated_at := encodeTime t\<rparr>)" if "runWritten r" for r
    using that assms(2) by (elim runWrittenE) (simp add: runRow_run writtenI runTimesOk_def)
  with assms(1,3) show ?thesis by (auto simp: updateLogArtifactsRow_def intro!: written_runs_update)
qed

lemma written_insertEvent:
  "insertEvent (eventRow e) d = (Inr i, d') \<Longrightarrow> timeOk (evCreatedAt e) \<Longrightarrow> written d \<Longrightarrow> written d'"
  by (auto simp: insertEvent_Inr written_def eventRow_id intro!: writtenI)

section \<open>Operations with their results\<close>

definition sound :: "world \<Rightarrow> bool" where
  "sound w \<longleftrightarrow> written (wDb w) \<and> (\<forall>n. clockOk (wClock w n))"

definition yields :: "'a io \<Rightarrow> ('a \<Rightarrow> bool) \<Rightarrow> bool" where
  "yields m Q \<longleftrightarrow> (\<forall>w. sound w \<longrightarrow> sound (snd (m w)) \<and> (\<forall>x. fst (m w) = Inr x \<longrightarrow> Q x))"

named_theorems yields_intros \<open>rules for operations and what they return\<close>

lemma yieldsD: "yields m Q \<Longrightarrow> m w = (r, w') \<Longrightarrow> sound w \<Longrightarrow> sound w'"
  and yieldsR: "yields m Q \<Longrightarrow> m w = (Inr x, w') \<Longrightarrow> sound w \<Longrightarrow> Q x"
  by (auto simp: yields_def)

lemma yields_weaken: "yields m P \<Longrightarrow> (\<And>x. P x \<Longrightarrow> Q x) \<Longrightarrow> yields m Q"
  by (simp add: yields_def)

lemma yields_returnIO [yields_intros]: "Q x \<Longrightarrow> yields (returnIO x) Q"
  and yields_failIO [yields_intros]: "yields (failIO e) Q"
  and yields_liftRes [yields_intros]: "(\<And>x. r = Inr x \<Longrightarrow> Q x) \<Longrightarrow> yields (liftRes r) Q"
  by (simp_all add: yields_def returnIO_def failIO_def liftRes_def)

lemma yields_timeNow [yields_intros]: "(\<And>t. clockOk t \<Longrightarrow> Q t) \<Longrightarrow> yields timeNow Q"
  and yields_Notify [yields_intros]: "P () \<Longrightarrow> yields NotifyDueJob P" "P () \<Longrightarrow> yields NotifyDispatch P"
  by (auto simp: yields_def timeNow_def sound_def NotifyDueJob_def NotifyDispatch_def)

lemma yields_bindIO [yields_intros]:
  assumes "yields m (\<lambda>x. yields (f x) Q)"
  shows "yields (bindIO m f) Q"
  unfolding yields_def
proof (intro allI impI)
  fix w assume w: "sound w"
  obtain r w1 where m: "m w = (r, w1)" by force
  have 1: "sound w1" by (rule yieldsD [OF assms m w])
  show "sound (snd (bindIO m f w)) \<and> (\<forall>x. fst (bindIO m f w) = Inr x \<longrightarrow> Q x)"
  proof (cases r)
    case (Inr x)
    with assms m w have "yields (f x) Q" by (metis yieldsR)
    with 1 m Inr show ?thesis by (simp add: bindIO_def yields_def)
  qed (use 1 m in \<open>simp add: bindIO_def\<close>)
qed

lemma yields_mapErr [yields_intros]: "yields m Q \<Longrightarrow> yields (mapErr g m) Q"
  by (auto simp: yields_def mapErr_def split: prod.splits sum.splits)

lemma yields_tryIO [yields_intros]: "yields m (\<lambda>x. Q (Inr x)) \<Longrightarrow> (\<And>e. Q (Inl e)) \<Longrightarrow> yields (tryIO m) Q"
  by (auto simp: yields_def tryIO_def split: prod.splits) (metis fst_conv sum.exhaust)

lemma yields_execDb:
  assumes "\<And>d x d'. f d = (Inr x, d') \<Longrightarrow> written d \<Longrightarrow> written d' \<and> Q x"
  shows "yields (execDb f) Q"
  using assms by (auto simp: yields_def execDb_def Let_def sound_def split: prod.splits sum.splits)

lemma yields_queryDb: "(\<And>d x. q d = Inr x \<Longrightarrow> written d \<Longrightarrow> Q x) \<Longrightarrow> yields (queryDb q) Q"
  unfolding queryDb_def by (rule yields_execDb) auto

lemma yields_WithinTx [yields_intros]:
  assumes "yields m Q"
  shows "yields (WithinTx m) Q"
  unfolding yields_def
proof (intro allI impI)
  fix w assume w: "sound w"
  have call: "yields (execDb (\<lambda>d. (Inr (), d))) (\<lambda>_. True)" by (rule yields_execDb) simp_all
  obtain r1 w1 where 1: "execDb (\<lambda>d. (Inr (), d)) w = (r1, w1)" by force
  have s1: "sound w1" by (rule yieldsD [OF call 1 w])
  obtain r2 w2 where 2: "m w1 = (r2, w2)" by force
  have s2: "sound w2" by (rule yieldsD [OF assms 2 s1])
  obtain r3 w3 where 3: "execDb (\<lambda>d. (Inr (), d)) w2 = (r3, w3)" by force
  have s3: "sound w3" by (rule yieldsD [OF call 3 s2])
  have restored: "sound (v\<lparr>wDb := wDb w1\<rparr>)" if "sound v" for v using that s1 by (simp add: sound_def)
  show "sound (snd (WithinTx m w)) \<and> (\<forall>x. fst (WithinTx m w) = Inr x \<longrightarrow> Q x)"
    using s1 s2 s3 restored yieldsR [OF assms _ s1] 2
    by (cases r1; cases r2; cases r3) (simp_all add: WithinTx_def 1 2 3)
qed

lemma yields_if [yields_intros]: "(b \<Longrightarrow> yields m Q) \<Longrightarrow> (\<not> b \<Longrightarrow> yields n Q) \<Longrightarrow> yields (if b then m else n) Q"
  and yields_case_option [yields_intros]: "(v = None \<Longrightarrow> yields m Q) \<Longrightarrow> (\<And>x. v = Some x \<Longrightarrow> yields (f x) Q)
    \<Longrightarrow> yields (case v of None \<Rightarrow> m | Some x \<Rightarrow> f x) Q"
  and yields_case_sum [yields_intros]: "(\<And>e. s = Inl e \<Longrightarrow> yields (g e) Q) \<Longrightarrow> (\<And>x. s = Inr x \<Longrightarrow> yields (f x) Q)
    \<Longrightarrow> yields (case s of Inl e \<Rightarrow> g e | Inr x \<Rightarrow> f x) Q"
  and yields_case_prod [yields_intros]: "(\<And>a b. q = (a, b) \<Longrightarrow> yields (h a b) Q) \<Longrightarrow> yields (case q of (a, b) \<Rightarrow> h a b) Q"
  by (simp, cases v, simp_all, cases s, simp_all, cases q, simp)

section \<open>The repositories\<close>

lemma yields_jobsGet [yields_intros]: "(\<And>j. jobTimesOk j \<Longrightarrow> Q j) \<Longrightarrow> yields (jobsGet i) Q"
  unfolding jobsGet_def
  by (rule yields_queryDb) (auto simp: written_def split: option.splits dest!: tFind_Some intro: jobWritten_scan)

lemma yields_runsGet [yields_intros]: "(\<And>r. runTimesOk r \<Longrightarrow> Q r) \<Longrightarrow> yields (runsGet i) Q"
  unfolding runsGet_def
  by (rule yields_queryDb) (auto simp: written_def split: option.splits dest!: tFind_Some intro: runWritten_scan)

lemma set_sqlOffset: "set (sqlOffset n rs) \<subseteq> set rs"
  by (simp add: sqlOffset_def set_drop_subset)

lemma scanned_jobs: "map_res scanJob rs = Inr js \<Longrightarrow> (\<And>r. r \<in> set rs \<Longrightarrow> jobWritten r) \<Longrightarrow> \<forall>j\<in>set js. jobTimesOk j"
  and scanned_runs: "map_res scanRun qs = Inr xs \<Longrightarrow> (\<And>q. q \<in> set qs \<Longrightarrow> runWritten q) \<Longrightarrow> \<forall>x\<in>set xs. runTimesOk x"
  by (blast dest: map_res_Inr_set jobWritten_scan runWritten_scan)+

lemma yields_ListDue [yields_intros]: "(\<And>js. \<forall>j\<in>set js. jobTimesOk j \<Longrightarrow> Q js) \<Longrightarrow> yields (ListDue t) Q"
  unfolding ListDue_def
  by (intro yields_intros yields_queryDb) (auto simp: selectDue_def written_def dest: scanned_jobs)

lemma yields_ListPending [yields_intros]: "(\<And>rs. \<forall>r\<in>set rs. runTimesOk r \<Longrightarrow> Q rs) \<Longrightarrow> yields (ListPending n) Q"
  unfolding ListPending_def Let_def
  by (intro yields_intros yields_queryDb)
    (auto simp: selectPending_def written_def dest!: scanned_runs subsetD [OF set_sqlLimit])

lemma yields_runsList [yields_intros]:
  "(\<And>rs n. \<forall>r\<in>set rs. runTimesOk r \<Longrightarrow> Q (rs, n)) \<Longrightarrow> yields (runsList f p) Q"
  unfolding runsList_def Let_def
  by (intro yields_intros yields_queryDb)
    (auto simp: written_def dest!: scanned_runs subsetD [OF set_sqlLimit] subsetD [OF set_sqlOffset])

lemma yields_jobsCreate [yields_intros]: "jobTimesOk j \<Longrightarrow> (\<And>j. jobTimesOk j \<Longrightarrow> Q j) \<Longrightarrow> yields (jobsCreate j) Q"
  unfolding jobsCreate_def Let_def
  by (intro yields_intros yields_execDb conjI)
    (auto simp: jobTimesOk_def clockOk_timeOk elim!: written_insertJob split: if_splits)

lemma yields_jobsUpdate [yields_intros]: "jobTimesOk j \<Longrightarrow> (\<And>j. jobTimesOk j \<Longrightarrow> Q j) \<Longrightarrow> yields (jobsUpdate j) Q"
  unfolding jobsUpdate_def Let_def
  by (intro yields_intros yields_execDb conjI)
    (auto simp: jobTimesOk_def clockOk_timeOk elim!: written_updateJobRow split: if_splits)

lemma yields_deletions [yields_intros]:
  "Q () \<Longrightarrow> yields (jobsDelete i) Q" "(\<And>n. P n) \<Longrightarrow> yields (DeleteTerminalBefore t) P"
  unfolding jobsDelete_def DeleteTerminalBefore_def
  by (intro yields_intros yields_execDb; auto elim!: written_deletions)+

lemma yields_UpdateScheduling [yields_intros]:
  "pred_option timeOk a \<Longrightarrow> pred_option timeOk b \<Longrightarrow> Q () \<Longrightarrow> yields (UpdateScheduling i a b) Q"
  unfolding UpdateScheduling_def
  by (intro yields_intros yields_execDb) (auto elim!: written_updateJobScheduling intro: clockOk_timeOk)

lemma yields_runsCreate [yields_intros]: "runTimesOk r \<Longrightarrow> (\<And>r. runTimesOk r \<Longrightarrow> Q r) \<Longrightarrow> yields (runsCreate r) Q"
  unfolding runsCreate_def Let_def
  by (intro yields_intros yields_execDb conjI)
    (auto simp: runTimesOk_def clockOk_timeOk elim!: written_insertRun split: if_splits)

lemma yields_UpdateStatus [yields_intros]:
  "pred_option timeOk a \<Longrightarrow> pred_option timeOk b \<Longrightarrow> Q () \<Longrightarrow> yields (UpdateStatus i st a b c m) Q"
  unfolding UpdateStatus_def
  by (intro yields_intros yields_execDb) (auto elim!: written_updateRunStatusRow intro: clockOk_timeOk)

lemma yields_ClaimPending [yields_intros]: "timeOk t \<Longrightarrow> (\<And>b. Q b) \<Longrightarrow> yields (ClaimPending i t) Q"
  unfolding ClaimPending_def
  by (intro yields_intros yields_execDb conjI) (auto elim!: written_claimRow intro: clockOk_timeOk)

lemma yields_UpdateLogArtifacts [yields_intros]: "Q () \<Longrightarrow> yields (UpdateLogArtifacts i a b) Q"
  unfolding UpdateLogArtifacts_def
  by (intro yields_intros yields_execDb) (auto elim!: written_updateLogArtifactsRow intro: clockOk_timeOk)

lemma yields_eventsCreate [yields_intros]: "timeOk (evCreatedAt e) \<Longrightarrow> (\<And>e. Q e) \<Longrightarrow> yields (eventsCreate e) Q"
  unfolding eventsCreate_def
  by (intro yields_intros yields_execDb conjI) (auto elim!: written_insertEvent intro: clockOk_timeOk)

section \<open>The services, the scan and the workers\<close>

lemma buildJob_times: "buildJob p inp = Inr j \<Longrightarrow> jobTimesOk j"
  by (auto simp: buildJob_def bind_ok_Inr Let_def zeroJob_def jobTimesOk_def simp del: firstErr.simps)

lemma yields_CreateJob [yields_intros]:
  "cronRepresentable lib \<Longrightarrow> (\<And>j. Q j) \<Longrightarrow> yields (CreateJob lib p inp) Q"
  unfolding CreateJob_def Let_def
  by (intro yields_intros)
    (auto simp: jobTimesOk_def clockOk_timeOk intro: serviceNextRunAt_timeOk dest: buildJob_times)

lemma yields_updateWrite [yields_intros]:
  "cronRepresentable lib \<Longrightarrow> jobTimesOk job \<Longrightarrow> jobTimesOk ex \<Longrightarrow> (\<And>j. Q j) \<Longrightarrow> yields (updateWrite lib i job ex) Q"
  unfolding updateWrite_def Let_def
  by (intro yields_intros) (auto simp: jobTimesOk_def clockOk_timeOk intro: serviceNextRunAt_timeOk)

lemma yields_triggerWrite [yields_intros]: "(\<And>r. Q r) \<Longrightarrow> yields (triggerWrite reason job) Q"
  unfolding triggerWrite_def Let_def
  by (intro yields_intros) (auto simp: runTimesOk_def zeroRun_def zeroEvent_def clockOk_timeOk)

lemma yields_cancelWrite [yields_intros]: "runTimesOk r \<Longrightarrow> (\<And>r. Q r) \<Longrightarrow> yields (cancelWrite r) Q"
  unfolding cancelWrite_def Let_def
  by (intro yields_intros) (auto simp: runTimesOk_def)

lemma startOf_timeOk: "runTimesOk r \<Longrightarrow> timeOk (startOf r)"
  by (auto simp: startOf_def runTimesOk_def split: option.split)

lemma yields_splitStale [yields_intros]:
  "\<forall>r\<in>set rs. runTimesOk r \<Longrightarrow> timeOk now \<Longrightarrow> (\<And>x. Q x) \<Longrightarrow> yields (splitStale s now t rs) Q"
proof (induction rs arbitrary: Q)
  case (Cons r rs)
  then show ?case
    by (auto simp: finalizeStaleRunningRun_def Let_def startOf_timeOk zeroEvent_def intro!: yields_intros Cons.IH)
qed (auto intro: yields_intros)

lemma yields_createDueRun [yields_intros]:
  "runTimesOk r \<Longrightarrow> timeOk a \<Longrightarrow> timeOk b \<Longrightarrow> Q () \<Longrightarrow> yields (createDueRun r t m i a b) Q"
  unfolding createDueRun_def by (intro yields_intros) (auto simp: zeroEvent_def)

lemma yields_processDueJob [yields_intros]:
  assumes "cronRepresentable lib" and "jobTimesOk j" and "clockOk now" and "Q ()"
  shows "yields (processDueJob s lib j now) Q"
proof -
  have runs: "runTimesOk (pendingDueRun j t)" "runTimesOk (skippedDueRun j t now m)" if "timeOk t" for t m
    using that assms(3) by (auto simp: pendingDueRun_def skippedDueRun_def runTimesOk_def zeroRun_def clockOk_timeOk)
  have "yields (dueTx s j now n t) Q" if "timeOk n" "timeOk t" for n t
    unfolding dueTx_def Let_def
    by (intro yields_intros) (use that assms runs in \<open>auto simp: clockOk_timeOk intro!: yields_intros split: list.split\<close>)
  moreover have "timeOk t" if "jobNextRunAt j = Some t" for t using assms(2) that by (simp add: jobTimesOk_def)
  ultimately show ?thesis
    unfolding processDueJob_def
    by (intro yields_intros) (use assms in \<open>auto intro: schedulerNextRunAt_timeOk\<close>)
qed

lemma yields_workerClaim [yields_intros]:
  assumes "runTimesOk run" and "Q None" and "\<And>r. runTimesOk r \<Longrightarrow> Q (Some r)"
  shows "yields (workerClaim i run) Q"
proof -
  have tx: "yields (claimTx i t) P" if "clockOk t" and "\<And>c. P c" for P t
    unfolding claimTx_def
    by (intro yields_intros) (use that in \<open>auto simp: runTimesOk_def runEvent_def zeroEvent_def clockOk_timeOk\<close>)
  show ?thesis
    unfolding workerClaim_def
    by (intro yields_bindIO yields_timeNow yields_tryIO yields_WithinTx tx)
      (use assms in \<open>auto simp: runTimesOk_def clockOk_timeOk intro!: yields_intros split: sum.split claim.split\<close>)
qed

lemma yields_workerAbort [yields_intros]: "runTimesOk run \<Longrightarrow> Q () \<Longrightarrow> yields (workerAbort i run) Q"
  unfolding workerAbort_def abortTx_def
  by (intro yields_intros) (auto simp: runTimesOk_def runEvent_def zeroEvent_def clockOk_timeOk)

lemma yields_workerFinish [yields_intros]:
  assumes "runTimesOk run" and "Q ()"
  shows "yields (workerFinish i job run out) Q"
proof -
  have run: "runTimesOk (withArtifacts out run)"
    using assms(1) by (simp add: withArtifacts_def runTimesOk_def Let_def split: option.split)
  have retry: "yields (createRetry job r) P" if "runTimesOk r" "P ()" for r P
    unfolding createRetry_def using that
    by (auto simp: buildRetryRun_Some runTimesOk_def zeroRun_def zeroEvent_def intro!: yields_intros)
  have outcome: "yields (recordStatus i r t st c m et msg) P" if "runTimesOk r" "clockOk t" "P ()" for r t st c m et msg P
    unfolding recordStatus_def using that
    by (auto simp: runTimesOk_def runEvent_def zeroEvent_def clockOk_timeOk intro!: yields_intros)
  show ?thesis
    unfolding workerFinish_def finishTx_def
    by (intro yields_intros outcome retry run) (use assms in auto)
qed

section \<open>The program\<close>

fun underwayOk :: "underway \<Rightarrow> bool" where
  "underwayOk (Updating i job ex) = (jobTimesOk job \<and> jobTimesOk ex)"
| "underwayOk (Cancelling run) = runTimesOk run"
| "underwayOk _ = True"

fun workerOk :: "worker \<Rightarrow> bool" where
  "workerOk (Started i) = True"
| "workerOk (HasRun i run) = runTimesOk run"
| "workerOk (Loaded i run job) = runTimesOk run"
| "workerOk (HasClaim i run job) = runTimesOk run"
| "workerOk (Executing i run job) = runTimesOk run"

definition rowsInv :: "sys \<Rightarrow> bool" where
  "rowsInv \<sigma> \<longleftrightarrow> sound (sysWorld \<sigma>) \<and> list_all underwayOk (sysUnderway \<sigma>) \<and> list_all workerOk (sysWorkers \<sigma>)
     \<and> list_all jobTimesOk (sysDue \<sigma>) \<and> (sysDue \<sigma> \<noteq> [] \<longrightarrow> clockOk (sysDueNow \<sigma>))"

lemma yields_halves:
  "yields (beginRequest p rq) underwayOk"
  "cronRepresentable lib \<Longrightarrow> underwayOk u \<Longrightarrow> yields (endRequest lib p u) (\<lambda>_. True)"
  by (cases rq; auto intro!: yields_intros intro: buildJob_times)
    (cases u; auto simp: ignoring_def DeleteJob_def intro!: yields_intros)

lemma rowsInv_read: "rowsInv \<sigma> \<Longrightarrow> reading (sysWorld \<sigma>) w \<Longrightarrow> rowsInv (\<sigma>\<lparr>sysWorld := w\<rparr>)"
  by (simp add: rowsInv_def reading_def sound_def)

lemma rowsInv_ends:
  assumes "rowsInv \<sigma>" and "sysWorkers \<sigma> = xs @ x # ys" and "yields m Q" and "m (sysWorld \<sigma>) = (r, w)"
  shows "rowsInv (workerEnds xs ys w \<sigma>)"
  using assms yieldsD [OF assms(3,4)] by (simp add: rowsInv_def workerEnds_def)

lemma rowsInv_step:
  assumes "step s lib p \<sigma> \<tau>" and "cronRepresentable lib" and I: "rowsInv \<sigma>"
  shows "rowsInv \<tau>"
  using assms(1)
proof cases
  case (elsewhere w)
  then show ?thesis using rowsInv_read [OF I] by simp
next
  case (request_begins rq u w)
  have "sound w" "underwayOk u"
    using yieldsD [OF yields_halves(1) request_begins(2)] yieldsR [OF yields_halves(1) request_begins(2)] I
    by (simp_all add: rowsInv_def)
  with request_begins(1) I show ?thesis by (simp add: rowsInv_def)
next
  case (request_ends xs u ys r w)
  then have "underwayOk u" using I by (simp add: rowsInv_def)
  from yieldsD [OF yields_halves(2) [OF assms(2) this] request_ends(3)] I request_ends show ?thesis
    by (simp add: rowsInv_def)
next
  case (due_list now js w)
  have y: "yields (bindIO timeNow (\<lambda>now. bindIO (ListDue now) (\<lambda>js. returnIO (now, js))))
      (\<lambda>(now, js). clockOk now \<and> list_all jobTimesOk js)"
    by (intro yields_intros) (simp add: list_all_iff)
  from yieldsD [OF y due_list(3)] yieldsR [OF y due_list(3)] I due_list(1) show ?thesis by (simp add: rowsInv_def)
next
  case (due_job j js r w)
  then have "yields (processDueJob s lib j (sysDueNow \<sigma>)) (\<lambda>_. True)"
    using I assms(2) by (intro yields_processDueJob) (simp_all add: rowsInv_def)
  from yieldsD [OF this due_job(3)] I due_job(1,2) show ?thesis by (simp add: rowsInv_def)
next
  case (dispatch_list rs w)
  from yieldsD [OF yields_ListPending dispatch_list(4), of "\<lambda>_. True"] I dispatch_list(1) show ?thesis
    by (simp add: rowsInv_def)
next
  case (dispatch_spawn run rs q)
  with I show ?thesis by (simp add: rowsInv_def)
next
  case dispatch_stop
  with I show ?thesis by (simp add: rowsInv_def)
next
  case (load_run xs i ys run w)
  have y: "yields (runsGet i) runTimesOk" by (intro yields_intros)
  from yieldsD [OF y load_run(3)] yieldsR [OF y load_run(3)] I load_run(1,2) show ?thesis by (simp add: rowsInv_def)
next
  case (load_run_fails xs i ys e w)
  from rowsInv_ends [OF I load_run_fails(2) yields_runsGet load_run_fails(3)] load_run_fails(1) show ?thesis by auto
next
  case (load_job xs i run ys job w)
  have y: "yields (jobsGet (runJobID run)) jobTimesOk" by (intro yields_intros)
  from yieldsD [OF y load_job(3)] I load_job(1,2) show ?thesis by (simp add: rowsInv_def)
next
  case (load_job_fails xs i run ys e w)
  from rowsInv_ends [OF I load_job_fails(2) yields_jobsGet load_job_fails(3)] load_job_fails(1) show ?thesis by auto
next
  case (claim xs i run job ys run' w)
  then have y: "yields (workerClaim i run) (\<lambda>r. \<forall>q. r = Some q \<longrightarrow> runTimesOk q)"
    using I by (intro yields_workerClaim) (simp_all add: rowsInv_def)
  from yieldsD [OF y claim(3)] yieldsR [OF y claim(3)] I claim(1,2) show ?thesis by (simp add: rowsInv_def)
next
  case (claim_refused xs i run job ys r w)
  then have "yields (workerClaim i run) (\<lambda>_. True)" using I by (intro yields_workerClaim) (simp_all add: rowsInv_def)
  from rowsInv_ends [OF I claim_refused(2) this claim_refused(3)] claim_refused(1) show ?thesis by simp
next
  case (abort xs i run job ys r w)
  then have "yields (workerAbort i run) (\<lambda>_. True)" using I by (intro yields_workerAbort) (simp_all add: rowsInv_def)
  from rowsInv_ends [OF I abort(2) this abort(3)] abort(1) show ?thesis by simp
next
  case (execute xs i run job ys)
  with I show ?thesis by (simp add: rowsInv_def)
next
  case (finish xs i run job ys out r w)
  then have "yields (workerFinish i job run out) (\<lambda>_. True)" using I by (intro yields_workerFinish) (simp_all add: rowsInv_def)
  from rowsInv_ends [OF I finish(2) this finish(3)] finish(1) show ?thesis by simp
next
  case (prune_rows t r w)
  from yieldsD [OF yields_deletions(2) prune_rows(2), of "\<lambda>_. True"] I prune_rows(1) show ?thesis
    by (simp add: rowsInv_def)
qed

lemma rowsInv_initial: "initial n \<sigma> \<Longrightarrow> sound (sysWorld \<sigma>) \<Longrightarrow> rowsInv \<sigma>"
  by (simp add: initial_def rowsInv_def)

lemma reachable_rowsInv:
  "reachable s lib p \<sigma>0 \<sigma> \<Longrightarrow> cronRepresentable lib \<Longrightarrow> rowsInv \<sigma>0 \<Longrightarrow> rowsInv \<sigma>"
  by (induction rule: reachable.induct) (auto intro: rowsInv_step)

text \<open>What the database of such a state can be read as.\<close>

lemma sound_decodes:
  assumes "sound w"
  shows "r \<in> set (dbJobs (wDb w)) \<Longrightarrow> \<exists>j. scanJob r = Inr j"
    and "q \<in> set (dbRuns (wDb w)) \<Longrightarrow> \<exists>x. scanRun q = Inr x"
    and "v \<in> set (dbEvents (wDb w)) \<Longrightarrow> \<exists>e. scanRunEvent v = Inr e"
  using assms by (auto simp: sound_def written_def intro: jobWritten_decodes runWritten_decodes eventWritten_decodes)

end
