(* ===== verification/Liveness.thy ===== *)
theory Liveness
  imports Progress Rows
begin

text \<open>
  No run is stuck: whatever has happened, as long as the driver answers and there is at least one worker
  token, the program can still execute any pending run. A full pool frees a token, since every live worker
  can come to its end; the dispatch loop then takes the pending runs in their order, and each
  one that is executed leaves fewer before the one in question.
\<close>

section \<open>What leaves a pending run alone\<close>

definition pendingRows :: "db \<Rightarrow> run_row list" where
  "pendingRows d = filter (\<lambda>r. rr_status r = RunStatusPending) (dbRuns d)"

text \<open>The pending row \<open>q\<close> stays, and no pending row is added.\<close>

definition sparing :: "run_row \<Rightarrow> db \<Rightarrow> db \<Rightarrow> bool" where
  "sparing q d d' \<longleftrightarrow> (q \<in> set (pendingRows d) \<longrightarrow> q \<in> set (pendingRows d'))
     \<and> length (pendingRows d') \<le> length (pendingRows d)"

interpretation spares: db_preorder "sparing q" for q
  by unfold_locales (auto simp: sparing_def)

named_theorems spare_intros \<open>operations that leave a pending run alone\<close>

declare spares.obeys_intros [spare_intros]

lemma length_filter_le_mono: "(\<And>x. P x \<Longrightarrow> Q x) \<Longrightarrow> length (filter P xs) \<le> length (filter Q xs)"
  by (induction xs) auto

lemma sparing_tUpdate:
  assumes "\<And>r. P r \<Longrightarrow> rr_id r \<noteq> rr_id q" and "\<And>r. rr_status (f r) = RunStatusPending \<Longrightarrow> rr_status r = RunStatusPending"
  shows "sparing q d (d\<lparr>dbRuns := tUpdate P f (dbRuns d)\<rparr>)"
  unfolding sparing_def
proof
  show "q \<in> set (pendingRows d) \<longrightarrow> q \<in> set (pendingRows (d\<lparr>dbRuns := tUpdate P f (dbRuns d)\<rparr>))"
    using assms(1) by (auto simp: pendingRows_def set_tUpdate image_iff)
  have "length (filter (\<lambda>r. rr_status (if P r then f r else r) = RunStatusPending) (dbRuns d)) \<le> length (pendingRows d)"
    unfolding pendingRows_def by (rule length_filter_le_mono) (use assms(2) in \<open>auto split: if_splits\<close>)
  then show "length (pendingRows (d\<lparr>dbRuns := tUpdate P f (dbRuns d)\<rparr>)) \<le> length (pendingRows d)"
    by (simp add: pendingRows_def tUpdate_def filter_map o_def)
qed

lemma sparing_same_runs: "dbRuns d' = dbRuns d \<Longrightarrow> sparing q d d'"
  by (simp add: sparing_def pendingRows_def)

lemma spare_methods [spare_intros]:
  "obeys (sparing q) (runsGet k)" "obeys (sparing q) (eventsCreate e)"
  "i \<noteq> rr_id q \<Longrightarrow> obeys (sparing q) (ClaimPending i t)" "i \<noteq> rr_id q \<Longrightarrow> obeys (sparing q) (UpdateLogArtifacts i a b)"
  "i \<noteq> rr_id q \<Longrightarrow> st \<noteq> RunStatusPending \<Longrightarrow> obeys (sparing q) (UpdateStatus i st x y c m)"
proof -
  show "obeys (sparing q) (runsGet k)" unfolding runsGet_def by (intro spare_intros)
  show "obeys (sparing q) (eventsCreate e)"
    unfolding eventsCreate_def
    by (intro spare_intros spares.obeys_execDb) (auto simp: insertEvent_Inr intro: sparing_same_runs)
  assume i: "i \<noteq> rr_id q"
  show "obeys (sparing q) (ClaimPending i t)"
    unfolding ClaimPending_def
    by (intro spare_intros spares.obeys_execDb) (use i in \<open>auto simp: claimRow_def Let_def intro!: sparing_tUpdate\<close>)
  show "obeys (sparing q) (UpdateLogArtifacts i a b)"
    unfolding UpdateLogArtifacts_def
    by (intro spare_intros spares.obeys_execDb) (use i in \<open>auto simp: updateLogArtifactsRow_def intro!: sparing_tUpdate\<close>)
  assume st: "st \<noteq> RunStatusPending"
  show "obeys (sparing q) (UpdateStatus i st x y c m)"
    unfolding UpdateStatus_def
    by (intro spare_intros spares.obeys_execDb) (use i st in \<open>auto simp: updateRunStatusRow_def intro!: sparing_tUpdate\<close>)
qed

lemma spare_workerClaim: "i \<noteq> rr_id q \<Longrightarrow> obeys (sparing q) (workerClaim i run)"
  unfolding workerClaim_def claimTx_def
  by (intro spares.obeys_bindIO) (auto intro!: spare_intros split: sum.split claim.split)

text \<open>An execution that ends well, and so has no retry.\<close>

definition endsWell :: exec_outcome where
  "endsWell = \<lparr>outResult = None, outErr = None, outCtxErr = None\<rparr>"

lemma spare_workerFinish: "i \<noteq> rr_id q \<Longrightarrow> obeys (sparing q) (workerFinish i job run endsWell)"
  unfolding workerFinish_def finishTx_def recordStatus_def endsWell_def
  by (intro spares.obeys_bindIO) (auto intro!: spare_intros)

section \<open>A worker comes to its end\<close>

text \<open>A run that a worker executes is in the history.\<close>

definition ran :: "sys \<Rightarrow> bool" where
  "ran \<sigma> \<longleftrightarrow> (\<forall>i run job. Executing i run job \<in> set (sysWorkers \<sigma>) \<longrightarrow> i \<in> set (sysExecuted \<sigma>))"

lemma step_ran: "step s lib p \<sigma> \<tau> \<Longrightarrow> ran \<sigma> \<Longrightarrow> ran \<tau>"
  by (induction rule: step.induct) (auto simp: ran_def workerEnds_def)

lemma reachable_ran: "reachable s lib p \<sigma>0 \<sigma> \<Longrightarrow> initial n \<sigma>0 \<Longrightarrow> ran \<sigma>"
proof (induction rule: reachable.induct)
  case start
  then show ?case by (simp add: initial_def ran_def)
qed (blast intro: step_ran)

definition ended :: "run_row \<Rightarrow> worker list \<Rightarrow> sys \<Rightarrow> sys \<Rightarrow> bool" where
  "ended q ws \<sigma> \<tau> \<longleftrightarrow> sysWorkers \<tau> = ws \<and> sysPool \<tau> = releaseWorkerToken (sysPool \<sigma>)
     \<and> sparing q (wDb (sysWorld \<sigma>)) (wDb (sysWorld \<tau>))"

text \<open>Either the run in question has been executed on the way, or the worker is gone and the run waits as
  before.\<close>

definition canEnd :: "scheduler \<Rightarrow> cron_lib \<Rightarrow> timeout_policy \<Rightarrow> run_row \<Rightarrow> worker list \<Rightarrow> sys \<Rightarrow> bool" where
  "canEnd s lib p q ws \<sigma> \<longleftrightarrow>
     (\<exists>\<tau>. reachable s lib p \<sigma> \<tau> \<and> (rr_id q \<in> set (sysExecuted \<tau>) \<or> ended q ws \<sigma> \<tau>))"

lemma canEnd_executed: "rr_id q \<in> set (sysExecuted \<sigma>) \<Longrightarrow> canEnd s lib p q ws \<sigma>"
  by (auto simp: canEnd_def intro: reachable.start)

lemma canEnd_later:
  assumes "step s lib p \<sigma> \<sigma>1" and "sysPool \<sigma>1 = sysPool \<sigma>" and "sparing q (wDb (sysWorld \<sigma>)) (wDb (sysWorld \<sigma>1))"
    and "canEnd s lib p q ws \<sigma>1"
  shows "canEnd s lib p q ws \<sigma>"
proof -
  from assms(4) obtain \<tau> where \<tau>: "reachable s lib p \<sigma>1 \<tau>" "rr_id q \<in> set (sysExecuted \<tau>) \<or> ended q ws \<sigma>1 \<tau>"
    by (auto simp: canEnd_def)
  from reachable_trans [OF \<tau>(1) reachable_step [OF assms(1)]] have "reachable s lib p \<sigma> \<tau>" .
  moreover have "ended q ws \<sigma> \<tau>" if "ended q ws \<sigma>1 \<tau>"
    using that assms(2,3) spares.trans by (auto simp: ended_def)
  ultimately show ?thesis using \<tau>(2) by (auto simp: canEnd_def)
qed

lemma canEnd_now:
  "step s lib p \<sigma> (workerEnds xs ys w \<sigma>) \<Longrightarrow> sparing q (wDb (sysWorld \<sigma>)) (wDb w) \<Longrightarrow> canEnd s lib p q (xs @ ys) \<sigma>"
  by (auto simp: canEnd_def ended_def workerEnds_def intro!: exI [of _ "workerEnds xs ys w \<sigma>"] reachable_step)

lemma reading_spares: "follows reading m \<Longrightarrow> m w = (r, w') \<Longrightarrow> sparing q (wDb w) (wDb w')"
  using reading_from by (fastforce simp: reading_def spares.refl)

lemma canEnd_Executing:
  assumes "sysWorkers \<sigma> = xs @ Executing i run job # ys" and "i \<noteq> rr_id q"
  shows "canEnd s lib p q (xs @ ys) \<sigma>"
proof -
  obtain r w where f: "workerFinish i job run endsWell (sysWorld \<sigma>) = (r, w)" by force
  show ?thesis
    by (rule canEnd_now [OF step.finish [OF assms(1) f]]) (rule obeys_from [OF spare_workerFinish [OF assms(2)] f])
qed

lemma canEnd_HasClaim:
  assumes "sysWorkers \<sigma> = xs @ HasClaim i run job # ys"
  shows "canEnd s lib p q (xs @ ys) \<sigma>"
proof (rule canEnd_later [OF step.execute [OF assms]])
  let ?\<sigma>1 = "\<sigma>\<lparr>sysWorkers := xs @ Executing i run (job\<lparr>jobTimeoutSec := effectiveTimeoutSec s (jobTimeoutSec job)\<rparr>) # ys,
      sysExecuted := sysExecuted \<sigma> @ [i]\<rparr>"
  show "canEnd s lib p q (xs @ ys) ?\<sigma>1"
  proof (cases "i = rr_id q")
    case False
    show ?thesis by (rule canEnd_Executing [OF _ False]) simp
  qed (simp add: canEnd_executed)
qed (simp_all add: spares.refl)

lemma canEnd_Loaded:
  assumes ws: "sysWorkers \<sigma> = xs @ Loaded i run job # ys" and calm: "calm (sysWorld \<sigma>)"
    and wf: "dbWf (wDb (sysWorld \<sigma>))" and sound: "sound (sysWorld \<sigma>)" and q: "q \<in> set (pendingRows (wDb (sysWorld \<sigma>)))"
  shows "canEnd s lib p q (xs @ ys) \<sigma>"
proof -
  let ?w = "sysWorld \<sigma>"
  obtain r w where c: "workerClaim i run ?w = (r, w)" by force
  have claims: "\<exists>run' w'. workerClaim i run ?w = (Inr (Some run'), w')" if "i = rr_id q"
  proof -
    from q have m: "q \<in> set (dbRuns (wDb ?w))" "rr_status q = RunStatusPending" by (auto simp: pendingRows_def)
    then have "tFind rr_id i (dbRuns (wDb ?w)) = Some q"
      using wf that by (auto simp: dbWf_def runsWf_def intro: tFind_member)
    moreover obtain x where "scanRun q = Inr x" using sound_decodes(2) [OF sound m(1)] by blast
    ultimately show ?thesis using workerClaim_calm [OF calm wf] m(2) by blast
  qed
  show ?thesis
  proof (cases "\<exists>run'. r = Inr (Some run')")
    case False
    with claims c have "i \<noteq> rr_id q" by auto
    from obeys_from [OF spare_workerClaim [OF this] c] show ?thesis
      using False by (intro canEnd_now [OF step.claim_refused [OF ws c]]) simp_all
  next
    case True
    then obtain run' where run': "r = Inr (Some run')" by blast
    let ?\<sigma>1 = "\<sigma>\<lparr>sysWorld := w, sysWorkers := xs @ HasClaim i run' job # ys, sysClaims := sysClaims \<sigma> @ [i]\<rparr>"
    have 1: "step s lib p \<sigma> ?\<sigma>1" using c run' by (intro step.claim [OF ws]) simp
    show ?thesis
    proof (cases "i = rr_id q")
      case False
      show ?thesis
        by (rule canEnd_later [OF 1]) (use obeys_from [OF spare_workerClaim [OF False] c] in \<open>simp_all add: canEnd_HasClaim\<close>)
    next
      case True
      let ?\<sigma>2 = "?\<sigma>1\<lparr>sysWorkers := xs @ Executing i run' (job\<lparr>jobTimeoutSec := effectiveTimeoutSec s (jobTimeoutSec job)\<rparr>) # ys,
        sysExecuted := sysExecuted ?\<sigma>1 @ [i]\<rparr>"
      have "step s lib p ?\<sigma>1 ?\<sigma>2" by (rule step.execute) simp
      from reachable.more [OF reachable_step [OF 1] this] True show ?thesis
        unfolding canEnd_def by (intro exI [of _ ?\<sigma>2]) simp
    qed
  qed
qed

lemma canEnd_HasRun:
  assumes ws: "sysWorkers \<sigma> = xs @ HasRun i run # ys" and calm: "calm (sysWorld \<sigma>)"
    and wf: "dbWf (wDb (sysWorld \<sigma>))" and sound: "sound (sysWorld \<sigma>)" and q: "q \<in> set (pendingRows (wDb (sysWorld \<sigma>)))"
  shows "canEnd s lib p q (xs @ ys) \<sigma>"
proof -
  obtain r w where g: "jobsGet (runJobID run) (sysWorld \<sigma>) = (r, w)" by force
  note rd = reading_from [OF reading_methods(1) g] and sp = reading_spares [OF reading_methods(1) g]
  show ?thesis
  proof (cases r)
    case (Inl e)
    with g have "step s lib p \<sigma> (workerEnds xs ys w \<sigma>)" by (intro step.load_job_fails [OF ws, of e]) simp
    then show ?thesis using sp by (rule canEnd_now)
  next
    case (Inr job)
    with g have "step s lib p \<sigma> (\<sigma>\<lparr>sysWorld := w, sysWorkers := xs @ Loaded i run job # ys\<rparr>)"
      by (intro step.load_job [OF ws]) simp
    then show ?thesis
    proof (rule canEnd_later)
      show "canEnd s lib p q (xs @ ys) (\<sigma>\<lparr>sysWorld := w, sysWorkers := xs @ Loaded i run job # ys\<rparr>)"
        by (rule canEnd_Loaded) (use rd calm wf sound q in \<open>simp_all add: reading_def calm_def sound_def\<close>)
    qed (simp_all add: sp)
  qed
qed

lemma canEnd_Started:
  assumes ws: "sysWorkers \<sigma> = xs @ Started i # ys" and calm: "calm (sysWorld \<sigma>)"
    and wf: "dbWf (wDb (sysWorld \<sigma>))" and sound: "sound (sysWorld \<sigma>)" and q: "q \<in> set (pendingRows (wDb (sysWorld \<sigma>)))"
  shows "canEnd s lib p q (xs @ ys) \<sigma>"
proof -
  obtain r w where g: "runsGet i (sysWorld \<sigma>) = (r, w)" by force
  note rd = reading_from [OF reading_methods(4) g] and sp = reading_spares [OF reading_methods(4) g]
  show ?thesis
  proof (cases r)
    case (Inl e)
    with g have "step s lib p \<sigma> (workerEnds xs ys w \<sigma>)" by (intro step.load_run_fails [OF ws, of e]) simp
    then show ?thesis using sp by (rule canEnd_now)
  next
    case (Inr run)
    with g have "step s lib p \<sigma> (\<sigma>\<lparr>sysWorld := w, sysWorkers := xs @ HasRun i run # ys\<rparr>)"
      by (intro step.load_run [OF ws]) simp
    then show ?thesis
    proof (rule canEnd_later)
      show "canEnd s lib p q (xs @ ys) (\<sigma>\<lparr>sysWorld := w, sysWorkers := xs @ HasRun i run # ys\<rparr>)"
        by (rule canEnd_HasRun) (use rd calm wf sound q in \<open>simp_all add: reading_def calm_def sound_def\<close>)
    qed (simp_all add: sp)
  qed
qed

lemma worker_can_end:
  assumes ws: "sysWorkers \<sigma> = xs @ x # ys" and "ran \<sigma>" and calm: "calm (sysWorld \<sigma>)"
    and wf: "dbWf (wDb (sysWorld \<sigma>))" and sound: "sound (sysWorld \<sigma>)" and q: "q \<in> set (pendingRows (wDb (sysWorld \<sigma>)))"
  shows "canEnd s lib p q (xs @ ys) \<sigma>"
proof (cases x)
  case (Executing i run job)
  show ?thesis
  proof (cases "i = rr_id q")
    case True
    with Executing ws \<open>ran \<sigma>\<close> have "rr_id q \<in> set (sysExecuted \<sigma>)" by (force simp: ran_def)
    then show ?thesis by (rule canEnd_executed)
  qed (use Executing ws canEnd_Executing in blast)
next
  case (Started i)
  with assms show ?thesis by (intro canEnd_Started) simp_all
next
  case (HasRun i run)
  with assms show ?thesis by (intro canEnd_HasRun) simp_all
next
  case (Loaded i run job)
  with assms show ?thesis by (intro canEnd_Loaded) simp_all
next
  case (HasClaim i run job)
  with ws show ?thesis by (intro canEnd_HasClaim) simp
qed

section \<open>Every pending run can be executed\<close>

lemma length_filter_less:
  "x \<in> set xs \<Longrightarrow> Q x \<Longrightarrow> \<not> P x \<Longrightarrow> (\<And>x. P x \<Longrightarrow> Q x) \<Longrightarrow> length (filter P xs) < length (filter Q xs)"
proof (induction xs)
  case (Cons y ys)
  show ?case
  proof (cases "x = y")
    case True
    have "length (filter P ys) \<le> length (filter Q ys)" by (rule length_filter_le_mono) (rule Cons.prems)
    with True Cons.prems show ?thesis by simp
  next
    case False
    with Cons show ?thesis by auto
  qed
qed simp

lemma claim_shrinks:
  assumes "workerClaim (rr_id r) run w = (Inr (Some run'), w')" and "r \<in> set (pendingRows (wDb w))"
  shows "length (pendingRows (wDb w')) < length (pendingRows (wDb w))"
  using assms(1)
proof (rule workerClaim_Some)
  fix u e
  assume c: "claimRow (rr_id r) (encodeTime (wClock w (wTicks w))) u (wDb w) = (Inr 1, (wDb w)\<lparr>dbRuns := dbRuns (wDb w')\<rparr>)"
  have runs: "dbRuns (wDb w') = tUpdate (\<lambda>x. rr_id x = rr_id r \<and> rr_status x = RunStatusPending)
      (\<lambda>x. x\<lparr>rr_status := RunStatusRunning, rr_started_at := Some (encodeTime (wClock w (wTicks w))), rr_updated_at := u\<rparr>)
      (dbRuns (wDb w))"
    using arg_cong [OF c, of "\<lambda>x. dbRuns (snd x)"] by (simp add: claimRow_def Let_def)
  have "length (pendingRows (wDb w')) = length (filter (\<lambda>x. rr_status x = RunStatusPending \<and> rr_id x \<noteq> rr_id r) (dbRuns (wDb w)))"
    unfolding pendingRows_def runs tUpdate_def filter_map length_map by (rule arg_cong [where f = length], rule filter_cong) auto
  also have "\<dots> < length (pendingRows (wDb w))"
    unfolding pendingRows_def by (rule length_filter_less [of r]) (use assms(2) in \<open>auto simp: pendingRows_def\<close>)
  finally show ?thesis .
qed

lemma selectPending_Cons:
  assumes "q \<in> set (pendingRows d)" and "0 < n"
  obtains r rs where "selectPending n d = r # rs"
proof -
  have "q \<in> set (sort_key (\<lambda>r. (rr_scheduled_at r, rr_id r)) (pendingRows d))" using assms(1) by simp
  then have "sort_key (\<lambda>r. (rr_scheduled_at r, rr_id r)) (pendingRows d) \<noteq> []" by (metis list.set_cases list.distinct(1))
  with assms(2) have "selectPending n d \<noteq> []" unfolding selectPending_def sqlLimit_def pendingRows_def by simp
  with that show thesis by (cases "selectPending n d") auto
qed

lemma reachable_tokens:
  assumes "reachable s lib p \<sigma>0 \<sigma>" and "initial n \<sigma>0"
  shows "poolUsed (sysPool \<sigma>) = length (sysWorkers \<sigma>)" and "poolCap (sysPool \<sigma>) = n"
proof -
  have "workerTokens.holders False (sysPool \<sigma>0) 0 (sysPool \<sigma>) (length (sysWorkers \<sigma>))"
    using reachable_inv [OF assms] by (simp add: sysInv_def)
  from workerTokens.holders_used [OF this] assms(2)
  show "poolUsed (sysPool \<sigma>) = length (sysWorkers \<sigma>)" "poolCap (sysPool \<sigma>) = n" by (simp_all add: initial_def)
qed

text \<open>The setting: the program from an initial state, with a token, a driver that answers, rows written by the
  program and a cron library that gives representable times.\<close>

definition fair :: "cron_lib \<Rightarrow> nat \<Rightarrow> sys \<Rightarrow> bool" where
  "fair lib n \<sigma>0 \<longleftrightarrow> initial n \<sigma>0 \<and> 0 < n \<and> calm (sysWorld \<sigma>0) \<and> sound (sysWorld \<sigma>0) \<and> cronRepresentable lib"

lemma fair_facts:
  assumes "fair lib n \<sigma>0" and "reachable s lib p \<sigma>0 \<sigma>"
  shows "dbWf (wDb (sysWorld \<sigma>))" and "calm (sysWorld \<sigma>)" and "sound (sysWorld \<sigma>)" and "ran \<sigma>"
    and "poolUsed (sysPool \<sigma>) = length (sysWorkers \<sigma>)" and "poolCap (sysPool \<sigma>) = n"
  using assms reachable_inv [OF assms(2)] reachable_calm [OF assms(2)] reachable_ran [OF assms(2)]
    reachable_rowsInv [OF assms(2)] rowsInv_initial reachable_tokens [OF assms(2)]
  by (auto simp: fair_def sysInv_def rowsInv_def)

lemma token_comes_free:
  assumes "fair lib n \<sigma>0" and "reachable s lib p \<sigma>0 \<sigma>" and "q \<in> set (pendingRows (wDb (sysWorld \<sigma>)))"
  shows "\<exists>\<tau>. reachable s lib p \<sigma> \<tau> \<and> (rr_id q \<in> set (sysExecuted \<tau>)
    \<or> poolUsed (sysPool \<tau>) < poolCap (sysPool \<tau>) \<and> sparing q (wDb (sysWorld \<sigma>)) (wDb (sysWorld \<tau>)))"
proof (cases "poolUsed (sysPool \<sigma>) < poolCap (sysPool \<sigma>)")
  case True
  then show ?thesis by (auto intro: reachable.start spares.refl)
next
  case False
  note f = fair_facts [OF assms(1,2)]
  from assms(1) False f(5,6) obtain x ys where ws: "sysWorkers \<sigma> = [] @ x # ys"
    by (cases "sysWorkers \<sigma>") (auto simp: fair_def)
  from worker_can_end [OF ws f(4,2,1,3) assms(3), of s lib p] obtain \<tau> where
    \<tau>: "reachable s lib p \<sigma> \<tau>" "rr_id q \<in> set (sysExecuted \<tau>) \<or> ended q ([] @ ys) \<sigma> \<tau>" unfolding canEnd_def by blast
  moreover have "poolUsed (sysPool \<tau>) < poolCap (sysPool \<tau>)" if "ended q ([] @ ys) \<sigma> \<tau>"
    using that ws fair_facts(5,6) [OF assms(1) reachable_trans [OF \<tau>(1) assms(2)]] f(5,6)
    by (simp add: ended_def releaseWorkerToken_def)
      (metis reachable_workers_bound assms(1,2) fair_def Suc_le_eq length_Cons)
  ultimately show ?thesis by (auto simp: ended_def)
qed

lemma pending_executes:
  assumes "fair lib n \<sigma>0" and "reachable s lib p \<sigma>0 \<sigma>" and "q \<in> set (pendingRows (wDb (sysWorld \<sigma>)))"
  shows "\<exists>\<tau>. reachable s lib p \<sigma> \<tau> \<and> rr_id q \<in> set (sysExecuted \<tau>)"
  using assms(2,3)
proof (induction "length (pendingRows (wDb (sysWorld \<sigma>)))" arbitrary: \<sigma> rule: less_induct)
  case less
  from token_comes_free [OF assms(1) less.prems] obtain \<sigma>1 where \<sigma>1: "reachable s lib p \<sigma> \<sigma>1"
    and free: "rr_id q \<in> set (sysExecuted \<sigma>1) \<or> poolUsed (sysPool \<sigma>1) < poolCap (sysPool \<sigma>1)
      \<and> sparing q (wDb (sysWorld \<sigma>)) (wDb (sysWorld \<sigma>1))" by blast
  show ?case
  proof (cases "rr_id q \<in> set (sysExecuted \<sigma>1)")
    case True
    with \<sigma>1 show ?thesis by blast
  next
    case False
    with free have room: "poolUsed (sysPool \<sigma>1) < poolCap (sysPool \<sigma>1)"
      and sp1: "sparing q (wDb (sysWorld \<sigma>)) (wDb (sysWorld \<sigma>1))" by auto
    let ?\<sigma>2 = "\<sigma>1\<lparr>sysPending := []\<rparr>" and ?d = "wDb (sysWorld \<sigma>1)"
    let ?n = "int (poolCap (sysPool \<sigma>1)) - int (poolUsed (sysPool \<sigma>1))"
    have \<sigma>2: "reachable s lib p \<sigma> ?\<sigma>2" by (rule reachable.more [OF \<sigma>1 step.dispatch_stop])
    note f = fair_facts [OF assms(1) reachable_trans [OF \<sigma>1 less.prems(1)]]
    have q: "q \<in> set (pendingRows ?d)" using sp1 less.prems(2) by (simp add: sparing_def)
    obtain r qs where sel: "selectPending ?n ?d = r # qs" using selectPending_Cons [OF q, of ?n] room by auto
    have members: "x \<in> set (dbRuns ?d) \<and> rr_status x = RunStatusPending" if "x \<in> set (r # qs)" for x
      using selectPending_member [of x ?n ?d] sel that by simp
    have "\<exists>rs. map_res scanRun (r # qs) = Inr rs"
      by (rule map_res_decodes) (use members sound_decodes(2) [OF f(3)] in blast)
    then obtain rs where rs: "map_res scanRun (r # qs) = Inr rs" ..
    have "rr_job_id r \<in> jr_id ` set (dbJobs ?d)" using members [of r] f(1) by (simp add: dbWf_def runsWf_def)
    then obtain jr where jr: "tFind jr_id (rr_job_id r) (dbJobs ?d) = Some jr" by (metis tFind_None not_Some_eq)
    obtain j where j: "scanJob jr = Inr j" using sound_decodes(1) [OF f(3)] tFind_Some [OF jr] by auto
    have at: "dbWf (wDb (sysWorld ?\<sigma>2))" "calm (sysWorld ?\<sigma>2)" "sysPending ?\<sigma>2 = []"
      "poolUsed (sysPool ?\<sigma>2) < poolCap (sysPool ?\<sigma>2)"
      "selectPending (int (poolCap (sysPool ?\<sigma>2)) - int (poolUsed (sysPool ?\<sigma>2))) (wDb (sysWorld ?\<sigma>2)) = r # qs"
      "map_res scanRun (r # qs) = Inr rs" "tFind jr_id (rr_job_id r) (dbJobs (wDb (sysWorld ?\<sigma>2))) = Some jr" "scanJob jr = Inr j"
      using f(1,2) room sel rs jr j by simp_all
    obtain \<tau> run w1 run' job where \<tau>: "reachable s lib p ?\<sigma>2 \<tau>" "sysExecuted \<tau> = sysExecuted ?\<sigma>2 @ [rr_id r]"
      "sysWorkers \<tau> = sysWorkers ?\<sigma>2 @ [Executing (rr_id r) run' job]" and w1: "wDb w1 = wDb (sysWorld ?\<sigma>2)"
      and cl: "workerClaim (rr_id r) run w1 = (Inr (Some run'), sysWorld \<tau>)"
      by (rule oldest_pending_starts [OF at, of s lib p]) blast
    note path = reachable_trans [OF \<tau>(1) \<sigma>2]
    show ?thesis
    proof (cases "rr_id r = rr_id q")
      case True
      with path \<tau>(2) show ?thesis by (intro exI [of _ \<tau>]) simp
    next
      case False
      have shrink: "length (pendingRows (wDb (sysWorld \<tau>))) < length (pendingRows ?d)"
        using claim_shrinks [OF cl] members [of r] w1 by (simp add: pendingRows_def)
      have keep: "sparing q ?d (wDb (sysWorld \<tau>))" using obeys_from [OF spare_workerClaim [OF False] cl] w1 by simp
      from canEnd_Executing [OF \<tau>(3) False, of s lib p] obtain \<upsilon> where \<upsilon>: "reachable s lib p \<tau> \<upsilon>"
        "rr_id q \<in> set (sysExecuted \<upsilon>) \<or> ended q (sysWorkers ?\<sigma>2 @ []) \<tau> \<upsilon>" unfolding canEnd_def by blast
      note path' = reachable_trans [OF \<upsilon>(1) path]
      show ?thesis
      proof (cases "rr_id q \<in> set (sysExecuted \<upsilon>)")
        case True
        with path' show ?thesis by blast
      next
        case False
        with \<upsilon>(2) have sp2: "sparing q (wDb (sysWorld \<tau>)) (wDb (sysWorld \<upsilon>))" by (simp add: ended_def)
        have "length (pendingRows (wDb (sysWorld \<upsilon>))) < length (pendingRows (wDb (sysWorld \<sigma>)))"
          using sp1 sp2 shrink by (simp add: sparing_def)
        moreover have "q \<in> set (pendingRows (wDb (sysWorld \<upsilon>)))" using q keep sp2 by (simp add: sparing_def)
        ultimately have "\<exists>\<tau>. reachable s lib p \<upsilon> \<tau> \<and> rr_id q \<in> set (sysExecuted \<tau>)"
          using less.hyps [of \<upsilon>] reachable_trans [OF path' less.prems(1)] by blast
        with path' show ?thesis by (blast intro: reachable_trans)
      qed
    qed
  qed
qed

end
