(* ===== verification/Scenarios.thy ===== *)
theory Scenarios
  imports Example Loops Server Liveness
begin

text \<open>
  Concrete states for the witnesses beyond the scheduler: a registry and a Docker client that answer
  in a fixed way, a container that exits with zero, a disk with the log of a finished run, a request
  and a form. Each lemma evaluates one operation of the model on them.
\<close>

section \<open>A run that a worker claims\<close>

lemma exWorld_claimed:
  assumes "w = (exWorld [exRunRow ''pending''])\<lparr>wCalls := n\<rparr>"
  shows "\<exists>run' w' q. workerClaim 1 (exRun ''pending'') w = (Inr (Some run'), w')
    \<and> q \<in> set (dbRuns (wDb w')) \<and> rr_id q = 1 \<and> rr_status q = ''running''"
proof -
  have "tFind rr_id 1 [exRunRow ''pending''] = Some (exRunRow ''pending'')"
    by (simp add: tFind_def exRunRow_def)
  moreover have "rr_id (exRunRow ''pending'') = 1" "rr_status (exRunRow ''pending'') = ''pending''"
    by (simp_all add: exRunRow_def)
  ultimately show ?thesis
    using assms by (simp add: workerClaim_def claimTx_def runsGet_def ClaimPending_def claimRow_def
        eventsCreate_def insertEvent_def runEvent_def zeroEvent_def io_eval exWorld_def exRun_decodes
        exRun_def tUpdate_def eventRow_def)
qed

definition exLoaded :: sys where
  "exLoaded = (exSys [exRunRow ''pending''])\<lparr>sysWorkers := [Loaded 1 (exRun ''pending'') exJob]\<rparr>"

lemma exLoaded_claims:
  "\<exists>\<sigma> q. reachable exSched everyMinute defaultPolicy exLoaded \<sigma>
     \<and> q \<in> set (dbRuns (wDb (sysWorld \<sigma>))) \<and> rr_id q = 1 \<and> rr_status q = ''running''"
proof -
  obtain run' w' q where c: "workerClaim 1 (exRun ''pending'') (sysWorld exLoaded) = (Inr (Some run'), w')"
    and q: "q \<in> set (dbRuns (wDb w'))" "rr_id q = 1" "rr_status q = ''running''"
    using exWorld_claimed [of "sysWorld exLoaded" 0] by (auto simp: exLoaded_def exSys_def exWorld_def)
  let ?\<sigma> = "exLoaded\<lparr>sysWorld := w', sysWorkers := [HasClaim 1 run' exJob], sysClaims := [1]\<rparr>"
  have "step exSched everyMinute defaultPolicy exLoaded ?\<sigma>"
    using step.claim [of exLoaded "[]" 1 "exRun ''pending''" exJob "[]" run' w' exSched everyMinute defaultPolicy] c
    by (simp add: exLoaded_def exSys_def)
  with q show ?thesis by (intro exI [of _ ?\<sigma>] exI [of _ q]) (simp add: reachable.more [OF reachable.start])
qed

section \<open>Calls of the job service\<close>

lemma exWorld_look_drop:
  "\<exists>d. jobStore.performs (wDb (exWorld [])) [Look 1 exJob, Drop 1] d"
proof -
  let ?w = "exWorld []"
  have f: "tFind jr_id 1 [exJobRow] = Some exJobRow" by (simp add: tFind_def exJobRow_def)
  have "\<exists>w'. GetJob 1 ?w = (Inr exJob, w') \<and> wDb w' = wDb ?w"
    by (simp add: GetJob_def jobsGet_def io_eval exWorld_def f exJob_decodes)
  then have 1: "serviceCall (wDb ?w) (Look 1 exJob) (wDb ?w)"
    unfolding serviceCall_def using exWorld_wf(2) by auto
  obtain w' where "DeleteJob 1 ?w = (Inr (), w')"
    by (simp add: DeleteJob_def jobsDelete_def deleteJobRow_def io_eval exWorld_def exJobRow_def)
  then have 2: "serviceCall (wDb ?w) (Drop 1) (wDb w')"
    unfolding serviceCall_def using exWorld_wf(2) by auto
  from 1 2 show ?thesis by (blast intro: jobStore.performs.intros)
qed

section \<open>A source of images\<close>

text \<open>A Docker client that lists one image, and a registry that cannot be reached.\<close>

definition exImages :: "string list \<Rightarrow> goerr + string" where
  "exImages args = Inr (''jobs/backup:1'' @ [char_of (9::nat)] @ ''sha256:1'' @ [char_of (10::nat)]
     @ ''db:2'' @ [char_of (9::nat)] @ ''sha256:2'')"

definition exBackupImage :: candidate where
  "exBackupImage = \<lparr>cdSourceType = ''local'', cdImageRef = ''jobs/backup:1'', cdPullRef = ''jobs/backup:1'',
     cdDigest = Some ''sha256:1''\<rparr>"

lemma exImages_listed: "localListCandidates exImages [] [] = Inr [exBackupImage,
    \<lparr>cdSourceType = ''local'', cdImageRef = ''db:2'', cdPullRef = ''db:2'', cdDigest = Some ''sha256:2''\<rparr>]"
proof -
  let ?a = "''jobs/backup:1'' @ [char_of (9::nat)] @ ''sha256:1''"
    and ?b = "''db:2'' @ [char_of (9::nat)] @ ''sha256:2''"
  have "rawLines (?a @ [char_of (10::nat)] @ ?b) = [?a, ?b]" "map dropCR [?a, ?b] = [?a, ?b]"
    "localLine [] [] ?a = [exBackupImage]"
    "localLine [] [] ?b = [\<lparr>cdSourceType = ''local'', cdImageRef = ''db:2'', cdPullRef = ''db:2'', cdDigest = Some ''sha256:2''\<rparr>]"
    by code_simp+
  then show ?thesis by (simp add: localListCandidates_def exImages_def scanLines_def)
qed

lemma exImages_permitted:
  "resolverListCandidates (ImageCfg exConfig) (localListCandidates exImages) (\<lambda>q p. Inl Canceled) ''local'' [] []
    = Inr [exBackupImage]"
proof -
  have "hasPrefix ''jobs/backup:1'' ''jobs/''" "\<not> hasPrefix ''db:2'' ''jobs/''" by code_simp+
  then show ?thesis
    using exImages_listed by (simp add: resolverListCandidates_def filterCandidates_def SourceAllowed_def ValidatePrefix_def
        exConfig_def exBackupImage_def)
qed

definition exLib :: "goerr option \<Rightarrow> remote_lib" where
  "exLib e = \<lparr>urlHost = (\<lambda>u. Inr ''registry:5000''), requestErr = (\<lambda>u. e), resolveReference = (\<lambda>b u. Inr u),
     jsonRepositories = (\<lambda>b. Inr [''jobs/backup'']), jsonTags = (\<lambda>b e. Inr [''1'', ''2'']),
     jsonConfigDigest = (\<lambda>b. []), sha256Hex = (\<lambda>b. ''00'')\<rparr>"

definition exRegistry :: "unit client" where
  "exRegistry url h = (Inr \<lparr>rspStatus = 200, rspBody = ''{}'', rspReadErr = None, rspLinks = [], rspDigest = [],
     rspURL = url\<rparr>, h)"

definition exSource :: remote_source where
  "exSource = NewRemoteSource (exLib None) (Remote (ImageCfg exConfig))"

lemma exRemote_unreachable: "remoteLists (exLib (Some Canceled)) exSource exRegistry q p (Inl Canceled)"
proof -
  have "listRepositories (exLib (Some Canceled)) exSource exRegistry () = Some (Inl Canceled, ())"
    unfolding listRepositories_def
    by (subst catalogLoop.simps) (simp add: catalogPage_def httpGet_def exLib_def)
  then show ?thesis unfolding remoteLists_def by (intro exI [of _ "()"] exI [of _ "Inl Canceled"]) simp
qed

lemma exRegistry_tags: "tagsMayBe (exLib None) exSource exRegistry ''jobs/backup'' (Inr [''1'', ''2''])"
proof -
  have "tagsForRepo (exLib None) exSource exRegistry 0 ''jobs/backup'' (Map.empty, ())
    = (Inr [''1'', ''2''], [''jobs/backup'' \<mapsto> ([''1'', ''2''], 0)], ())"
    by (simp add: tagsForRepo_def freshTags_def listTags_def httpGet_def exLib_def exRegistry_def)
  then show ?thesis unfolding tagsMayBe_def by blast
qed

text \<open>A listing of one repository with two tags, to its end.\<close>

lemma exFanout:
  "\<exists>f. fanReach (tagsMayBe (exLib None) exSource exRegistry) [] (startFanout [''jobs/backup'']) f
     \<and> foReturn f = Some (Inr (tagItems [] ''jobs/backup'' [''1'', ''2''])) \<and> foCtxErr f = None"
proof -
  let ?T = "tagsMayBe (exLib None) exSource exRegistry" and ?r = "''jobs/backup''"
  let ?is = "tagItems [] ?r [''1'', ''2'']"
  let ?f0 = "startFanout [?r]"
  let ?f1 = "?f0\<lparr>foWaiting := [], foFetching := [?r]\<rparr>"
  let ?f2 = "?f1\<lparr>foFetching := [], foResults := [?is]\<rparr>"
  let ?f3 = "?f2\<lparr>foResults := [], foCands := ?is\<rparr>"
  let ?f4 = "?f3\<lparr>foReturn := Some (Inr ?is)\<rparr>"
  have 1: "fanStep ?T [] ?f0 ?f1"
    using take_place [of ?f0 "[]" ?r "[]" ?T "[]"] by (simp add: startFanout_def maxConcurrentTagFetches_def)
  have 2: "fanStep ?T [] ?f1 ?f2"
    using fetched [of ?f1 "[]" ?r "[]" ?T "[''1'', ''2'']" "[]"] exRegistry_tags by (simp add: startFanout_def)
  have 3: "fanStep ?T [] ?f2 ?f3"
    using collect [of ?f2 ?is "[]" ?T "[]"] by (simp add: startFanout_def)
  have 4: "fanStep ?T [] ?f3 ?f4"
    using return_all [of ?f3 ?T "[]"] by (simp add: startFanout_def)
  have "fanReach ?T [] ?f0 ?f4"
    by (rule fan_more [OF fan_more [OF fan_more [OF fan_more [OF fan_start 1] 2] 3] 4])
  then show ?thesis by (intro exI [of _ ?f4]) (simp add: startFanout_def)
qed

section \<open>A container that exits with zero\<close>

definition exDocker :: "unit docker" where
  "exDocker args d = (([], None), d)"

definition exProc :: "string list \<Rightarrow> unit \<Rightarrow> run_end \<times> unit" where
  "exProc args d = (Exits None, d)"

definition exEnv :: "unit exec_env" where
  "exEnv = \<lparr>envDocker = exDocker, envProc = exProc, envResolve = (\<lambda>st ref d. (Inr exBackupImage, d)),
     envMkdirAll = (\<lambda>p d. (None, d)), envOpenAppend = (\<lambda>p d. (None, d)), envOpenTrunc = (\<lambda>p d. (None, d)),
     envMarshal = (\<lambda>r. Inr ''{}''), envSeekStart = (\<lambda>d. (None, d)), envTruncate = (\<lambda>d. (None, d)),
     envWrite = (\<lambda>s d. (None, d)), envSync = (\<lambda>d. (None, d)), envNow = (\<lambda>d. (0, d)),
     envUuid = (\<lambda>d. ((''u1'', ''u2''), d)), envFmt = (\<lambda>p ns. p)\<rparr>"

definition exExecutor :: docker_executor where
  "exExecutor = NewDockerExecutor (StoreCfg exConfig) (ImageCfg exConfig) (ExecutorCfg exConfig)"

lemma exEnv_executes: "\<exists>r d'. Execute exExecutor exEnv exJob (exRun ''running'') () = ((r, None), d')"
proof -
  have v: "ValidateRef (ImageCfg exConfig) ''jobs/backup:1'' = Inr ()"
  proof -
    have "hasPrefix ''jobs/backup:1'' ''jobs/''" by code_simp
    then show ?thesis by (simp add: ValidateRef_def exConfig_def)
  qed
  have "EnsureImage exDocker ''if_not_present'' ref () = (None, ())" for ref
  proof -
    have "toLower (trimSpace ''if_not_present'') = ''if_not_present''" by code_simp
    then show ?thesis by (simp add: EnsureImage_def exDocker_def)
  qed
  then show ?thesis
    using v by (simp add: Execute_def exExecutor_def NewDockerExecutor_def exEnv_def exJob_def SourceAllowed_def
        exConfig_def writerOpen_def resultWriterOpen_def andThen_def wrapping_def startRun_def PrepareContainer_def
        removeContainer_def exDocker_def RunContainer_def exProc_def CleanupContainer_def concludeRun_def
        writeResult_def Let_def)
qed

section \<open>A request and a form\<close>

definition exRequest :: job_request where
  "exRequest = \<lparr>rqName = ''report'', rqDescription = None, rqEnabled = True, rqSourceType = ''local'',
     rqImageRef = ''jobs/report:1'', rqImageDigest = None, rqScheduleType = ''cron'',
     rqScheduleExpr = Some ''* * * * *'', rqIntervalSec = None, rqParams = [],
     rqConcurrencyPolicy = ''allow'', rqRetryLimit = 0, rqTimeoutSec = Some 60, rqTimezone = ''UTC''\<rparr>"

definition exDigestJob :: job where
  "exDigestJob = exJob\<lparr>jobImageDigest := Some ''sha256:1''\<rparr>"

lemma exDigestJob_formable: "formable exDigestJob"
proof -
  have "trimSpace ''backup'' = ''backup''" "trimSpace ''jobs/backup:1'' = ''jobs/backup:1''" "trimSpace ''UTC'' = ''UTC''"
    by code_simp+
  then show ?thesis
    by (simp add: formable_def exDigestJob_def exJob_def trimmed_def optTrimmed_def in_int64_def
        sourceTypeIsValid_def scheduleTypeIsValid_def policyIsValid_def)
qed

lemma exRequest_created:
  "\<exists>j w1. hCreateJob everyMinute defaultPolicy (Inr exRequest) (exWorld []) = (json 201 (JobBody (toJobResponse j)), w1)
     \<and> jobTimesOk j \<and> \<not> wFault w1 (wCalls w1)"
  by (simp add: hCreateJob_def answering_def CreateJob_def buildJob_def exRequest_def jobInputFromRequest_def
      sourceTypeIsValid_def scheduleTypeIsValid_def policyIsValid_def resolveTimeoutSec_def defaultPolicy_def
      NewTimeoutPolicy_def checkSchedule_def zeroJob_def serviceNextRunAt_def everyMinute_def cronLocation_def
      jobsCreate_def insertJob_def jobRow_def io_eval exWorld_def exJobRow_def json_def)
    (auto simp: jobTimesOk_def timeOk_def second_def)

section \<open>A disk with the log of an old run\<close>

definition exOldRow :: run_row where
  "exOldRow = (exRunRow ''success'')\<lparr>rr_finished_at := Some ''2023-12-20T00:00:00Z'',
     rr_log_path := Some ''/data/logs/job-1/run-1/run.log''\<rparr>"

definition exOldRun :: run where
  "exOldRun = (exRun ''success'')\<lparr>runFinishedAt := Some 63838627200000000000,
     runLogPath := Some ''/data/logs/job-1/run-1/run.log''\<rparr>"

lemma exOldRow_decodes: "scanRun exOldRow = Inr exOldRun"
proof -
  have "decodeTime ''2024-01-01T00:00:02Z'' = Inr 63839664002000000000"
    "decodeTime ''2024-01-01T00:00:03Z'' = Inr 63839664003000000000"
    "decodeTime ''2023-12-20T00:00:00Z'' = Inr 63838627200000000000" by code_simp+
  then show ?thesis
    by (simp add: scanRun_def exOldRow_def exOldRun_def exRunRow_def exRun_def decodeNullableTime_def)
qed

definition exDisk :: disk where
  "exDisk = \<lparr>dkFiles = [(''/data/logs/job-1/run-1/run.log'', \<lparr>fiSize = 100, fiIsDir = False, fiModTime = 0\<rparr>),
       (''/data/logs/other'', \<lparr>fiSize = 7, fiIsDir = False, fiModTime = 1\<rparr>)],
     dkDenied = (\<lambda>op p. None)\<rparr>"

text \<open>Only the limits on the age of logs apply.\<close>

definition exLogsOnly :: config where
  "exLogsOnly = exConfig\<lparr>RetentionCfg := (RetentionCfg exConfig)\<lparr>RunHistoryDays := 0, ArtifactDays := 0,
     MaxLogBytesPerRun := 0, MaxTotalStorageBytes := 0\<rparr>\<rparr>"

lemma exLog_managed:
  "cleanManagedPath None ''/data/logs'' ''/data/logs/job-1/run-1/run.log'' = Some ''/data/logs/job-1/run-1/run.log''"
  by code_simp

lemma exDisk_removes:
  "removeManagedFile None ''/data/logs'' (Some ''/data/logs/job-1/run-1/run.log'') exDisk
    = (Inr (True, 100), exDisk\<lparr>dkFiles := tl (dkFiles exDisk)\<rparr>)"
  using exLog_managed by (simp add: removeManagedFile_def statFile_def removeFile_def exDisk_def)

lemma exOldRow_listed:
  "ListTerminalBefore 63839664065000000000 \<lparr>pagePage = 1, pageSize = 100000\<rparr> ((exWorld [exOldRow])\<lparr>wTicks := Suc 0\<rparr>)
    = (Inr ([exOldRun], 1), (exWorld [exOldRow])\<lparr>wTicks := Suc 0, wCalls := 2\<rparr>)"
proof -
  have "encodeTime 63839664065000000000 = ''2024-01-01T00:01:05Z''" unfolding encodeTime_def by code_simp
  moreover have "''2023-12-20T00:00:00Z'' < ''2024-01-01T00:01:05Z''" by code_simp
  ultimately have "terminalBefore (encodeTime 63839664065000000000) exOldRow"
    by (simp add: terminalBefore_def exOldRow_def exRunRow_def isTerminal_def)
  then show ?thesis
    by (simp add: ListTerminalBefore_def normalize_def sqlLimit_def sqlOffset_def in_int64_def io_eval Let_def exWorld_def
        exOldRow_decodes)
qed

lemma exOldRun_prunes:
  assumes "w = (exWorld [exOldRow])\<lparr>wTicks := Suc 0, wCalls := 2\<rparr>"
  shows "\<exists>c n w'. pruneRunFiles exLogsOnly None exOldRun (w, exDisk)
    = (Inr (c, n), w', exDisk\<lparr>dkFiles := tl (dkFiles exDisk)\<rparr>)"
  using assms exDisk_removes
  by (simp add: pruneRunFiles_def exLogsOnly_def exConfig_def exOldRun_def exRun_def Let_def agedP_def bindP_def
      onWorld_def timeNow_def exWorld_def returnP_def olderThan_def minusDays_def dayNanos_def second_def whenP_def onDisk_def)

lemma exDisk_pruned:
  "\<exists>r w' d'. prunerRun exLogsOnly None (\<lambda>_. None) (\<lambda>_. None) (exWorld [exOldRow], exDisk) = (r, w', d')
     \<and> map_of (dkFiles d') ''/data/logs/job-1/run-1/run.log'' = None"
proof -
  let ?w = "(exWorld [exOldRow])\<lparr>wTicks := Suc 0, wCalls := 2\<rparr>" and ?d = "exDisk\<lparr>dkFiles := tl (dkFiles exDisk)\<rparr>"
  obtain c n w' where p: "pruneRunFiles exLogsOnly None exOldRun (?w, exDisk) = (Inr (c, n), w', ?d)"
    using exOldRun_prunes by blast
  have now: "timeNow (exWorld [exOldRow]) = (Inr 63839664065000000000, (exWorld [exOldRow])\<lparr>wTicks := Suc 0\<rparr>)"
    by (simp add: timeNow_def exWorld_def)
  have off: "RetEnabled (RetentionCfg exLogsOnly)" "RunHistoryDays (RetentionCfg exLogsOnly) = 0"
    "MaxTotalStorageBytes (RetentionCfg exLogsOnly) = 0" by (simp_all add: exLogsOnly_def exConfig_def)
  have "snd (snd (prunerRun exLogsOnly None (\<lambda>_. None) (\<lambda>_. None) (exWorld [exOldRow], exDisk))) = ?d"
    by (simp add: prunerRun_def off bindP_def onWorld_def now exOldRow_listed pruneListed_def p pruneHistory_def returnP_def)
  moreover have "map_of (dkFiles ?d) ''/data/logs/job-1/run-1/run.log'' = None" by (simp add: exDisk_def)
  ultimately show ?thesis by (metis prod.collapse)
qed

text \<open>A limit of fifty bytes on the total: the log goes, the file no run records stays.\<close>

lemma exDisk_limited:
  "enforceTotalStorage exConfig None (\<lambda>_. None) 50 [exOldRun] exDisk = (Inr 100, exDisk\<lparr>dkFiles := tl (dkFiles exDisk)\<rparr>)"
proof -
  have "managedStorageBytes None [''/data/logs'', ''/data/artifacts''] exDisk = Inr 107"
  proof -
    have abs: "absPath None ''/data/logs'' = Some ''/data/logs''" "absPath None ''/data/artifacts'' = Some ''/data/artifacts''"
      by code_simp+
    have "belowPath ''/data/logs'' ''/data/logs/job-1/run-1/run.log''" "belowPath ''/data/logs'' ''/data/logs/other''"
      "\<not> belowPath ''/data/artifacts'' ''/data/logs/job-1/run-1/run.log''" "\<not> belowPath ''/data/artifacts'' ''/data/logs/other''"
      by code_simp+
    then show ?thesis by (simp add: abs treeSize_def exDisk_def)
  qed
  moreover have "terminalRunFiles None (StoreCfg exConfig) [exOldRun] exDisk
      = [FileEntry ''/data/logs/job-1/run-1/run.log'' 100 0]"
    using exLog_managed
    by (simp add: terminalRunFiles_def statManagedRunFile_def exConfig_def exOldRun_def exRun_def statFile_def exDisk_def)
  ultimately show ?thesis
    by (simp add: enforceTotalStorage_def exConfig_def removeFile_def) (simp add: exDisk_def)
qed

section \<open>A request to the server\<close>

definition exServer :: server where
  "exServer = \<lparr>svCron = everyMinute, svImages = ImageCfg exConfig, svScheduler = SchedulerCfg exConfig,
     svLocalList = localListCandidates exImages, svRemoteList = (\<lambda>q p. Inl Canceled),
     svLocalResolve = (\<lambda>ref. Inr exBackupImage), svRemoteResolve = (\<lambda>ref. Inl Canceled),
     svReadLog = (\<lambda>p. Inr []), svReadJSON = (\<lambda>p. Inl Canceled), svReadFile = (\<lambda>p. Inr []), svIndent = (\<lambda>s. None),
     svEngine = (\<lambda>page. None)\<rparr>"

definition exGetJob :: http_request where
  "exGetJob = \<lparr>hqMethod = ''GET'', hqPath = [''api'', ''v1'', ''jobs'', ''1''], hqQuery = (\<lambda>_. []), hqForm = (\<lambda>_. []),
     hqContentLength = 0, hqJob = Inl Canceled, hqReason = Inr None\<rparr>"

lemma exServer_serves:
  "fst (serve exServer exGetJob (exWorld [])) = ApiReply (json 200 (JobBody (toJobResponse exJob)))"
proof -
  have r: "lookupRoute setupRouter ''GET'' [''api'', ''v1'', ''jobs'', ''1'']
      = Some ([Lit ''api'', Lit ''v1'', Lit ''jobs'', Par ''jobId''], ApiGetJob)"
    by (rule route_reached) (simp_all add: setupRouter_def apiRoutes_def)
  have i: "itoa 1 = ''1''" by code_simp
  have f: "tFind jr_id 1 [exJobRow] = Some exJobRow" by (simp add: tFind_def exJobRow_def)
  have "fst (hGetJob (pathParam [Lit ''api'', Lit ''v1'', Lit ''jobs'', Par ''jobId''] [''api'', ''v1'', ''jobs'', ''1'']) (exWorld []))
      = json 200 (JobBody (toJobResponse exJob))"
    by (rule hGetJob_found [where i = 1])
      (simp_all add: jobsView_def exWorld_def f exJob_decodes in_int64_def i)
  with r show ?thesis by (simp add: serve_def exGetJob_def handle_def api_def case_prod_unfold)
qed

section \<open>A clock that stands still\<close>

text \<open>The state of Example with a clock that always shows the same instant, which a column can hold.\<close>

definition exStill :: sys where
  "exStill = (exSys [exRunRow ''pending''])\<lparr>sysWorld := (exWorld [exRunRow ''pending''])\<lparr>wClock := \<lambda>_. 63839664065000000000\<rparr>\<rparr>"

lemma exStill_initial: "initial 2 exStill"
  using exSys_initial [of "''pending''"] by (simp add: initial_def exStill_def exSys_def)

lemma exStill_clock: "clockOk (wClock (sysWorld exStill) k)"
  by (simp add: exStill_def clockOk_def timeOk_def second_def)

lemma exJobRow_jobRow: "exJobRow = jobRow exJob"
proof -
  have "encodeTime 63839664000000000000 = ''2024-01-01T00:00:00Z''" "encodeTime 63839664060000000000 = ''2024-01-01T00:01:00Z''"
    by code_simp+
  then show ?thesis by (simp add: exJobRow_def exJob_def jobRow_def encodeNullableTime_def)
qed

lemma exRunRow_runRow: "exRunRow st = runRow (exRun st)"
proof -
  have "encodeTime 63839664002000000000 = ''2024-01-01T00:00:02Z''" "encodeTime 63839664003000000000 = ''2024-01-01T00:00:03Z''"
    by code_simp+
  then show ?thesis by (simp add: exRunRow_def exRun_def runRow_def encodeNullableTime_def)
qed

lemma exStill_written: "written (wDb (sysWorld exStill))"
proof -
  have "jobTimesOk exJob" "runTimesOk (exRun ''pending'')"
    by (simp_all add: exJob_def exRun_def jobTimesOk_def runTimesOk_def timeOk_def second_def)
  then have "jobWritten exJobRow" "runWritten (exRunRow ''pending'')"
    unfolding exJobRow_jobRow exRunRow_runRow by (simp_all add: writtenI)
  then show ?thesis by (simp add: exStill_def exWorld_def written_def)
qed

lemma everyMinute_representable: "cronRepresentable everyMinute"
proof -
  have "timeOk ((t div 60000000000 + 1) * 60000000000)" if "clockOk t" for t
  proof -
    have "t \<le> (t div 60000000000 + 1) * 60000000000" "(t div 60000000000 + 1) * 60000000000 \<le> t + 60000000000"
      using pos_mod_bound [of 60000000000 t] pos_mod_sign [of 60000000000 t]
      by (simp_all add: minus_mod_eq_mult_div [symmetric] algebra_simps)
    with that show ?thesis by (simp add: clockOk_def timeOk_def second_def)
  qed
  then show ?thesis by (auto simp: cronRepresentable_def everyMinute_def split: if_splits)
qed

lemma exStill_executes: "\<exists>\<sigma>. reachable exSched everyMinute defaultPolicy exStill \<sigma> \<and> 1 \<in> set (sysExecuted \<sigma>)"
proof -
  have f: "fair everyMinute 2 exStill"
    using exStill_initial exStill_written exStill_clock everyMinute_representable
    by (simp add: fair_def calm_def sound_def) (simp add: exStill_def exWorld_def)
  have q: "exRunRow ''pending'' \<in> set (pendingRows (wDb (sysWorld exStill)))"
    by (simp add: exStill_def exWorld_def pendingRows_def exRunRow_def)
  from pending_executes [OF f reachable.start q] show ?thesis by (simp add: exRunRow_def)
qed

section \<open>An update that read its job before the scan scheduled it again\<close>

definition exRescheduled :: world where
  "exRescheduled = (exWorld [])\<lparr>wDb := (wDb (exWorld []))\<lparr>dbJobs :=
     [exJobRow\<lparr>jr_last_scheduled_at := Some ''2024-01-01T00:01:00Z''\<rparr>]\<rparr>\<rparr>"

lemma exRescheduled_updated:
  "\<exists>j v' x. updateWrite everyMinute 1 exJob exJob exRescheduled = (Inr j, v') \<and> x \<in> set (dbJobs (wDb v')) \<and> jr_id x = 1"
  by (simp add: updateWrite_def jobsUpdate_def updateJobRow_def serviceNextRunAt_def exJob_def exRescheduled_def exJobRow_def
      jobRow_def io_eval exWorld_def tUpdate_def Let_def sourceTypeIsValid_def scheduleTypeIsValid_def policyIsValid_def)

lemma exRequest_builds: "\<exists>j0. buildJob defaultPolicy (jobInputFromRequest exRequest) = Inr j0"
  by (simp add: buildJob_def exRequest_def jobInputFromRequest_def sourceTypeIsValid_def scheduleTypeIsValid_def
      policyIsValid_def resolveTimeoutSec_def defaultPolicy_def NewTimeoutPolicy_def checkSchedule_def zeroJob_def)

end
