(* ===== verification/Startup.thy ===== *)
theory Startup
  imports Server Loops
begin

text \<open>
  \<open>Open\<close> and \<open>initialize\<close> of \<open>internal/store/db.go\<close>, \<open>StartServer\<close> of \<open>internal/api/router.go\<close> and
  \<open>cmd/main.go\<close>: how the process comes up. The driver, the directories, the listener and Docker are
  arguments. The lemmas say what holds before the first request is served.
\<close>

section \<open>Opening the store\<close>

text \<open>The statements of \<open>initialize\<close>; the columns of a table are in theory Store_Db.\<close>

datatype ddl =
    Pragma string
  | CreateTable string
  | CreateIndex string string "string list"

definition initPragmas :: "ddl list" where
  "initPragmas = [Pragma ''PRAGMA journal_mode=WAL;'', Pragma ''PRAGMA foreign_keys=ON;'',
     Pragma ''PRAGMA busy_timeout=5000;'']"

definition initSchema :: "ddl list" where
  "initSchema = [CreateTable ''jobs'', CreateTable ''runs'', CreateTable ''run_events'',
     CreateIndex ''idx_jobs_next_run'' ''jobs'' [''next_run_at''],
     CreateIndex ''idx_runs_status'' ''runs'' [''status''],
     CreateIndex ''idx_runs_pending'' ''runs'' [''status'', ''scheduled_at''],
     CreateIndex ''idx_runs_job'' ''runs'' [''job_id''],
     CreateIndex ''idx_events_run'' ''run_events'' [''run_id'']]"

text \<open>What \<open>Open\<close> calls: \<open>olConnect\<close> is \<open>sql.Open\<close> with the settings of the connection pool.\<close>

record 'd open_lib =
  olMkdirAll :: "string \<Rightarrow> 'd \<Rightarrow> goerr option \<times> 'd"
  olConnect :: "string \<Rightarrow> 'd \<Rightarrow> goerr option \<times> 'd"
  olExec :: "ddl \<Rightarrow> 'd \<Rightarrow> goerr option \<times> 'd"
  olClose :: "'d \<Rightarrow> goerr option \<times> 'd"

fun initErr :: "ddl \<Rightarrow> goerr \<Rightarrow> goerr" where
  "initErr (Pragma s) e = Wrapf (''apply sqlite pragma '' @ quoteStr s) e"
| "initErr _ e = Wrapf ''initialize schema'' e"

fun execEach :: "(ddl \<Rightarrow> 'd \<Rightarrow> goerr option \<times> 'd) \<Rightarrow> ddl list \<Rightarrow> 'd \<Rightarrow> goerr option \<times> 'd" where
  "execEach ex [] d = (None, d)"
| "execEach ex (s # ss) d =
     (case ex s d of (Some e, d') \<Rightarrow> (Some (initErr s e), d') | (None, d') \<Rightarrow> execEach ex ss d')"

definition initialize :: "'d open_lib \<Rightarrow> 'd \<Rightarrow> goerr option \<times> 'd" where
  "initialize lib = execEach (olExec lib) (initPragmas @ initSchema)"

text \<open>The data source name of the opened store, or the error.\<close>

definition storeOpen :: "'d open_lib \<Rightarrow> string \<Rightarrow> 'd \<Rightarrow> (goerr + string) \<times> 'd" where
  "storeOpen lib path d =
     (if path = [] then (Inl (Errorf ''sqlite path is required''), d)
      else let rawPath = trimPrefix path ''file:''; dir = Dir rawPath in
      case (if dir \<noteq> ''.'' \<and> dir \<noteq> [] then olMkdirAll lib dir d else (None, d)) of
        (Some e, d1) \<Rightarrow> (Inl (Wrapf ''create sqlite directory'' e), d1)
      | (None, d1) \<Rightarrow>
          let dsn = (if hasPrefix path ''file:'' then path else ''file:'' @ path) in
          (case olConnect lib dsn d1 of
             (Some e, d2) \<Rightarrow> (Inl (Wrapf ''open sqlite db'' e), d2)
           | (None, d2) \<Rightarrow>
               (case initialize lib d2 of
                  (Some e, d3) \<Rightarrow> (Inl e, snd (olClose lib d3))
                | (None, d3) \<Rightarrow> (Inr dsn, d3))))"

section \<open>The server\<close>

record api_server =
  asHost :: string
  asPort :: int
  asImages :: image_config
  asScheduler :: scheduler_config

definition NewAPIServer :: "config \<Rightarrow> api_server" where
  "NewAPIServer cfg = \<lparr>asHost = Host (Server cfg), asPort = Port (Server cfg), asImages = ImageCfg cfg,
     asScheduler = SchedulerCfg cfg\<rparr>"

text \<open>\<open>StartServer\<close>: whether it warns, the address it listens on and what it returns; \<open>listen\<close> is the
  error of \<open>ListenAndServe\<close> and \<open>shutdown\<close> that of \<open>Shutdown\<close>. An error of the listener is printed by its
  goroutine and nothing else happens: the call waits for the context.\<close>

record server_run =
  srWarned :: bool
  srAddr :: string
  srListenErr :: "goerr option"
  srResult :: "goerr option"

definition StartServer :: "(string \<Rightarrow> goerr option) \<Rightarrow> goerr option \<Rightarrow> api_server \<Rightarrow> server_run" where
  "StartServer listen shutdown s =
     (let addr = asHost s @ '':'' @ itoa (asPort s) in
      \<lparr>srWarned = RequiresExternalProtection (asHost s), srAddr = addr, srListenErr = listen addr,
       srResult = map_option (Wrapf ''API server shutdown error'') shutdown\<rparr>)"

section \<open>main\<close>

text \<open>How far \<open>main\<close> comes, with what the two parts it starts end in. The scheduler runs in a goroutine of
  its own: that it does not start is printed and stops nothing.\<close>

datatype main_run =
    ConfigUnreadable goerr
  | ConfigInvalid goerr
  | StoreUnopened goerr
  | Serving config "goerr + loop list" server_run

definition mainProgram ::
  "(string \<Rightarrow> goerr + (goerr + config \<times> config_file)) \<Rightarrow> 'd open_lib \<Rightarrow> 'd docker
   \<Rightarrow> (string \<Rightarrow> goerr option) \<Rightarrow> goerr option \<Rightarrow> 'd \<Rightarrow> main_run" where
  "mainProgram readFile lib dk listen shutdown d =
     (case LoadConfig readFile ''.'' of Inl e \<Rightarrow> ConfigUnreadable e
      | Inr cfg \<Rightarrow> (case Validate cfg of Inl e \<Rightarrow> ConfigInvalid e
        | Inr _ \<Rightarrow> (case storeOpen lib (SQLitePath (StoreCfg cfg)) d of
            (Inl e, _) \<Rightarrow> StoreUnopened e
          | (Inr _, d1) \<Rightarrow>
              Serving cfg (fst (schedulerStart dk (ExecutorCfg cfg) (NewScheduler cfg) d1))
                (StartServer listen shutdown (NewAPIServer cfg)))))"

section \<open>What holds when the server runs\<close>

text \<open>A statement runs only where all before it succeeded; foreign keys are on before there is a table.\<close>

lemma execEach_None:
  "execEach (\<lambda>s (d, l). case ex s d of (r, d') \<Rightarrow> (r, d', l @ [s])) ss (d, l) = (None, d', l') \<Longrightarrow> l' = l @ ss"
  by (induction ss arbitrary: d l) (fastforce split: prod.splits option.splits)+

lemma initialize_order:
  assumes "olExec lib = (\<lambda>s (d, l). case ex s d of (r, d') \<Rightarrow> (r, d', l @ [s]))" and "initialize lib (d, []) = (None, d', l')"
  shows "l' = initPragmas @ initSchema"
  using execEach_None [of ex _ d "[]" d' l'] assms by (simp add: initialize_def)

lemma mainProgram_Serving:
  assumes "mainProgram readFile lib dk listen shutdown d = Serving cfg st run"
  shows "LoadConfig readFile ''.'' = Inr cfg" and "configOk cfg"
    and "srAddr run = Host (Server cfg) @ '':'' @ itoa (Port (Server cfg))"
    and "srWarned run = RequiresExternalProtection (Host (Server cfg))"
  using assms
  by (auto simp: mainProgram_def StartServer_def NewAPIServer_def Let_def dest: Validate_iff [THEN iffD1]
      split: sum.splits prod.splits)

text \<open>Where the containers of an earlier process cannot be listed no loop runs, and the API is served all
  the same: jobs are accepted that nothing will run.\<close>

lemma api_without_scheduler:
  assumes "mainProgram readFile lib dk listen shutdown d = Serving cfg (Inl e) run"
  shows "OrphanRecoveryOnStartup (ExecutorCfg cfg) \<and> srListenErr run = listen (srAddr run)"
  using assms
  by (auto simp: mainProgram_def schedulerStart_def RecoverOrphans_def StartServer_def Let_def
      split: sum.splits prod.splits option.splits if_splits)

text \<open>An IPv6 address is not put into brackets, so the address of a loopback server has too many colons.\<close>

lemma ipv6_address: "asHost s = ''::1'' \<Longrightarrow> srAddr (StartServer listen shutdown s) = ''::1:'' @ itoa (asPort s)"
  by (simp add: StartServer_def Let_def)

end
