(* ===== verification/Simulation.thy ===== *)
theory Simulation
  imports Server Loops
begin

text \<open>
  The sequential code of every goroutine is a path of the steps of theory System: a request from its
  route to its reply, a worker from its start to its end, a scan for due jobs, a call of the dispatch loop,
  a round of the pruner. So what holds of the reachable states holds after each of them, in whatever order
  they run, and the steps of System leave out nothing that the code does to the database.
\<close>

section \<open>Paths that change the world alone\<close>

definition performs :: "scheduler \<Rightarrow> cron_lib \<Rightarrow> timeout_policy \<Rightarrow> world \<Rightarrow> world \<Rightarrow> bool" where
  "performs s lib p w w' \<longleftrightarrow> (\<forall>\<sigma>. sysWorld \<sigma> = w \<longrightarrow> reachable s lib p \<sigma> (\<sigma>\<lparr>sysWorld := w'\<rparr>))"

interpretation program: world_preorder "performs s lib p" for s lib p
proof
  fix w :: world
  show "performs s lib p w w" by (auto simp: performs_def intro: reachable.start)
next
  fix u v w :: world
  assume uv: "performs s lib p u v" and vw: "performs s lib p v w"
  show "performs s lib p u w"
    unfolding performs_def
  proof (intro allI impI)
    fix \<sigma> :: sys assume "sysWorld \<sigma> = u"
    with uv have 1: "reachable s lib p \<sigma> (\<sigma>\<lparr>sysWorld := v\<rparr>)" by (simp add: performs_def)
    from vw have "reachable s lib p (\<sigma>\<lparr>sysWorld := v\<rparr>) (\<sigma>\<lparr>sysWorld := v\<rparr>\<lparr>sysWorld := w\<rparr>)"
      unfolding performs_def by (elim allE [of _ "\<sigma>\<lparr>sysWorld := v\<rparr>"] impE) simp_all
    with 1 show "reachable s lib p \<sigma> (\<sigma>\<lparr>sysWorld := w\<rparr>)" by (auto intro: reachable_trans)
  qed
qed

lemma performs_reading: "reading w w' \<Longrightarrow> performs s lib p w w'"
  by (auto simp: performs_def intro!: reachable_step step.elsewhere)

lemma performs_request: "performs s lib p w (snd (runRequest lib p rq w))"
proof -
  obtain r w1 where b: "beginRequest p rq w = (r, w1)" by force
  show ?thesis
  proof (cases r)
    case (Inl e)
    have "follows reading (beginRequest p rq)" by (cases rq) (auto intro!: reading_intros)
    from reading_from [OF this b] have "performs s lib p w w1" by (rule performs_reading)
    with b Inl show ?thesis by (simp add: runRequest_halves bindIO_def)
  next
    case (Inr u)
    obtain r2 w2 where e: "endRequest lib p u w1 = (r2, w2)" by force
    have "reachable s lib p \<sigma> (\<sigma>\<lparr>sysWorld := w2\<rparr>)" if w: "sysWorld \<sigma> = w" for \<sigma>
    proof -
      let ?\<sigma>1 = "\<sigma>\<lparr>sysWorld := w1, sysUnderway := u # sysUnderway \<sigma>\<rparr>"
      have "step s lib p \<sigma> ?\<sigma>1" using b Inr w by (intro step.request_begins) simp
      moreover have "step s lib p ?\<sigma>1 (?\<sigma>1\<lparr>sysWorld := w2, sysUnderway := [] @ sysUnderway \<sigma>\<rparr>)"
        by (rule step.request_ends [where u = u and r = r2]) (simp_all add: e)
      ultimately show ?thesis by (auto dest: reachable_step intro: reachable.more)
    qed
    with b Inr e show ?thesis by (simp add: runRequest_halves bindIO_def performs_def)
  qed
qed

lemma snd_ignoring: "snd (ignoring m w) = snd (m w)"
  by (simp add: ignoring_def bindIO_def returnIO_def split: prod.split sum.split)

lemma follows_program:
  "follows (performs s lib p) (CreateJob lib p inp)" "follows (performs s lib p) (UpdateJob lib p i inp)"
  "follows (performs s lib p) (DeleteJob i)" "follows (performs s lib p) (TriggerJob i reason)"
  "follows (performs s lib p) (CancelRun j)"
  using performs_request [of s lib p _ "CreateReq inp"] performs_request [of s lib p _ "UpdateReq i inp"]
    performs_request [of s lib p _ "DeleteReq i"] performs_request [of s lib p _ "TriggerReq i reason"]
    performs_request [of s lib p _ "CancelReq j"]
  by (simp_all add: follows_def snd_ignoring)

interpretation program_requests: request_relation "performs s lib p" lib p True for s lib p
  by unfold_locales (auto intro: performs_reading follows_program)

text \<open>A request, on whatever path.\<close>

lemma serve_performs:
  "performs s (svCron sv) (policyOfConfig (svScheduler sv)) w (snd (serve sv rq w))"
  by (rule program_requests.serve_kept [OF refl refl]) simp

section \<open>The scan for due jobs\<close>

lemma processEach_path:
  assumes "sysDue \<sigma> = js"
  shows "reachable s lib p \<sigma> (\<sigma>\<lparr>sysWorld := snd (processEach s lib (sysDueNow \<sigma>) js (sysWorld \<sigma>)), sysDue := []\<rparr>)"
  using assms
proof (induction js arbitrary: \<sigma>)
  case Nil
  then have "\<sigma>\<lparr>sysDue := []\<rparr> = \<sigma>" by (cases \<sigma>) simp
  then show ?case by (simp add: returnIO_def reachable.start)
next
  case (Cons j js)
  obtain r w1 where j: "processDueJob s lib j (sysDueNow \<sigma>) (sysWorld \<sigma>) = (r, w1)" by force
  let ?\<sigma>1 = "\<sigma>\<lparr>sysWorld := w1, sysDue := js\<rparr>"
  have 1: "step s lib p \<sigma> ?\<sigma>1" by (rule step.due_job [OF Cons.prems j])
  have "reachable s lib p ?\<sigma>1 (?\<sigma>1\<lparr>sysWorld := snd (processEach s lib (sysDueNow ?\<sigma>1) js (sysWorld ?\<sigma>1)), sysDue := []\<rparr>)"
    by (rule Cons.IH) simp
  from reachable_trans [OF this reachable_step [OF 1]] j show ?case
    by (simp add: bindIO_def tryIO_def)
qed

lemma processDueJobs_path:
  assumes "sysDue \<sigma> = []"
  shows "\<exists>now. reachable s lib p \<sigma> (\<sigma>\<lparr>sysWorld := snd (processDueJobs s lib (sysWorld \<sigma>)), sysDueNow := now\<rparr>)"
proof -
  let ?w = "sysWorld \<sigma>"
  let ?now = "wClock ?w (wTicks ?w)" and ?w1 = "?w\<lparr>wTicks := Suc (wTicks ?w)\<rparr>"
  obtain r w2 where l: "ListDue ?now ?w1 = (r, w2)" by force
  have d: "snd (processDueJobs s lib ?w) = snd ((case r of Inl _ \<Rightarrow> returnIO () | Inr js \<Rightarrow> processEach s lib ?now js) w2)"
    using l by (simp add: processDueJobs_def bindIO_def timeNow_def tryIO_def)
  show ?thesis
  proof (cases r)
    case (Inl e)
    have "reading ?w1 w2" using reading_from [OF reading_methods(3) l] .
    then have "reading ?w w2" by (auto simp: reading_def)
    from step.elsewhere [OF this] have "reachable s lib p \<sigma> (\<sigma>\<lparr>sysWorld := w2\<rparr>)" by (rule reachable_step)
    with d Inl show ?thesis by (intro exI [of _ "sysDueNow \<sigma>"]) (simp add: returnIO_def)
  next
    case (Inr js)
    let ?\<sigma>1 = "\<sigma>\<lparr>sysWorld := w2, sysDue := js, sysDueNow := ?now\<rparr>"
    have 1: "step s lib p \<sigma> ?\<sigma>1"
      using l Inr by (intro step.due_list [OF assms]) (simp add: bindIO_def timeNow_def returnIO_def)
    have "reachable s lib p ?\<sigma>1 (?\<sigma>1\<lparr>sysWorld := snd (processEach s lib (sysDueNow ?\<sigma>1) js (sysWorld ?\<sigma>1)), sysDue := []\<rparr>)"
      by (rule processEach_path) simp
    from reachable_trans [OF this reachable_step [OF 1]] d Inr assms show ?thesis
      by (intro exI [of _ ?now], cases \<sigma>) simp
  qed
qed

section \<open>A call of the dispatch loop\<close>

lemma sysPending_same: "sysPending \<sigma> = [] \<Longrightarrow> \<sigma>\<lparr>sysPending := []\<rparr> = \<sigma>"
  by (cases \<sigma>) simp

text \<open>The loop starts the workers of one listing; where a token is refused, it drops the rest of the list.\<close>

lemma spawnAll_path:
  assumes "sysPending \<sigma> = rs" and "spawnAll c rs (sysPool \<sigma>) = (q, is, go)"
  shows "reachable s lib p \<sigma> (\<sigma>\<lparr>sysPending := [], sysPool := q, sysWorkers := sysWorkers \<sigma> @ map Started is\<rparr>)"
  using assms
proof (induction rs arbitrary: \<sigma> "is")
  case Nil
  then have "\<sigma>\<lparr>sysPending := [], sysPool := q, sysWorkers := sysWorkers \<sigma> @ map Started is\<rparr> = \<sigma>"
    by (cases \<sigma>) simp
  then show ?case by (simp add: reachable.start)
next
  case (Cons run rs)
  show ?case
  proof (cases "acquireWorkerToken c (sysPool \<sigma>)")
    case None
    with Cons.prems(2) have "\<sigma>\<lparr>sysPending := [], sysPool := q, sysWorkers := sysWorkers \<sigma> @ map Started is\<rparr>
        = \<sigma>\<lparr>sysPending := []\<rparr>" by (cases \<sigma>) simp
    then show ?thesis by (simp add: reachable_step step.dispatch_stop)
  next
    case (Some q1)
    then have a: "acquireWorkerToken False (sysPool \<sigma>) = Some q1" by (simp add: acquireWorkerToken_def split: if_splits)
    from Some Cons.prems(2) obtain js where js: "spawnAll c rs q1 = (q, js, go)" "is = runID run # js"
      by (auto split: prod.splits)
    let ?\<sigma>1 = "\<sigma>\<lparr>sysPending := rs, sysPool := q1, sysWorkers := sysWorkers \<sigma> @ [Started (runID run)]\<rparr>"
    have 1: "step s lib p \<sigma> ?\<sigma>1" by (rule step.dispatch_spawn [OF Cons.prems(1) a])
    have "reachable s lib p ?\<sigma>1 (?\<sigma>1\<lparr>sysPending := [], sysPool := q, sysWorkers := sysWorkers ?\<sigma>1 @ map Started js\<rparr>)"
      by (rule Cons.IH) (simp_all add: js(1))
    from reachable_trans [OF this reachable_step [OF 1]] js(2) show ?thesis by simp
  qed
qed

lemma dispatchTurns_path:
  assumes "sysPending \<sigma> = []" and "dispatchTurns n c (sysPool \<sigma>) (sysWorld \<sigma>) = (Inr (q, is), w)"
  shows "reachable s lib p \<sigma> (\<sigma>\<lparr>sysWorld := w, sysPool := q, sysWorkers := sysWorkers \<sigma> @ map Started is\<rparr>)"
  using assms
proof (induction n arbitrary: \<sigma> "is")
  case 0
  then have "\<sigma>\<lparr>sysWorld := w, sysPool := q, sysWorkers := sysWorkers \<sigma> @ map Started is\<rparr> = \<sigma>"
    by (cases \<sigma>) (simp add: returnIO_def)
  then show ?case by (simp add: reachable.start)
next
  case (Suc n)
  let ?av = "int (poolCap (sysPool \<sigma>)) - int (poolUsed (sysPool \<sigma>))"
  have idle: "reachable s lib p \<sigma> (\<sigma>\<lparr>sysWorld := w, sysPool := q, sysWorkers := sysWorkers \<sigma> @ map Started is\<rparr>)"
    if "reading (sysWorld \<sigma>) w" "q = sysPool \<sigma>" "is = []"
  proof -
    from that(2,3) have "\<sigma>\<lparr>sysWorld := w, sysPool := q, sysWorkers := sysWorkers \<sigma> @ map Started is\<rparr> = \<sigma>\<lparr>sysWorld := w\<rparr>"
      by (cases \<sigma>) simp
    with reachable_step [OF step.elsewhere [OF that(1)]] show ?thesis by simp
  qed
  obtain l w1 where l: "ListPending ?av (sysWorld \<sigma>) = (l, w1)" by force
  have rd: "reading (sysWorld \<sigma>) w1" by (rule reading_from [OF reading_methods(6) l])
  show ?case
  proof (cases "?av \<le> 0 \<or> (\<forall>pending. l = Inr pending \<longrightarrow> pending = [])")
    case True
    with Suc.prems(2) rd l have "reading (sysWorld \<sigma>) w" "q = sysPool \<sigma>" "is = []"
      by (auto simp: dispatchTurn_def Let_def returnIO_def bindIO_def tryIO_def reads.world_refl
          split: if_splits sum.splits)
    then show ?thesis by (rule idle)
  next
    case False
    then obtain rs where rs: "l = Inr rs" "rs \<noteq> []" and av: "poolUsed (sysPool \<sigma>) < poolCap (sysPool \<sigma>)" by auto
    obtain q1 is1 go where sp: "spawnAll c rs (sysPool \<sigma>) = (q1, is1, go)" by (metis prod_cases3)
    let ?\<sigma>1 = "\<sigma>\<lparr>sysWorld := w1, sysPending := rs\<rparr>"
    have 1: "step s lib p \<sigma> ?\<sigma>1" using l rs(1) by (intro step.dispatch_list [OF Suc.prems(1) av]) simp
    let ?\<sigma>2 = "?\<sigma>1\<lparr>sysPending := [], sysPool := q1, sysWorkers := sysWorkers ?\<sigma>1 @ map Started is1\<rparr>"
    have "reachable s lib p ?\<sigma>1 ?\<sigma>2" using sp by (intro spawnAll_path [where c = c and go = go]) simp_all
    from reachable_trans [OF this reachable_step [OF 1]] have 2: "reachable s lib p \<sigma> ?\<sigma>2" .
    show ?thesis
    proof (cases go)
      case False
      with Suc.prems(2) l rs sp av have "w = w1" "q = q1" "is = is1"
        by (simp_all add: dispatchTurn_def returnIO_def bindIO_def tryIO_def)
      with 2 Suc.prems(1) show ?thesis by (cases \<sigma>) simp
    next
      case True
      with Suc.prems(2) l rs sp av obtain is2 where
        t: "dispatchTurns n c q1 w1 = (Inr (q, is2), w)" and "is": "is = is1 @ is2"
        by (auto simp: dispatchTurn_def returnIO_def bindIO_def tryIO_def split: prod.splits sum.splits)
      have "reachable s lib p ?\<sigma>2 (?\<sigma>2\<lparr>sysWorld := w, sysPool := q, sysWorkers := sysWorkers ?\<sigma>2 @ map Started is2\<rparr>)"
        using t by (intro Suc.IH) simp_all
      from reachable_trans [OF this 2] "is" Suc.prems(1) show ?thesis by (cases \<sigma>) simp
    qed
  qed
qed

lemma processDispatch_path:
  "sysPending \<sigma> = [] \<Longrightarrow> processDispatch c (sysPool \<sigma>) (sysWorld \<sigma>) = (Inr (q, is), w) \<Longrightarrow>
   reachable s lib p \<sigma> (\<sigma>\<lparr>sysWorld := w, sysPool := q, sysWorkers := sysWorkers \<sigma> @ map Started is\<rparr>)"
  unfolding processDispatch_def by (rule dispatchTurns_path)

section \<open>A worker\<close>

text \<open>While the executor runs, the other parties may do anything they do; the worker then records what the
  executor returned.\<close>

lemma claimed_path:
  assumes ws: "sysWorkers \<sigma> = xs @ HasClaim i run job # ys"
    and ex: "\<And>job run w. performs s lib p w (snd (exec job run w))"
    and out: "exec job' run (sysWorld \<sigma>) = (out, w1)"
    and job': "job' = job\<lparr>jobTimeoutSec := effectiveTimeoutSec s (jobTimeoutSec job)\<rparr>"
    and fin: "workerFinish i job' run out w1 = (r, w2)"
  shows "reachable s lib p \<sigma> (workerEnds xs ys w2 (\<sigma>\<lparr>sysExecuted := sysExecuted \<sigma> @ [i]\<rparr>))"
proof -
  let ?\<sigma>1 = "\<sigma>\<lparr>sysWorkers := xs @ Executing i run job' # ys, sysExecuted := sysExecuted \<sigma> @ [i]\<rparr>"
  have 1: "step s lib p \<sigma> ?\<sigma>1" unfolding job' by (rule step.execute [OF ws])
  have "performs s lib p (sysWorld \<sigma>) w1" using ex [of "sysWorld \<sigma>" job' run] out by simp
  then have 2: "reachable s lib p ?\<sigma>1 (?\<sigma>1\<lparr>sysWorld := w1\<rparr>)"
    unfolding performs_def by (elim allE [of _ ?\<sigma>1] impE) simp_all
  have "step s lib p (?\<sigma>1\<lparr>sysWorld := w1\<rparr>) (workerEnds xs ys w2 (?\<sigma>1\<lparr>sysWorld := w1\<rparr>))"
    using fin by (intro step.finish [where i = i and run = run and job = job' and out = out and r = r]) simp_all
  from reachable.more [OF reachable_trans [OF 2 reachable_step [OF 1]] this] show ?thesis
    by (simp add: workerEnds_def)
qed

lemma runWorker_path:
  assumes ws: "sysWorkers \<sigma> = xs @ Started i # ys"
    and ex: "\<And>job run w. performs s lib p w (snd (exec job run w))"
  shows "\<exists>cs es. es \<in> {sysExecuted \<sigma>, sysExecuted \<sigma> @ [i]}
    \<and> reachable s lib p \<sigma> (workerEnds xs ys (snd (runWorker s exec c i (sysWorld \<sigma>))) (\<sigma>\<lparr>sysClaims := cs, sysExecuted := es\<rparr>))"
proof -
  let ?w = "sysWorld \<sigma>"
  have same: "\<sigma>\<lparr>sysClaims := sysClaims \<sigma>, sysExecuted := sysExecuted \<sigma>\<rparr> = \<sigma>" by simp
  obtain l w1 where l: "workerLoad i ?w = (l, w1)" by force
  show ?thesis
  proof (cases l)
    case (Inl e)
    with l reachable_load_fails [OF ws, of e w1 s lib p] show ?thesis
      by - (rule exI [of _ "sysClaims \<sigma>"], rule exI [of _ "sysExecuted \<sigma>"],
        simp add: runWorker_def bindIO_def tryIO_def returnIO_def)
  next
    case (Inr rj)
    obtain run job where rj: "rj = (run, job)" by (cases rj)
    let ?\<sigma>1 = "\<sigma>\<lparr>sysWorld := w1, sysWorkers := xs @ Loaded i run job # ys\<rparr>"
    have 1: "reachable s lib p \<sigma> ?\<sigma>1" using l Inr rj by (intro reachable_load [OF ws]) simp
    obtain cl w2 where cl: "workerClaim i run w1 = (cl, w2)" by force
    show ?thesis
    proof (cases "\<exists>run'. cl = Inr (Some run')")
      case False
      have "step s lib p ?\<sigma>1 (workerEnds xs ys w2 ?\<sigma>1)"
        using cl False by (intro step.claim_refused [where i = i and run = run and job = job and r = cl]) simp_all
      from reachable.more [OF 1 this] l Inr rj cl False show ?thesis
        by - (rule exI [of _ "sysClaims \<sigma>"], rule exI [of _ "sysExecuted \<sigma>"],
          auto simp: runWorker_def bindIO_def tryIO_def returnIO_def workerEnds_def split: sum.split option.split)
    next
      case True
      then obtain run' where run': "cl = Inr (Some run')" by blast
      let ?\<sigma>2 = "?\<sigma>1\<lparr>sysWorld := w2, sysWorkers := xs @ HasClaim i run' job # ys, sysClaims := sysClaims ?\<sigma>1 @ [i]\<rparr>"
      have "step s lib p ?\<sigma>1 ?\<sigma>2" using cl run' by (intro step.claim [where run = run]) simp_all
      note 2 = reachable.more [OF 1 this]
      show ?thesis
      proof (cases c)
        case True
        obtain r w3 where ab: "workerAbort i run' w2 = (r, w3)" by force
        have "step s lib p ?\<sigma>2 (workerEnds xs ys w3 ?\<sigma>2)"
          using ab by (intro step.abort [where i = i and run = run' and job = job and r = r]) simp_all
        from reachable.more [OF 2 this] l Inr rj cl run' ab True show ?thesis
          by - (rule exI [of _ "sysClaims \<sigma> @ [i]"], rule exI [of _ "sysExecuted \<sigma>"],
            simp add: runWorker_def bindIO_def tryIO_def workerEnds_def)
      next
        case False
        let ?job = "job\<lparr>jobTimeoutSec := effectiveTimeoutSec s (jobTimeoutSec job)\<rparr>"
        obtain out w3 where out: "exec ?job run' w2 = (out, w3)" by force
        obtain r w4 where fin: "workerFinish i ?job run' out w3 = (r, w4)" by force
        have "reachable s lib p ?\<sigma>2 (workerEnds xs ys w4 (?\<sigma>2\<lparr>sysExecuted := sysExecuted ?\<sigma>2 @ [i]\<rparr>))"
          by (rule claimed_path [where job' = ?job and run = run' and exec = exec and job = job, OF _ ex _ refl fin])
            (use out in simp_all)
        from reachable_trans [OF this 2] l Inr rj cl run' out fin False show ?thesis
          by - (rule exI [of _ "sysClaims \<sigma> @ [i]"], rule exI [of _ "sysExecuted \<sigma> @ [i]"],
            simp add: runWorker_def bindIO_def tryIO_def workerEnds_def Let_def)
      qed
    qed
  qed
qed

section \<open>A round of the pruner\<close>

definition pfollows :: "(world \<Rightarrow> world \<Rightarrow> bool) \<Rightarrow> 'a pio \<Rightarrow> bool" where
  "pfollows W m \<longleftrightarrow> (\<forall>s. W (fst s) (fst (snd (m s))))"

context world_preorder
begin

lemma pfollows_returnP: "pfollows W (returnP x)" and pfollows_failP: "pfollows W (failP e)"
  by (simp_all add: pfollows_def returnP_def failP_def world_refl)

lemma pfollows_bindP:
  assumes "pfollows W m" and "\<And>x. pfollows W (f x)"
  shows "pfollows W (bindP m f)"
  unfolding pfollows_def
proof
  fix s
  obtain r s1 where m: "m s = (r, s1)" by (cases "m s") blast
  have "W (fst s) (fst s1)" using assms(1) m by (metis pfollows_def snd_conv)
  moreover have "W (fst s1) (fst (snd (f x s1)))" for x using assms(2) [of x] by (simp add: pfollows_def del: split_paired_All)
  ultimately show "W (fst s) (fst (snd (bindP m f s)))"
    using world_trans by (cases r) (auto simp: bindP_def m)
qed

lemma pfollows_onWorld: "follows W m \<Longrightarrow> pfollows W (onWorld m)"
  by (auto simp: pfollows_def onWorld_def follows_def split: prod.splits) (metis snd_conv)

lemma pfollows_onDisk: "pfollows W (onDisk m)" and pfollows_whenP: "pfollows W (whenP b n)"
  by (auto simp: pfollows_def whenP_def onDisk_def returnP_def world_refl split: prod.splits)

lemma pfollows_agedP: "follows W timeNow \<Longrightarrow> pfollows W (agedP b n t)"
  by (auto simp: agedP_def intro: pfollows_bindP pfollows_onWorld pfollows_returnP)

lemma pfollows_cases:
  "pfollows W m \<Longrightarrow> pfollows W n \<Longrightarrow> pfollows W (if b then m else n)"
  "pfollows W m \<Longrightarrow> (\<And>x. pfollows W (f x)) \<Longrightarrow> pfollows W (case v of None \<Rightarrow> m | Some x \<Rightarrow> f x)"
  "(\<And>a b. pfollows W (h a b)) \<Longrightarrow> pfollows W (case q of (a, b) \<Rightarrow> h a b)"
  by (simp, cases v, simp_all, cases q, simp)

lemmas pfollows_intros = pfollows_returnP pfollows_failP pfollows_bindP pfollows_onDisk pfollows_whenP pfollows_agedP
  pfollows_onWorld pfollows_cases

lemma pfollows_pruner:
  assumes now: "follows W timeNow" and list: "\<And>t pg. follows W (ListTerminalBefore t pg)"
    and delete: "\<And>t. follows W (DeleteTerminalBefore t)"
  shows "pfollows W (prunerRun cfg wd ctx ctx')"
proof -
  have files: "pfollows W (pruneRunFiles cfg wd r)" "pfollows W (removeAllRunFiles cfg wd r)" for r
    unfolding pruneRunFiles_def removeAllRunFiles_def Let_def by (intro pfollows_intros now)+
  have each: "pfollows W (pruneEach cfg wd ctx k rp rs)" for k rp rs
    by (induction rs arbitrary: k rp) (auto intro!: pfollows_intros files split: option.split)
  have history: "pfollows W (removeHistory cfg wd t rp rs)" for t rp rs
    by (induction rs arbitrary: rp) (auto intro!: pfollows_intros files)
  show ?thesis
    unfolding prunerRun_def pruneListed_def pruneHistory_def Let_def
    by (intro pfollows_intros now list delete each history)
qed

end

lemma prunerRun_performs: "performs s lib p w (fst (snd (prunerRun cfg wd ctx ctx' (w, d))))"
proof -
  have "performs s lib p v (snd (DeleteTerminalBefore t v))" for t v
    unfolding performs_def
    by (metis (no_types) prod.collapse reachable_step step.prune_rows)
  moreover have "follows (performs s lib p) timeNow"
    using reading_timeNow by (simp add: follows_def performs_reading)
  ultimately have "pfollows (performs s lib p) (prunerRun cfg wd ctx ctx')"
    by (intro program.pfollows_pruner) (simp_all add: follows_def performs_reading reading_methods(7) [unfolded follows_def])
  then show ?thesis by (auto simp: pfollows_def)
qed

end
