(* ===== verification/Spec2Isabelle.thy ===== *)
theory Spec2Isabelle
  imports Scenarios Startup Simulation Liveness
begin

text \<open>
  The Go program \<open>go-job-runner\<close> runs container jobs on cron or interval schedules: an HTTP API and a
  web UI write jobs and runs to an SQLite file, a scheduler turns due jobs into pending runs and
  pending runs into executions by Docker, and a pruner removes what is old. The development models
  the code under \<open>src/internal\<close>, function by function, and proves what makes it correct.

  \<^bold>\<open>The standard library.\<close> Go_Strings, Go_Text, Go_Time, Time_Format, Go_Path and Go_Net define what the
  program uses of \<open>strings\<close>, \<open>strconv\<close>, \<open>bufio\<close>, \<open>time\<close>, \<open>path/filepath\<close> and \<open>net\<close>: bytes as characters,
  64-bit integers as \<open>int\<close> with \<open>wrap64\<close> where the code can overflow, instants as nanoseconds since
  year 1, RFC 3339 texts, cleaned and relative paths. Prelude holds the lemmas on lists and results
  that the components share.

  \<^bold>\<open>The data.\<close> Model holds the records and enumerations of \<open>internal/model\<close> and the errors. Store_Db is
  the database: the rows of the three tables as lists in insertion order, keys from sequences, the
  constraints of the schema as \<open>dbWf\<close>; an operation is a function from the world (tables, clock,
  wakeup channels, a schedule of driver failures) to an error or a value and the new world.

  \<^bold>\<open>The repositories\<close> (Job_Repo, Run_Repo, Event_Repo: \<open>internal/store\<close>) give every SQL statement as a
  function on the tables and every method as an operation that may fail. Each preserves \<open>dbWf\<close> and
  never makes a spent run claimable again; these two facts reach the whole program through the
  locales \<open>db_preorder\<close> and \<open>claim_once\<close>.

  \<^bold>\<open>The services and the scheduler.\<close> Config is \<open>internal/config\<close>; Job_Service and Run_Service are
  \<open>internal/service\<close>; Sched_Core, Due_Job, Dispatch, Worker and Loops are \<open>internal/scheduler\<close>; Log_Files
  is \<open>internal/log\<close>.

  \<^bold>\<open>The program as a whole.\<close> System composes them: a step is one statement or transaction of one of the
  concurrent parties. A request that reads and then writes takes two steps, so that others can come in
  between (C15); a worker takes one for its run, one for its job, one for its claim, and so on; the scan
  and the dispatch loop work through the list they have read. The invariant of the reachable states
  gives C1 to C3. World_Rel has the locale \<open>world_preorder\<close> for what every operation of the program keeps
  of the world. Simulation shows that the steps are enough: what each goroutine does, as the code has it,
  is a path of steps (C5), so that what holds along the steps holds of the program. Rows is a Hoare logic
  over the operations of the store, by which every row of a reachable database can be read back (C4).
  Progress and Liveness have the steps that lead a pending run to its execution from any reachable state,
  by induction on the number of pending runs and of live workers (C6). Two abstract specifications are
  refined: Lifecycle has the three phases of a run, along which every step of System moves it (C26), and
  Job_Map has a map with partial operations, which the table of jobs under the service refines (C27,
  locale \<open>entity_store\<close>).

  \<^bold>\<open>Images, containers, files.\<close> Image_Source is the resolver with the local source, under the locale
  \<open>image_source\<close>; Image_Remote is the registry client, its paged catalog a partial function and its
  concurrent fetching of tags a step relation (\<open>internal/image\<close>, C28 to C30). Executor is
  \<open>internal/executor/docker.go\<close>, with the commands it issues recorded (C33, C34). Retention is
  \<open>internal/retention/pruner.go\<close> over a table of files (C31, C32); the locale \<open>state_preorder\<close> carries
  what it touches through its steps.

  \<^bold>\<open>The front.\<close> Http_Api holds the REST handlers (\<open>internal/api/handler\<close>), Web_UI the pages and forms
  (\<open>internal/api/ui/ui.go\<close> and the controls of \<open>job_form.tmpl\<close>), Server the routes, the search over them and
  the whole of what a request does (\<open>internal/api/router.go\<close>); its locales \<open>request_relation\<close> and
  \<open>service_relation\<close> take any relation the services keep to the requests, which gives C39 and a part of
  C5. Startup is \<open>Open\<close> of the store, \<open>StartServer\<close> and \<open>cmd/main.go\<close>. Example and Scenarios hold the
  concrete worlds on which the witnesses evaluate.

  \<^bold>\<open>Bounds.\<close> The dispatch loop runs with one turn more than the channel has places, which is enough
  since every turn takes a token (C23). The parser of IPv6 addresses has eight turns, one per group.
  The catalog loop has no bound: that it returns is the statement that the pages end (C30). The
  endless loops of the scheduler run over a finite sequence of ticks and wakeups.

  \<^bold>\<open>Not modelled.\<close> What the SQLite driver does with a pragma, the texts of driver errors, printing and
  log lines, the HTTP framework but for its search over the routes, the execution of templates, and
  the decoding of YAML and JSON: input and output of libraries. Symbolic links. Letters and spaces
  beyond ASCII in case folding and trimming. Nil receivers and arguments, which no caller passes, and
  the setters only tests use. The cron library, the time zone database, the HTTP client, the Docker
  command line and the file system are arguments of the definitions that call them.
\<close>

section \<open>Execution of runs\<close>

text \<open>C1. Whatever the interleaving of requests, scans, dispatches, workers and pruning, and
  whatever fails on the way, no run is handed to the executor twice.\<close>

theorem run_executed_at_most_once:
  assumes "reachable s lib p \<sigma>0 \<sigma>" and "initial n \<sigma>0"
  shows "distinct (sysExecuted \<sigma>)"
  using assms by (rule reachable_executed_distinct)

theorem run_executed_at_most_once_witness:
  "\<exists>\<sigma>. reachable exSched everyMinute defaultPolicy (exSys [exRunRow ''pending'']) \<sigma>
     \<and> sysExecuted \<sigma> = [1] \<and> distinct (sysExecuted \<sigma>)"
  using exSys_executes run_executed_at_most_once [OF _ exSys_initial [of "''pending''"]] by force

text \<open>C2. At every reachable moment the number of live workers is at most the capacity of the
  token channel, \<open>max_concurrent_runs\<close>.\<close>

theorem live_workers_bounded:
  assumes "reachable s lib p \<sigma>0 \<sigma>" and "initial n \<sigma>0"
  shows "length (sysWorkers \<sigma>) \<le> n"
  using assms by (rule reachable_workers_bound)

theorem live_workers_bounded_witness:
  "\<exists>\<sigma>. reachable exSched everyMinute defaultPolicy (exSys [exRunRow ''pending'']) \<sigma>
     \<and> length (sysWorkers \<sigma>) = 1 \<and> length (sysWorkers \<sigma>) \<le> 2"
  using exSys_executes live_workers_bounded [OF _ exSys_initial [of "''pending''"]] by force

text \<open>C3. At every reachable moment the database satisfies the constraints of its schema (keys
  below their sequences, unique names and run keys, foreign keys) and every enumeration column
  holds a value of its enumeration.\<close>

theorem store_always_well_formed:
  assumes "reachable s lib p \<sigma>0 \<sigma>" and "initial n \<sigma>0"
  shows "dbWf (wDb (sysWorld \<sigma>))"
  using reachable_inv [OF assms] by (simp add: sysInv_def)

theorem store_always_well_formed_witness:
  "\<exists>\<sigma>. reachable exSched everyMinute defaultPolicy (exSys [exRunRow ''pending'']) \<sigma>
     \<and> sysExecuted \<sigma> = [1] \<and> dbWf (wDb (sysWorld \<sigma>))"
  using exSys_executes store_always_well_formed [OF _ exSys_initial [of "''pending''"]] by force

text \<open>C4. Every row of a reachable database can be read back, and nothing of it is lost in reading: it is the
  row of the job, run or event that it decodes to. So no listing fails on what the program wrote
  itself. The clock has to stay 292 years away from the years 1 and 9999, and the cron library to answer
  with instants a column can hold.\<close>

theorem every_row_can_be_read:
  assumes "reachable s lib p \<sigma>0 \<sigma>" and "initial n \<sigma>0" and "written (wDb (sysWorld \<sigma>0))"
    and "\<And>k. clockOk (wClock (sysWorld \<sigma>0) k)" and "cronRepresentable lib"
  shows "(\<forall>r\<in>set (dbJobs (wDb (sysWorld \<sigma>))). \<exists>j. scanJob r = Inr j \<and> jobRow j = r)
    \<and> (\<forall>r\<in>set (dbRuns (wDb (sysWorld \<sigma>))). \<exists>x. scanRun r = Inr x \<and> runRow x = r)
    \<and> (\<forall>r\<in>set (dbEvents (wDb (sysWorld \<sigma>))). \<exists>e. scanRunEvent r = Inr e \<and> eventRow e = r)"
proof -
  have "rowsInv \<sigma>0" by (rule rowsInv_initial [OF assms(2)]) (simp add: sound_def assms(3,4))
  from reachable_rowsInv [OF assms(1,5) this] have "written (wDb (sysWorld \<sigma>))" by (simp add: rowsInv_def sound_def)
  then show ?thesis
    by (simp add: written_def jobWritten_def runWritten_def eventWritten_def)
      (intro conjI ballI; force simp: scanJob_jobRow scanRun_runRow scanRunEvent_eventRow)
qed

theorem every_row_can_be_read_witness:
  "\<exists>\<sigma> xs. reachable exSched everyMinute defaultPolicy exStill \<sigma> \<and> 1 \<in> set (sysExecuted \<sigma>)
     \<and> map_res scanRun (dbRuns (wDb (sysWorld \<sigma>))) = Inr xs"
proof -
  obtain \<sigma> where \<sigma>: "reachable exSched everyMinute defaultPolicy exStill \<sigma>" "1 \<in> set (sysExecuted \<sigma>)"
    using exStill_executes by blast
  from every_row_can_be_read [OF \<sigma>(1) exStill_initial exStill_written exStill_clock everyMinute_representable]
  have "\<exists>xs. map_res scanRun (dbRuns (wDb (sysWorld \<sigma>))) = Inr xs" by (intro map_res_decodes) blast
  with \<sigma> show ?thesis by blast
qed

text \<open>C5. The steps of System are all there is: what each goroutine does, as it stands in the code, is a path
  of steps. A request, on whatever route, from its arrival to its reply; a worker, from its start to the
  release of its token, provided the executor does nothing else to the database; a scan for due jobs; a
  call of the dispatch loop, with the workers it starts; and a round of the pruner.\<close>

theorem goroutines_run_by_steps:
  assumes "\<And>job run w. performs s lib p w (snd (exec job run w))"
    and "svCron sv = lib" and "policyOfConfig (svScheduler sv) = p"
  shows "reachable s lib p \<sigma> (\<sigma>\<lparr>sysWorld := snd (serve sv rq (sysWorld \<sigma>))\<rparr>)
    \<and> (sysWorkers \<sigma> = xs @ Started i # ys \<longrightarrow> (\<exists>cs es. es \<in> {sysExecuted \<sigma>, sysExecuted \<sigma> @ [i]}
        \<and> reachable s lib p \<sigma> (workerEnds xs ys (snd (runWorker s exec c i (sysWorld \<sigma>)))
            (\<sigma>\<lparr>sysClaims := cs, sysExecuted := es\<rparr>))))
    \<and> (sysDue \<sigma> = [] \<longrightarrow> (\<exists>now. reachable s lib p \<sigma> (\<sigma>\<lparr>sysWorld := snd (processDueJobs s lib (sysWorld \<sigma>)), sysDueNow := now\<rparr>)))
    \<and> (sysPending \<sigma> = [] \<longrightarrow> (\<exists>q is w. processDispatch c (sysPool \<sigma>) (sysWorld \<sigma>) = (Inr (q, is), w)
        \<and> reachable s lib p \<sigma> (\<sigma>\<lparr>sysWorld := w, sysPool := q, sysWorkers := sysWorkers \<sigma> @ map Started is\<rparr>)))
    \<and> reachable s lib p \<sigma> (\<sigma>\<lparr>sysWorld := fst (snd (prunerRun cfg wd ctx ctx' (sysWorld \<sigma>, d)))\<rparr>)"
proof (intro conjI impI)
  show "reachable s lib p \<sigma> (\<sigma>\<lparr>sysWorld := snd (serve sv rq (sysWorld \<sigma>))\<rparr>)"
    using serve_performs [of s sv "sysWorld \<sigma>" rq] assms(2,3) by (simp add: performs_def)
  show "reachable s lib p \<sigma> (\<sigma>\<lparr>sysWorld := fst (snd (prunerRun cfg wd ctx ctx' (sysWorld \<sigma>, d)))\<rparr>)"
    using prunerRun_performs [of s lib p "sysWorld \<sigma>" cfg wd ctx ctx' d] by (simp add: performs_def)
  show "\<exists>q is w. processDispatch c (sysPool \<sigma>) (sysWorld \<sigma>) = (Inr (q, is), w)
        \<and> reachable s lib p \<sigma> (\<sigma>\<lparr>sysWorld := w, sysPool := q, sysWorkers := sysWorkers \<sigma> @ map Started is\<rparr>)"
    if "sysPending \<sigma> = []"
    using processDispatch_Inr [of c "sysPool \<sigma>" "sysWorld \<sigma>"] processDispatch_path [OF that] by blast
qed (rule runWorker_path processDueJobs_path; use assms in blast)+

theorem goroutines_run_by_steps_witness:
  "\<exists>\<sigma>. reachable exSched everyMinute (policyOfConfig (svScheduler exServer)) ((exSys [exRunRow ''pending''])\<lparr>sysWorkers := [Started 1]\<rparr>) \<sigma>
     \<and> sysWorkers \<sigma> = []"
proof -
  let ?p = "policyOfConfig (svScheduler exServer)" and ?\<sigma> = "(exSys [exRunRow ''pending''])\<lparr>sysWorkers := [Started 1]\<rparr>"
  have ex: "performs exSched everyMinute ?p w (snd (noopExecutor job run w))" for job run w
    by (simp add: noopExecutor_def program.world_refl)
  have sv: "svCron exServer = everyMinute" by (simp add: exServer_def)
  have ws: "sysWorkers ?\<sigma> = [] @ Started 1 # []" by simp
  from goroutines_run_by_steps [where s = exSched and \<sigma> = ?\<sigma> and exec = noopExecutor and c = False, OF ex sv refl] ws
  obtain cs es where "reachable exSched everyMinute ?p ?\<sigma> (workerEnds [] [] (snd (runWorker exSched noopExecutor False 1 (sysWorld ?\<sigma>)))
      (?\<sigma>\<lparr>sysClaims := cs, sysExecuted := es\<rparr>))" by blast
  then show ?thesis by (intro exI conjI) (assumption, simp add: workerEnds_def)
qed



section \<open>The store\<close>


text \<open>C8. A time between the years 1 and 9999 that a repository writes to a column is the time it reads back,
  to the nanosecond; and so a job, a run and an event written to their rows are read back unchanged.\<close>

theorem rows_roundtrip:
  assumes "timeOk t" and "jobTimesOk j" and "runTimesOk r" and "timeOk (evCreatedAt e)"
  shows "decodeTime (encodeTime t) = Inr t \<and> scanJob (jobRow j) = Inr j \<and> scanRun (runRow r) = Inr r
    \<and> scanRunEvent (eventRow e) = Inr e"
  using assms by (simp add: column_time.dec_enc scanJob_jobRow scanRun_runRow scanRunEvent_eventRow)

theorem rows_roundtrip_witness:
  "decodeTime (encodeTime 63839664005000000001) = Inr 63839664005000000001
   \<and> scanJob (jobRow exJob) = Inr exJob \<and> scanRun (runRow (exRun ''failed'')) = Inr (exRun ''failed'')
   \<and> scanRunEvent (eventRow (runEvent 1 ''started'' ''run started'')) = Inr (runEvent 1 ''started'' ''run started'')"
  by (rule rows_roundtrip)
    (simp_all add: exJob_def exRun_def jobTimesOk_def runTimesOk_def timeOk_def second_def runEvent_def zeroEvent_def)

section \<open>The due-job scan\<close>





text \<open>C11. Which jobs the scan finds due. The column is compared as text, and the text drops the
  trailing zeros of the fraction: an enabled job planned in an earlier second is always listed, one
  planned in a later second never is, and between two whole seconds the listing is exact. But a job
  planned at a whole second, as every cron job is, is missed at every later instant of that second.\<close>

theorem due_listing_exact_up_to_a_second:
  assumes "q \<in> set (dbJobs d)" and "jr_enabled q = 1" and "jr_next_run_at q = Some (encodeTime t)"
    and "timeOk t" and "timeOk now"
  shows "(t div second < now div second \<longrightarrow> q \<in> set (selectDue (encodeTime now) d))
    \<and> (now div second < t div second \<longrightarrow> q \<notin> set (selectDue (encodeTime now) d))
    \<and> (t mod second = 0 \<and> now mod second = 0 \<longrightarrow> (q \<in> set (selectDue (encodeTime now) d) \<longleftrightarrow> t \<le> now))
    \<and> (t mod second = 0 \<and> now div second = t div second \<and> t < now \<longrightarrow> q \<notin> set (selectDue (encodeTime now) d))"
proof -
  have "q \<notin> set (selectDue (encodeTime now) d)" if "t mod second = 0" "now div second = t div second" "t < now"
  proof -
    have "now mod second = now - t"
      using that(1,2) div_mult_mod_eq [of now second] div_mult_mod_eq [of t second] by simp
    moreover have "now mod second < second" by (rule pos_mod_bound) (simp add: second_def)
    ultimately show ?thesis
      using due_job_missed_within_its_second [of t "now - t" q d] that assms(3) by simp
  qed
  moreover have "q \<in> set (selectDue (encodeTime now) d) \<longleftrightarrow> formatRFC3339Nano t \<le> formatRFC3339Nano now"
    using assms(1-3) by (simp add: selectDue_set encodeTime_def)
  ultimately show ?thesis
    using assms(4,5) format_less [of t now] format_less [of now t] format_le_whole [of t now] by auto
qed

theorem due_listing_exact_up_to_a_second_witness:
  "exJobRow \<in> set (selectDue (encodeTime 63839664065000000000) (wDb (exWorld [])))"
proof -
  have "exJobRow \<in> set (dbJobs (wDb (exWorld [])))" "jr_enabled exJobRow = 1"
    by (simp_all add: exWorld_def exJobRow_def)
  from due_listing_exact_up_to_a_second [OF this exJobRow_next, of 63839664065000000000] show ?thesis
    by (simp add: timeOk_def second_def)
qed

section \<open>Claiming, recording and cancelling\<close>

text \<open>C12. \<open>ClaimPending\<close> succeeds exactly when the run is pending; it then turns that run, and no
  other, to running with its start.\<close>

theorem claim_succeeds_exactly_when_pending:
  assumes "dbWf (wDb w)" and "ClaimPending i t w = (Inr b, w')"
  shows "(b \<longleftrightarrow> (\<exists>q\<in>set (dbRuns (wDb w)). rr_id q = i \<and> rr_status q = RunStatusPending))
    \<and> (\<exists>u. dbRuns (wDb w') = tUpdate (\<lambda>q. rr_id q = i \<and> rr_status q = RunStatusPending)
        (\<lambda>q. q\<lparr>rr_status := RunStatusRunning, rr_started_at := Some (encodeTime t), rr_updated_at := u\<rparr>)
        (dbRuns (wDb w)))"
proof -
  define u where "u = encodeTime (wClock w (wTicks w))"
  obtain n where cb: "claimRow i (encodeTime t) u (wDb w) = (Inr n, wDb w') \<and> b = (n = 1)"
    unfolding u_def by (rule exE [OF ClaimPending_Inr [OF assms(2)]])
  note c = conjunct1 [OF cb] and b = conjunct2 [OF cb]
  have "distinct (map rr_id (dbRuns (wDb w)))" using assms(1) by (simp add: dbWf_def runsWf_def)
  note len = filter_id_count [OF this, of i "\<lambda>q. rr_status q = RunStatusPending"]
  from c have n: "n = int (length (filter (\<lambda>q. rr_id q = i \<and> rr_status q = RunStatusPending) (dbRuns (wDb w))))"
    and d: "wDb w' = (wDb w)\<lparr>dbRuns := tUpdate (\<lambda>q. rr_id q = i \<and> rr_status q = RunStatusPending)
        (\<lambda>q. q\<lparr>rr_status := RunStatusRunning, rr_started_at := Some (encodeTime t), rr_updated_at := u\<rparr>)
        (dbRuns (wDb w))\<rparr>"
    unfolding claimRow_Inr by (rule conjunct1, rule conjunct2)
  have "b \<longleftrightarrow> (\<exists>q\<in>set (dbRuns (wDb w)). rr_id q = i \<and> rr_status q = RunStatusPending)"
    unfolding b n len by simp
  moreover have "dbRuns (wDb w') = tUpdate (\<lambda>q. rr_id q = i \<and> rr_status q = RunStatusPending)
        (\<lambda>q. q\<lparr>rr_status := RunStatusRunning, rr_started_at := Some (encodeTime t), rr_updated_at := u\<rparr>)
        (dbRuns (wDb w))" unfolding d by simp
  ultimately show ?thesis by blast
qed

theorem claim_succeeds_exactly_when_pending_witness:
  "fst (ClaimPending 1 63839664065000000000 (exWorld [exRunRow ''pending''])) = Inr True"
proof -
  obtain b w' where c: "ClaimPending 1 63839664065000000000 (exWorld [exRunRow ''pending'']) = (Inr b, w')"
    by (simp add: ClaimPending_def claimRow_def io_eval exWorld_def Let_def exRunRow_def)
  have "exRunRow ''pending'' \<in> set (dbRuns (wDb (exWorld [exRunRow ''pending''])))"
    "rr_id (exRunRow ''pending'') = 1" "rr_status (exRunRow ''pending'') = RunStatusPending"
    by (simp_all add: exWorld_def exRunRow_def)
  with claim_succeeds_exactly_when_pending [OF exWorld_wf(1) c] c show ?thesis by force
qed

text \<open>C13. The worker records the outcome of an execution whole or not at all: the run gets the status
  and exit code of the outcome and its finish time, no other run changes, and one pending run for
  the next attempt is added exactly when the run failed or timed out and attempts are left.\<close>

theorem worker_records_outcome:
  assumes "workerFinish i job run out w = (Inr u, w')"
  shows "wDb w' = wDb w \<or> (\<exists>g rs. records g i (finalStatus out) (finalExitCode out) (wClock w (wTicks w))
    \<and> dbRuns (wDb w') = map g (dbRuns (wDb w)) @ rs \<and> dbJobs (wDb w') = dbJobs (wDb w)
    \<and> (if retries out \<and> 0 < jobRetryLimit job \<and> runAttempt run < jobRetryLimit job
       then \<exists>r. rs = [runRow r] \<and> runID r = dbRunSeq (wDb w) + 1 \<and> runJobID r = jobID job
         \<and> runStatus r = RunStatusPending \<and> runScheduledAt r = runScheduledAt run
         \<and> runAttempt r = runAttempt run + 1
       else rs = []))"
  using workerFinish_cases [OF assms]
proof (elim disjE exE conjE)
  fix w1 w2
  assume d: "wDb w1 = wDb w" "wDb w' = wDb w2"
    and f: "finishTx i job (withArtifacts out run) out (wClock w (wTicks w)) w1 = (Inr (), w2)"
  have a: "runAttempt (withArtifacts out run) = runAttempt run"
    "runScheduledAt (withArtifacts out run) = runScheduledAt run"
    by (simp_all add: withArtifacts_def Let_def split: option.split)
  from f show ?thesis
  proof (rule finishTx_Inr, goal_cases)
    case (1 g rs)
    with d a show ?thesis by (intro disjI2 exI [of _ g] exI [of _ rs]) simp
  qed
qed simp

theorem worker_records_outcome_witness:
  "map rr_status (dbRuns (wDb (snd (workerFinish 1 exJob (exRun ''pending'') exSuccess (exWorld [exRunRow ''running'']))))) = [''success'']"
proof -
  let ?w = "exWorld [exRunRow ''running'']"
  let ?w' = "snd (workerFinish 1 exJob (exRun ''pending'') exSuccess ?w)"
  have "workerFinish 1 exJob (exRun ''pending'') exSuccess ?w = (Inr (), ?w')"
    using exWorld_finish(1) by (metis prod.collapse)
  from worker_records_outcome [OF this] exWorld_finish(2) show ?thesis
    by (auto simp: exWorld_def exRunRow_def records_def retries_def finalStatus_def exSuccess_def)
qed



text \<open>C15. A request that reads and then writes writes what it read, whatever came between the two statements.
  A cancel request that read its run as pending sets it to cancelled, even where a worker has claimed it;
  an update of a job writes back the time of the last scheduling it read, even where the scan has
  scheduled the job again.\<close>

theorem requests_write_what_they_read:
  "(cancelWrite run w = (Inr run', w') \<and> runStatus run = RunStatusPending \<longrightarrow>
      (\<forall>q\<in>set (dbRuns (wDb w')). rr_id q = runID run \<longrightarrow> rr_status q = RunStatusCancelled))
   \<and> (updateWrite lib i job ex v = (Inr j, v') \<longrightarrow>
      (\<forall>r\<in>set (dbJobs (wDb v')). jr_id r = i \<longrightarrow> jr_last_scheduled_at r = encodeNullableTime (jobLastScheduledAt ex)))"
proof (intro conjI impI)
  assume "cancelWrite run w = (Inr run', w') \<and> runStatus run = RunStatusPending"
  then obtain w1 where
    u: "UpdateStatus (runID run) RunStatusCancelled (runStartedAt run) (runFinishedAt run)
          (runExitCode run) (runErrorMessage run) w = (Inr (), w1)" and d: "wDb w' = wDb w1"
    by (auto simp: cancelWrite_def cancelTarget_def Let_def io_Inr)
  show "\<forall>q\<in>set (dbRuns (wDb w')). rr_id q = runID run \<longrightarrow> rr_status q = RunStatusCancelled"
    unfolding d UpdateStatus_Inr(2) [OF u] by (auto simp: set_tUpdate split: if_splits)
next
  assume "updateWrite lib i job ex v = (Inr j, v')"
  note u = updateWrite_Inr [OF this]
  have "jr_last_scheduled_at (jobRow j) = encodeNullableTime (jobLastScheduledAt ex)" using u(3) by (simp add: jobRow_def)
  moreover have "\<exists>x::job_row. r = (jobRow j)\<lparr>jr_id := jr_id x, jr_created_at := jr_created_at x\<rparr>"
    if "r \<in> set (dbJobs (wDb v'))" "jr_id r = i" for r
    using that unfolding u(4) by (auto simp: set_tUpdate split: if_splits) metis
  ultimately show "\<forall>r\<in>set (dbJobs (wDb v')). jr_id r = i \<longrightarrow> jr_last_scheduled_at r = encodeNullableTime (jobLastScheduledAt ex)"
    by force
qed

theorem requests_write_what_they_read_witness:
  "(\<exists>q. q \<in> set (dbRuns (wDb (snd (cancelWrite (exRun ''pending'') (exWorld [exRunRow ''running''])))))
     \<and> rr_status q = ''cancelled'')
   \<and> (\<exists>r. r \<in> set (dbJobs (wDb (snd (updateWrite everyMinute 1 exJob exJob exRescheduled)))) \<and> jr_last_scheduled_at r = None)"
proof -
  let ?w = "exWorld [exRunRow ''running'']"
  from exWorld_kept(2) obtain q where q: "q \<in> set (dbRuns (wDb (snd (cancelWrite (exRun ''pending'') ?w))))"
    "rr_id q = 1" by blast
  obtain r w' where c: "cancelWrite (exRun ''pending'') ?w = (Inr r, w')"
    by (simp add: cancelWrite_def cancelTarget_def UpdateStatus_def updateRunStatusRow_def io_eval exWorld_def exRun_def)
  obtain j v' x where u: "updateWrite everyMinute 1 exJob exJob exRescheduled = (Inr j, v')"
    and x: "x \<in> set (dbJobs (wDb v'))" "jr_id x = 1" using exRescheduled_updated by blast
  note both = requests_write_what_they_read [of "exRun ''pending''" ?w r w' everyMinute 1 exJob exJob exRescheduled j v']
  from both q c have "rr_status q = ''cancelled''" by (auto simp: exRun_def)
  moreover from both u x have "jr_last_scheduled_at x = None" by (auto simp: exJob_def encodeNullableTime_def)
  ultimately show ?thesis using q u x by auto
qed



section \<open>The services\<close>


text \<open>C18. \<open>TriggerJob\<close> either fails and changes nothing, or adds one pending run of the job with attempt
  0 and its created event, together, and wakes the dispatch loop.\<close>

theorem trigger_job_effect:
  "case TriggerJob i reason w of
     (Inl e, w') \<Rightarrow> wDb w' = wDb w
   | (Inr r, w') \<Rightarrow> \<exists>e. runID r = dbRunSeq (wDb w) + 1 \<and> runStatus r = RunStatusPending
       \<and> runAttempt r = 0 \<and> runJobID r = i \<and> evRunID e = runID r \<and> evEventType e = RunEventTypeCreated
       \<and> wDispatchWakeup w'
       \<and> wDb w' = (wDb w)\<lparr>dbRuns := dbRuns (wDb w) @ [runRow r], dbRunSeq := dbRunSeq (wDb w) + 1,
           dbEvents := dbEvents (wDb w) @ [eventRow e], dbEventSeq := dbEventSeq (wDb w) + 1\<rparr>"
proof (cases "TriggerJob i reason w")
  case (Pair r w')
  show ?thesis
  proof (cases r)
    case (Inl e)
    with Pair TriggerJob_Inl show ?thesis by fastforce
  next
    case (Inr run)
    with Pair have "TriggerJob i reason w = (Inr run, w')" by simp
    then show ?thesis by (rule TriggerJob_Inr) (unfold Pair Inr prod.case sum.case, blast)
  qed
qed

text \<open>C19. What \<open>buildJob\<close> accepts: under a timeout policy in order, the job it builds satisfies every
  rule of a job (name, image, enumerations, a schedule that fits its type, a timeout within the
  policy), and every refusal is a \<open>ValidationError\<close>.\<close>

theorem build_job_sound:
  assumes "policyOk p"
  shows "case buildJob p inp of Inl e \<Rightarrow> \<exists>f m. e = ValidationErr f m | Inr j \<Rightarrow> jobOk p j"
  using buildJob_ok [OF assms] buildJob_error by (auto split: sum.split)

theorem build_job_sound_witness:
  "case buildJob defaultPolicy (exInput ''report'') of Inl e \<Rightarrow> \<exists>f m. e = ValidationErr f m | Inr j \<Rightarrow> jobOk defaultPolicy j"
  by (rule build_job_sound [OF defaultPolicy_ok])

text \<open>For every job \<open>buildJob\<close> accepts, the two packages agree on the next run: the service when the job
  is written, the scheduler when it is due.\<close>

lemma next_run_agrees:
  assumes "jobOk p j"
  shows "serviceNextRunAt lib j t = Inr n \<longleftrightarrow> schedulerNextRunAt lib j t = Inr n"
  using assms
  by (auto simp: jobOk_def serviceNextRunAt_def schedulerNextRunAt_def split: option.splits sum.splits)

text \<open>C20. For an accepted job the service and the scheduler, which each have a function of their own for it,
  agree on the next run, and it is later than the time it is computed from, except where the cron
  library knows no activation (the zero time) or the interval exceeds the 9223372036 seconds a
  duration can hold.\<close>

theorem next_run_is_later:
  assumes "jobOk p j" and "cronDocumented lib" and "serviceNextRunAt lib j t = Inr n"
    and "\<And>i. jobIntervalSec j = Some i \<Longrightarrow> i \<le> 9223372036"
  shows "schedulerNextRunAt lib j t = Inr n \<and> (t < n \<or> (jobScheduleType j = ScheduleTypeCron \<and> n = 0))"
proof (rule conjI [OF iffD1 [OF next_run_agrees [OF assms(1)] assms(3)]], cases "jobScheduleType j = ScheduleTypeCron")
  case True
  with serviceNextRunAt_cron [OF assms(2) True assms(3)]
  show "t < n \<or> (jobScheduleType j = ScheduleTypeCron \<and> n = 0)" by auto
next
  case False
  with assms(1) obtain i where i: "jobScheduleType j = ScheduleTypeInterval" "jobIntervalSec j = Some i" "0 < i"
    by (auto simp: jobOk_def)
  from serviceNextRunAt_interval [OF i(1,2), of lib t] i(3) assms(3) assms(4) [OF i(2)]
  have "n = t + i * second" by simp
  with i(3) show "t < n \<or> (jobScheduleType j = ScheduleTypeCron \<and> n = 0)" by (simp add: second_def)
qed

theorem next_run_is_later_witness:
  "schedulerNextRunAt everyMinute exJob 63839664065000000000 = Inr 63839664125000000000 \<and> ((63839664065000000000::int) < 63839664125000000000 \<or> (jobScheduleType exJob = ScheduleTypeCron \<and> (63839664125000000000::int) = 0))"
  by (rule next_run_is_later [of defaultPolicy exJob everyMinute])
    (auto simp: everyMinute_documented jobOk_def exJob_def sourceTypeIsValid_def policyIsValid_def
      defaultPolicy_def NewTimeoutPolicy_def serviceNextRunAt_def timeAdd_def secDuration_def second_def in_int64_def)

text \<open>A page of runs holds at most the page size, only runs that match the filter, and the total
  is the number of all that match.\<close>

lemma run_page_sound:
  assumes "runsList f p w = (Inr (rs, cnt), w')"
  shows "wDb w' = wDb w \<and> cnt = int (length (filter (runMatches f) (dbRuns (wDb w))))
    \<and> int (length rs) \<le> fst (normalize p)
    \<and> (\<forall>r\<in>set rs. \<exists>q\<in>set (dbRuns (wDb w)). runMatches f q \<and> scanRun q = Inr r)"
proof -
  let ?all = "rev (sort_key (\<lambda>r. (rr_scheduled_at r, rr_id r)) (filter (runMatches f) (dbRuns (wDb w))))"
  let ?rows = "sqlLimit (fst (normalize p)) (sqlOffset (snd (normalize p)) ?all)"
  note l = runsList_Inr [OF assms]
  have size: "0 \<le> fst (normalize p)" by (simp add: normalize_def Let_def)
  have "length rs = length ?rows" using l(3) by (rule map_res_Inr_length)
  with length_sqlLimit [OF size] have "int (length rs) \<le> fst (normalize p)" by simp
  moreover have "\<exists>q\<in>set (dbRuns (wDb w)). runMatches f q \<and> scanRun q = Inr r" if r: "r \<in> set rs" for r
  proof -
    from map_res_Inr_set [OF l(3) r] obtain q where q: "q \<in> set ?rows" "scanRun q = Inr r" by blast
    have "set ?rows \<subseteq> set ?all"
      using set_sqlLimit [of "fst (normalize p)" "sqlOffset (snd (normalize p)) ?all"]
        set_drop_subset [of "nat (snd (normalize p))" ?all]
      by (auto simp: sqlOffset_def split: if_splits)
    with q show ?thesis by auto
  qed
  ultimately show ?thesis using l(1,2) by blast
qed

section \<open>Configuration\<close>

text \<open>C21. \<open>Validate\<close> accepts exactly the configurations that are in order: ports and intervals in range,
  at least one worker, timeouts consistent, known image sources with the default among them, a known
  pull policy and network mode, no negative limit.\<close>

theorem validate_accepts_exactly:
  "Validate c = Inr () \<longleftrightarrow> configOk c"
  by (rule Validate_iff)



section \<open>Dispatch, logs and retention\<close>







section \<open>Specifications of the whole\<close>

text \<open>C26. Between any two moments a run that was there before keeps its job, its planned time and its
  attempt, and its status only moves onward: from pending to running, and from there to the statuses
  of a run that is being cancelled or has ended, from which it is never pending or running again.\<close>

theorem run_lifecycle:
  assumes "reachable s lib p \<sigma> \<tau>" and "r' \<in> set (dbRuns (wDb (sysWorld \<tau>)))"
    and "rr_id r' \<le> dbRunSeq (wDb (sysWorld \<sigma>))"
  shows "\<exists>r\<in>set (dbRuns (wDb (sysWorld \<sigma>))). rr_id r = rr_id r' \<and> runKey r = runKey r'
    \<and> phaseStep\<^sup>*\<^sup>* (phaseOf (rr_status r)) (phaseOf (rr_status r'))"
proof -
  from reachable_onward [OF assms(1)] assms(2,3) obtain r
    where "r \<in> set (dbRuns (wDb (sysWorld \<sigma>)))" and "succeeds r r'" by (auto simp: onward_def)
  then show ?thesis by (auto simp: succeeds_def intro!: bexI [of _ r])
qed

theorem run_lifecycle_witness:
  "\<exists>\<tau> r'. reachable exSched everyMinute defaultPolicy exLoaded \<tau> \<and> rr_status r' = ''running''
     \<and> r' \<in> set (dbRuns (wDb (sysWorld \<tau>)))
     \<and> (\<exists>r\<in>set (dbRuns (wDb (sysWorld exLoaded))). rr_id r = rr_id r'
          \<and> phaseStep\<^sup>*\<^sup>* (phaseOf (rr_status r)) (phaseOf (rr_status r')))"
proof -
  obtain \<tau> r' where t: "reachable exSched everyMinute defaultPolicy exLoaded \<tau>"
    and r: "r' \<in> set (dbRuns (wDb (sysWorld \<tau>)))" "rr_id r' = 1" "rr_status r' = ''running''"
    using exLoaded_claims by blast
  have "rr_id r' \<le> dbRunSeq (wDb (sysWorld exLoaded))" using r(2) by (simp add: exLoaded_def exSys_def exWorld_def)
  from run_lifecycle [OF t r(1) this] t r show ?thesis by blast
qed

text \<open>C27. The table of jobs is a map from keys to jobs: whatever sequence of successful calls of the
  service is made, each call is one the map allows (a created key is new, a changed one present, a
  read returns what the map holds) and the table afterwards is the map after the same operations.\<close>

theorem job_table_refines_map:
  assumes "jobStore.performs d cs d'"
  shows "allAllowed cs (jobsView d) \<and> jobsView d' = fold mapOp cs (jobsView d)"
  using assms by (rule jobStore.performs_refines)

theorem job_table_refines_map_witness:
  "\<exists>d. jobStore.performs (wDb (exWorld [])) [Look 1 exJob, Drop 1] d \<and> jobsView (wDb (exWorld [])) 1 = Some exJob
     \<and> jobsView d 1 = None"
proof -
  obtain d where d: "jobStore.performs (wDb (exWorld [])) [Look 1 exJob, Drop 1] d" using exWorld_look_drop by blast
  from job_table_refines_map [OF d] d show ?thesis by auto
qed

section \<open>Images\<close>

text \<open>C28. A listing of images, from Docker or from the registry and whatever either answers, holds only
  images of the source asked for, that source is allowed, and every reference starts with an allowed
  prefix and with the prefix asked for, and contains the text searched.\<close>

theorem resolver_enforces_policy:
  assumes "resolverListCandidates cfg (localListCandidates dockerOut) (\<lambda>q p. rem q p) st q pfx = Inr cs"
    and "c \<in> set cs" and "remoteLists lib s clt q pfx (rem q pfx)"
  shows "SourceAllowed cfg st \<and> cdSourceType c = st \<and> permitted cfg (cdImageRef c)
    \<and> hasPrefix (cdImageRef c) pfx \<and> containsStr (cdImageRef c) q"
  using assms by (intro resolver_listing) auto

theorem resolver_enforces_policy_witness:
  "resolverListCandidates (ImageCfg exConfig) (localListCandidates exImages) (\<lambda>q p. Inl Canceled) ''local'' [] [] = Inr [exBackupImage]
   \<and> permitted (ImageCfg exConfig) (cdImageRef exBackupImage)"
  using resolver_enforces_policy [OF exImages_permitted _ exRemote_unreachable, of exBackupImage] exImages_permitted
  by simp



text \<open>C30. The catalog is read by following its links: the loop returns a list exactly when the pages
  come to an end without an error, and then it is the pages one after the other.\<close>

theorem catalog_follows_links:
  "listRepositories lib s clt h = Some (Inr all, h')
   \<longleftrightarrow> (\<exists>ps. pages lib clt (rsEndpoint s @ ''/v2/_catalog?n=1000'') h ps h' \<and> all = concat ps)"
  unfolding listRepositories_def using catalogLoop_Inr catalogLoop_pages by fastforce

section \<open>Files\<close>

text \<open>C31. The pruner touches only what it manages: a file that is gone or changed after a call was
  recorded, as log or result, by a run in a terminal status that had finished, and lies below the
  root of the logs or of the artifacts, however the path was written.\<close>

theorem pruner_touches_only_managed_files:
  assumes "prunerRun cfg wd ctx ctx' (w, d) = (r, w', d')" and "map_of (dkFiles d') p \<noteq> map_of (dkFiles d) p"
    and "pred_option rooted wd"
  shows "\<exists>q\<in>set (dbRuns (wDb w)). isTerminal (rr_status q) \<and> rr_finished_at q \<noteq> None
    \<and> (\<exists>path root a. (rr_log_path q = Some path \<and> root = LogRoot (StoreCfg cfg)
           \<or> rr_result_path q = Some path \<and> root = ArtifactRoot (StoreCfg cfg))
         \<and> absPath wd path = Some p \<and> absPath wd root = Some a \<and> belowPath a p)"
proof -
  obtain runs t where "touchesOnly (managedOf cfg wd runs) (wDb w, d) (wDb w', d')"
    and rows: "\<And>x. x \<in> set runs \<Longrightarrow> \<exists>q\<in>set (dbRuns (wDb w)). terminalBefore (encodeTime t) q \<and> scanRun q = Inr x"
    by (rule prunerRun_touches [OF assms(1)], rule that)
  with assms(2) have "p \<in> managedOf cfg wd runs" by (auto simp: touchesOnly_def)
  then obtain x path root where x: "x \<in> set runs" and c: "cleanManagedPath wd root path = Some p"
    and path: "runLogPath x = Some path \<and> root = LogRoot (StoreCfg cfg)
      \<or> runResultPath x = Some path \<and> root = ArtifactRoot (StoreCfg cfg)" by (auto simp: managedOf_def)
  from rows [OF x] obtain q where q: "q \<in> set (dbRuns (wDb w))" "terminalBefore (encodeTime t) q" "scanRun q = Inr x"
    by blast
  have "cleanManagedPath wd root path = Some p \<longleftrightarrow> root \<noteq> [] \<and> path \<noteq> [] \<and> absPath wd path = Some p
      \<and> (\<exists>a. absPath wd root = Some a \<and> belowPath a p)"
    by (rule cleanManagedPath_iff) (use assms(3) in simp)
  with c obtain a where "absPath wd path = Some p" "absPath wd root = Some a" "belowPath a p" by blast
  moreover have "rr_log_path q = runLogPath x" "rr_result_path q = runResultPath x"
    using q(3) by (auto simp: scanRun_def bind_ok_Inr)
  ultimately show ?thesis
    using q(1,2) path by (intro bexI [OF _ q(1)]) (auto simp: terminalBefore_def split: option.splits)
qed

theorem pruner_touches_only_managed_files_witness:
  "\<exists>r w' d'. prunerRun exLogsOnly None (\<lambda>_. None) (\<lambda>_. None) (exWorld [exOldRow], exDisk) = (r, w', d')
     \<and> map_of (dkFiles d') ''/data/logs/job-1/run-1/run.log'' \<noteq> map_of (dkFiles exDisk) ''/data/logs/job-1/run-1/run.log''
     \<and> (\<exists>path root a. absPath None path = Some ''/data/logs/job-1/run-1/run.log'' \<and> absPath None root = Some a
          \<and> belowPath a ''/data/logs/job-1/run-1/run.log'')"
proof -
  obtain r w' d' where p: "prunerRun exLogsOnly None (\<lambda>_. None) (\<lambda>_. None) (exWorld [exOldRow], exDisk) = (r, w', d')"
    and g: "map_of (dkFiles d') ''/data/logs/job-1/run-1/run.log'' = None" using exDisk_pruned by blast
  have n: "map_of (dkFiles d') ''/data/logs/job-1/run-1/run.log'' \<noteq> map_of (dkFiles exDisk) ''/data/logs/job-1/run-1/run.log''"
    unfolding g by (simp add: exDisk_def)
  from pruner_touches_only_managed_files [OF p n] p n show ?thesis by auto
qed

text \<open>C32. The limit on the total removes, of the files that finished runs record, the oldest first, and no
  more than needed: the files removed are a first part of the list in order of age and path, the
  total is below the limit afterwards or no file is left to remove, and before the last removal it was
  above. Nothing else on the disk changes.\<close>

theorem storage_limit_removes_oldest_first:
  assumes "enforceTotalStorage cfg wd ctx m runs d = (Inr n, d')"
  shows "\<exists>tot gone kept. managedStorageBytes wd [LogRoot (StoreCfg cfg), ArtifactRoot (StoreCfg cfg)] d = Inr tot
    \<and> sort (terminalRunFiles wd (StoreCfg cfg) runs d) = gone @ kept \<and> n = sum_list (map feSize gone)
    \<and> dkFiles d' = filter (\<lambda>(q, _). q \<notin> fePath ` set gone) (dkFiles d)
    \<and> (tot - n \<le> m \<or> kept = []) \<and> (\<forall>gs g. gone = gs @ [g] \<longrightarrow> m < tot - sum_list (map feSize gs))"
  by (rule enforceTotalStorage_Inr [OF assms])

theorem storage_limit_removes_oldest_first_witness:
  "\<exists>tot gone kept. managedStorageBytes None [LogRoot (StoreCfg exConfig), ArtifactRoot (StoreCfg exConfig)] exDisk = Inr tot
     \<and> sort (terminalRunFiles None (StoreCfg exConfig) [exOldRun] exDisk) = gone @ kept \<and> 100 = sum_list (map feSize gone)
     \<and> (tot - 100 \<le> 50 \<or> kept = [])"
  using storage_limit_removes_oldest_first [OF exDisk_limited] by blast

section \<open>The container\<close>

text \<open>C33. \<open>RunContainer\<close> issues its commands in this order and no others: the run, with the container's
  name, its management label and no new privileges, before the image; where the context ends first, a
  stop with the grace period; then, where the configuration asks for it, the forced removal. A
  container that did not start is left alone.\<close>

theorem container_commands_in_order:
  "snd (snd (RunContainer (logged dk) (loggedProc proc) cfg spec (d, l))) = l @ [dockerRunArgs spec cfg]
     @ (case fst (proc (dockerRunArgs spec cfg) d) of StartFails e \<Rightarrow> []
        | CtxDone e \<Rightarrow> [''stop'', ''-t'', itoa (stopGracePeriodSec cfg), csName spec] # cleanupCommands cfg (csName spec)
        | Exits e \<Rightarrow> cleanupCommands cfg (csName spec))
   \<and> (\<exists>opts. dockerRunArgs spec cfg = [''run'', ''--name'', csName spec] @ opts @ [csImageRef spec]
        \<and> sublist [''--label'', containerLabelManaged @ ''=true''] opts
        \<and> sublist [''--security-opt'', ''no-new-privileges''] opts)"
  using RunContainer_logged [of proc spec cfg d "fst (proc (dockerRunArgs spec cfg) d)" "snd (proc (dockerRunArgs spec cfg) d)" dk l]
    dockerRunArgs_shape [of spec cfg] by simp

text \<open>C34. When \<open>Execute\<close> returns without an error, the job's source and image were allowed, its image was
  resolved, the container was started for this job and run from that image, \<open>docker run\<close> exited with
  zero, and the result says so.\<close>

theorem success_means_exit_zero:
  assumes "Execute e env job run d = ((r, None), d')"
  shows "\<exists>res spec cand d0 d1 d2 d3. r = Some res \<and> exExitCode res = 0
    \<and> SourceAllowed (deImage e) (jobSourceType job) \<and> permitted (deImage e) (jobImageRef job)
    \<and> envResolve env (jobSourceType job) (jobImageRef job) d0 = (Inr cand, d1)
    \<and> csImageRef spec = (if cdPullRef cand = [] then cdImageRef cand else cdPullRef cand)
    \<and> csRunID spec = runID run \<and> csJobID spec = jobID job
    \<and> envProc env (dockerRunArgs spec (deExec e)) d2 = (Exits None, d3)"
  by (rule Execute_None [OF assms])

theorem success_means_exit_zero_witness:
  "\<exists>r d' res. Execute exExecutor exEnv exJob (exRun ''running'') () = ((r, None), d') \<and> r = Some res \<and> exExitCode res = 0"
proof -
  obtain r d' where e: "Execute exExecutor exEnv exJob (exRun ''running'') () = ((r, None), d')"
    using exEnv_executes by blast
  from success_means_exit_zero [OF e] e show ?thesis by blast
qed

section \<open>Loops and requests\<close>


text \<open>C36. A job that a request created is what a later request for it returns: where POST replies 201,
  GET of the job's number replies 200 with the same body, as long as the table is the same, the
  driver answers and the times are in the years a column can hold.\<close>

theorem created_job_is_returned:
  assumes "hCreateJob lib p b w = (rp, w1)" and "hrStatus rp = 201" and "hrBody rp = JobBody rs"
    and "dbWf (wDb w)" and "dbJobSeq (wDb w) < 9223372036854775807" and "responseTimesOk rs"
    and "wDb w2 = wDb w1" and "\<not> wFault w2 (wCalls w2)" and "param ''jobId'' = itoa (dbJobSeq (wDb w) + 1)"
  shows "rsID rs = dbJobSeq (wDb w) + 1 \<and> fst (hGetJob param w2) = json 200 (JobBody rs)"
  by (rule created_then_read [OF assms(1,2,4,5)]) (use assms(3,6-9) in auto)

theorem created_job_is_returned_witness:
  "\<exists>rs w1. hCreateJob everyMinute defaultPolicy (Inr exRequest) (exWorld []) = (json 201 (JobBody rs), w1)
     \<and> rsID rs = 2 \<and> fst (hGetJob (\<lambda>_. itoa 2) w1) = json 200 (JobBody rs)"
proof -
  obtain j w1 where c: "hCreateJob everyMinute defaultPolicy (Inr exRequest) (exWorld []) = (json 201 (JobBody (toJobResponse j)), w1)"
    and t: "jobTimesOk j" and f: "\<not> wFault w1 (wCalls w1)" using exRequest_created by blast
  have s: "dbJobSeq (wDb (exWorld [])) = 1" by (simp add: exWorld_def)
  from created_job_is_returned [OF c _ _ exWorld_wf(2) _ _ refl f, of "toJobResponse j" "\<lambda>_. itoa 2"] c t s
  show ?thesis by (auto simp: responseTimesOk_job)
qed

text \<open>C37. A request for a job or a run that is not there leaves the database as it is, and this is what it is
  told: not found where it reads the job or the run, reads the result or triggers the job; an internal
  error where it updates the job, cancels the run or reads its log; no content where it deletes the job;
  and an empty list where it asks for the events of the run.\<close>

theorem missing_ids_are_answered:
  assumes "tFind jr_id i (dbJobs (wDb w)) = None" and "tFind rr_id k (dbRuns (wDb w)) = None"
    and "\<not> wFault w (wCalls w)" and "dbWf (wDb w)" and "in_int64 i" and "in_int64 k"
    and "param ''jobId'' = itoa i" and "param ''runId'' = itoa k" and "buildJob p (jobInputFromRequest req) = Inr j0"
  shows "map_prod hrStatus wDb (hGetJob param w) = (404, wDb w)
    \<and> map_prod hrStatus wDb (hTriggerJob param 0 bound w) = (404, wDb w)
    \<and> map_prod hrStatus wDb (hUpdateJob lib p param (Inr req) w) = (500, wDb w)
    \<and> map_prod hrStatus wDb (hDeleteJob param w) = (204, wDb w)
    \<and> map_prod hrStatus wDb (hGetRun param w) = (404, wDb w)
    \<and> map_prod hrStatus wDb (hGetRunResult rj param w) = (404, wDb w)
    \<and> map_prod hrStatus wDb (hCancelRun param w) = (500, wDb w)
    \<and> map_prod hrStatus wDb (hGetRunLogs rf param query w) = (500, wDb w)
    \<and> map_prod hrStatus wDb (hListRunEvents param w) = (200, wDb w)
    \<and> hrBody (fst (hListRunEvents param w)) = EventsBody \<lparr>ltItems = [], ltTotal = 0, ltPage = 1, ltSize = 0\<rparr>"
proof -
  have job: "parseIntParam (param ''jobId'') = Inr i" and run: "parseIntParam (param ''runId'') = Inr k"
    using assms(5-8) by (simp_all add: parseIntParam_def parseInt64_itoa)
  show ?thesis
    using missing_job_replies [where i = i and w = w and param = param, OF assms(1,3) job]
      missing_job_deleted [where i = i and w = w and param = param, OF assms(1,3) job assms(4)]
      missing_run_replies [where i = k and w = w and param = param, OF assms(2,3) run]
      missing_run_events [where i = k and w = w and param = param, OF assms(2,3) run assms(4)] assms(9) by blast
qed

theorem missing_ids_are_answered_witness:
  "hrStatus (fst (hGetJob (\<lambda>_. itoa 7) (exWorld []))) = 404 \<and> hrStatus (fst (hCancelRun (\<lambda>_. itoa 7) (exWorld []))) = 500
   \<and> hrStatus (fst (hDeleteJob (\<lambda>_. itoa 7) (exWorld []))) = 204"
proof -
  have m: "tFind jr_id 7 (dbJobs (wDb (exWorld []))) = None" "tFind rr_id 7 (dbRuns (wDb (exWorld []))) = None"
    by (simp_all add: exWorld_def tFind_def exJobRow_def)
  have f: "\<not> wFault (exWorld []) (wCalls (exWorld []))" and i: "in_int64 7" by (simp_all add: exWorld_def in_int64_def)
  obtain j0 where b: "buildJob defaultPolicy (jobInputFromRequest exRequest) = Inr j0" using exRequest_builds by blast
  from missing_ids_are_answered [where param = "\<lambda>_. itoa 7", OF m f exWorld_wf(2) i i refl refl b]
  show ?thesis by (simp add: map_prod_def case_prod_unfold)
qed



text \<open>C39. Whatever arrives at the server, on whatever path: a request keeps the constraints of the schema,
  never makes a run that was claimed claimable again, and a GET request, of the REST API or of a page
  of the web UI, leaves the database as it is.\<close>

theorem requests_keep_the_store:
  "(dbWf (wDb w) \<longrightarrow> dbWf (wDb (snd (serve sv rq w))))
   \<and> keepsSpent (wDb w) (wDb (snd (serve sv rq w)))
   \<and> (hqMethod rq = ''GET'' \<longrightarrow> wDb (snd (serve sv rq w)) = wDb w)"
proof (intro conjI)
  show "dbWf (wDb w) \<longrightarrow> dbWf (wDb (snd (serve sv rq w)))" by (rule wf_served.serve_kept [OF refl refl]) simp
  show "keepsSpent (wDb w) (wDb (snd (serve sv rq w)))" by (rule spent_served.serve_kept [OF refl refl]) simp
  show "hqMethod rq = ''GET'' \<longrightarrow> wDb (snd (serve sv rq w)) = wDb w"
    using read_served.serve_kept [OF refl refl, of rq w sv] by simp
qed

theorem requests_keep_the_store_witness:
  "wDb (snd (serve exServer exGetJob (exWorld []))) = wDb (exWorld [])
   \<and> dbWf (wDb (snd (serve exServer exGetJob (exWorld []))))
   \<and> fst (serve exServer exGetJob (exWorld [])) = ApiReply (json 200 (JobBody (toJobResponse exJob)))"
  using requests_keep_the_store [of "exWorld []" exServer exGetJob] exWorld_wf(2) exServer_serves
  by (simp add: exGetJob_def)



end
